theory Spec2Isabelle
  imports Complex_Main "HOL-Library.Sublist"
begin

section \<open>Data model\<close>

text \<open>
  The types of \<^verbatim>\<open>src/ai/types.ts\<close> and \<^verbatim>\<open>src/ai/language-model.ts\<close>.
  A JavaScript string is modelled as a \<^typ>\<open>string\<close> whose characters stand for code
  units below 256; a JavaScript \<^verbatim>\<open>number\<close> is only stored and passed on by the code
  modelled here and is a \<^typ>\<open>real\<close>. A value of the TypeScript type \<^verbatim>\<open>unknown\<close> is a
  value of the type parameter \<open>'u\<close>, which the model cannot inspect or build.
\<close>

datatype ChatRole = System | User | Assistant | Tool

datatype ChatStatus = Idle | Loading | Streaming | Error | Cancelled

text \<open>\<^verbatim>\<open>ChatChunk = string | { content: string; done?: boolean }\<close>\<close>

datatype ChatChunk = ChunkString string | ChunkObject string "bool option"

text \<open>
  A value travelling on the failure channel of a sequence or stored in \<^verbatim>\<open>state.error\<close>:
  either the \<^verbatim>\<open>DOMException\<close> named \<^verbatim>\<open>AbortError\<close> that an abort produces, or any other
  value.
\<close>

datatype 'u unknown = AbortError | Unknown 'u

record 'u ChatMessage =
  msg_id :: string
  role :: ChatRole
  content :: string
  createdAt :: real
  meta :: "(string \<times> 'u) list option"

record 'u ChatState =
  messages :: "'u ChatMessage list"
  status :: ChatStatus
  error :: "'u unknown option"

datatype 'u MessagePart =
    TextPart string
  | ToolCallPart string string "(string \<times> 'u) list"
  | ToolResultPart string string 'u

record 'u Message =
  message_role :: ChatRole
  message_content :: "'u MessagePart list"

record TokenUsage =
  promptTokens :: real
  completionTokens :: real
  totalTokens :: real

datatype FinishReason = Stop | Length | ToolCalls | FinishError | FinishUnknown

record 'u TextResult =
  result_text :: string
  result_usage :: TokenUsage
  result_finishReason :: FinishReason
  result_messages :: "'u Message list"

datatype 'u TextStreamEvent =
    TextDelta string
  | Finish string TokenUsage FinishReason
  | ErrorEvent 'u

text \<open>
  An \<^verbatim>\<open>AbortSignal\<close> at one moment: whether it has fired, and its reason (\<open>None\<close> for
  \<^verbatim>\<open>undefined\<close>).
\<close>

record 'u AbortSignal =
  aborted :: bool
  reason :: "'u unknown option"

record 'u LanguageModelRequest =
  request_messages :: "'u Message list"
  request_system :: "string option"
  request_temperature :: "real option"
  request_maxTokens :: "real option"
  request_topP :: "real option"
  request_topK :: "real option"
  request_stopSequences :: "string list option"
  request_signal :: "'u AbortSignal option"

record 'u ChatModelRequest =
  chat_messages :: "'u ChatMessage list"
  chat_signal :: "'u AbortSignal"

section \<open>Sequences\<close>

text \<open>
  What an RxJS sequence tells its subscriber: a value, a failure, or its completion.
  The library itself is not part of the repository; the model keeps the three facts of
  it that the code relies on:
  \<^item> a subscriber that has received a failure or a completion, or that has been
    unsubscribed, receives nothing more, and it is marked so before its callback runs;
  \<^item> what a sequence emits while \<^verbatim>\<open>subscribe\<close> is still running reaches the callbacks
    before \<^verbatim>\<open>subscribe\<close> returns the subscription;
  \<^item> the operators \<^verbatim>\<open>tap\<close>, \<^verbatim>\<open>share\<close>, \<^verbatim>\<open>filter\<close>, \<^verbatim>\<open>map\<close> and \<^verbatim>\<open>scan\<close> pass failure and
    completion on unchanged, in the same call;
  \<^item> \<^verbatim>\<open>share()\<close> keeps one subscription to the sequence in front of it for all the
    subscribers that are there at the same time. The first subscriber opens it; a
    subscriber that arrives while it is open is attached to it and receives what is
    emitted from then on; a failure or a completion reaches every subscriber attached
    and ends it, and so does the departure of the last subscriber; a subscriber that
    arrives after that opens a new one.
\<close>

datatype ('a, 'u) notification = OnNext 'a | OnError "'u unknown" | OnComplete

text \<open>
  A capability a caller plugs in is a closure: its answer may depend on how often it has
  been called before, so it is a function of that number and of the request. The answer
  is the list of notifications the returned sequence delivers while it is being
  subscribed to; what it delivers later arrives as a separate step of the controller.
\<close>

record 'u ChatModelAdapter =
  complete :: "nat \<Rightarrow> 'u ChatModelRequest \<Rightarrow> (ChatChunk, 'u) notification list"

record 'u LanguageModel =
  modelId :: string
  doGenerate :: "nat \<Rightarrow> 'u LanguageModelRequest \<Rightarrow> ('u TextResult, 'u) notification list"
  doStream :: "nat \<Rightarrow> 'u LanguageModelRequest \<Rightarrow> ('u TextStreamEvent, 'u) notification list"

section \<open>streamText: the request and the delta projection\<close>

record 'u StreamTextOptions =
  options_model :: "'u LanguageModel"
  options_messages :: "'u Message list"
  options_system :: "string option"
  options_temperature :: "real option"
  options_maxTokens :: "real option"
  options_topP :: "real option"
  options_topK :: "real option"
  options_stopSequences :: "string list option"
  options_signal :: "'u AbortSignal option"
  options_onFinish :: bool

text \<open>
  \<^verbatim>\<open>buildRequest\<close> copies the messages and each option that is not \<^verbatim>\<open>undefined\<close>; an
  absent field of the request and an \<^verbatim>\<open>undefined\<close> one are both \<open>None\<close> here.
\<close>

definition buildRequest :: "'u StreamTextOptions \<Rightarrow> 'u LanguageModelRequest" where
  "buildRequest options =
     \<lparr> request_messages = options_messages options,
       request_system = options_system options,
       request_temperature = options_temperature options,
       request_maxTokens = options_maxTokens options,
       request_topP = options_topP options,
       request_topK = options_topK options,
       request_stopSequences = options_stopSequences options,
       request_signal = options_signal options \<rparr>"

text \<open>
  \<^verbatim>\<open>filter((event) => event.type === "text-delta")\<close> followed by
  \<^verbatim>\<open>map((event) => event.textDelta)\<close>: the fragment of a delta event, nothing for the
  other events.
\<close>

fun textDeltaOf :: "'u TextStreamEvent \<Rightarrow> string option" where
  "textDeltaOf (TextDelta d) = Some d"
| "textDeltaOf (Finish t u r) = None"
| "textDeltaOf (ErrorEvent e) = None"

section \<open>streamText and generateText as sequences\<close>

text \<open>
  What the calls of \<^verbatim>\<open>streamText\<close> and \<^verbatim>\<open>generateText\<close> do to their surroundings: the
  requests \<^verbatim>\<open>doStream\<close> and \<^verbatim>\<open>doGenerate\<close> have been called with, how often a sequence
  returned by one of them has been subscribed to, and the results \<^verbatim>\<open>onFinish\<close> has been
  called with.
\<close>

record 'u world =
  doStreamCalls :: "'u LanguageModelRequest list"
  doGenerateCalls :: "'u LanguageModelRequest list"
  sourceSubscriptions :: nat
  onFinishCalls :: "'u TextResult list"

text \<open>
  A lazy sequence: subscribing to it in a world gives the notifications the subscriber
  receives before \<^verbatim>\<open>subscribe\<close> returns, in order, and the world afterwards. What the
  sequence of a language model delivers later, and a signal that fires later, are steps
  of their own further down.
\<close>

type_synonym ('a, 'u) observable = "'u world \<Rightarrow> ('a, 'u) notification list \<times> 'u world"

text \<open>A subscriber receives nothing after the first failure or completion.\<close>

fun delivered :: "('a, 'u) notification list \<Rightarrow> ('a, 'u) notification list" where
  "delivered [] = []"
| "delivered (OnNext v # xs) = OnNext v # delivered xs"
| "delivered (OnError e # xs) = [OnError e]"
| "delivered (OnComplete # xs) = [OnComplete]"

text \<open>The sequence a capability has returned: subscribing to it is counted.\<close>

definition sourceOf :: "('a, 'u) notification list \<Rightarrow> ('a, 'u) observable" where
  "sourceOf xs w = (delivered xs, w\<lparr> sourceSubscriptions := Suc (sourceSubscriptions w) \<rparr>)"

text \<open>\<^verbatim>\<open>signal.reason ?? new DOMException("The operation was aborted.", "AbortError")\<close>\<close>

definition abortReason :: "'u AbortSignal \<Rightarrow> 'u unknown" where
  "abortReason signal = (case reason signal of None \<Rightarrow> AbortError | Some r \<Rightarrow> r)"

text \<open>
  \<^verbatim>\<open>applyAbortSignal\<close>, with the signal as it is when the subscriber arrives. Without a
  signal the source is returned as it is. With a signal that has fired already the
  subscriber fails at once and the source is not subscribed to. Otherwise \<^verbatim>\<open>onAbort\<close> is
  registered and the source is subscribed to; the listener stays registered as long as
  that subscription is open, and what it does when the signal fires is \<open>abortSignal\<close>
  below.
\<close>

definition applyAbortSignal ::
  "'u AbortSignal option \<Rightarrow> ('a, 'u) observable \<Rightarrow> ('a, 'u) observable" where
  "applyAbortSignal signal source =
     (case signal of
        None \<Rightarrow> source
      | Some sg \<Rightarrow>
          (\<lambda>w. if aborted sg then ([OnError (abortReason sg)], w) else source w))"

text \<open>
  The callback of \<^verbatim>\<open>tap\<close>: \<^verbatim>\<open>onFinish\<close>, when it is given, is called for an event of type
  \<^verbatim>\<open>finish\<close> with the event's text, usage and finish reason and a copy of the messages.
\<close>

fun tapEvent :: "'u StreamTextOptions \<Rightarrow> 'u TextStreamEvent \<Rightarrow> 'u world \<Rightarrow> 'u world" where
  "tapEvent options (Finish t u r) w =
     (if options_onFinish options
      then w\<lparr> onFinishCalls := onFinishCalls w @
               [\<lparr> result_text = t, result_usage = u, result_finishReason = r,
                  result_messages = options_messages options \<rparr>] \<rparr>
      else w)"
| "tapEvent options (TextDelta d) w = w"
| "tapEvent options (ErrorEvent e) w = w"

fun tapNotification ::
  "'u StreamTextOptions \<Rightarrow> ('u TextStreamEvent, 'u) notification \<Rightarrow> 'u world \<Rightarrow> 'u world" where
  "tapNotification options (OnNext event) w = tapEvent options event w"
| "tapNotification options (OnError e) w = w"
| "tapNotification options OnComplete w = w"

definition tap ::
  "'u StreamTextOptions \<Rightarrow> ('u TextStreamEvent, 'u) observable \<Rightarrow>
   ('u TextStreamEvent, 'u) observable" where
  "tap options source w =
     (let (xs, w1) = source w in (xs, fold (tapNotification options) xs w1))"

text \<open>\<^verbatim>\<open>filter\<close> and \<^verbatim>\<open>map\<close> of \<^verbatim>\<open>delta$\<close>, on one notification and on a sequence.\<close>

fun deltaNotifications ::
  "('u TextStreamEvent, 'u) notification list \<Rightarrow> (string, 'u) notification list" where
  "deltaNotifications [] = []"
| "deltaNotifications (OnNext event # xs) =
     (case textDeltaOf event of
        None \<Rightarrow> deltaNotifications xs
      | Some d \<Rightarrow> OnNext d # deltaNotifications xs)"
| "deltaNotifications (OnError e # xs) = OnError e # deltaNotifications xs"
| "deltaNotifications (OnComplete # xs) = OnComplete # deltaNotifications xs"

text \<open>\<^verbatim>\<open>scan((accumulated, delta) => accumulated + delta, "")\<close>\<close>

fun scan :: "string \<Rightarrow> (string, 'u) notification list \<Rightarrow> (string, 'u) notification list" where
  "scan accumulated [] = []"
| "scan accumulated (OnNext d # xs) = OnNext (accumulated @ d) # scan (accumulated @ d) xs"
| "scan accumulated (OnError e # xs) = OnError e # scan accumulated xs"
| "scan accumulated (OnComplete # xs) = OnComplete # scan accumulated xs"

text \<open>
  What \<^verbatim>\<open>stream$\<close>, \<^verbatim>\<open>delta$\<close> and \<^verbatim>\<open>text$\<close> of one call of \<^verbatim>\<open>streamText\<close> have in common.
  The closures hold the options and the sequence \<^verbatim>\<open>doStream\<close> returned; the signal of
  the options is an object of its own and is kept as it is now. \<^verbatim>\<open>share\<close> has its
  variables: \<open>connection\<close> says whether its one subscription to the sequence in front of
  it is open, and \<open>observers\<close> are the subscriptions attached to its \<^verbatim>\<open>Subject\<close>, in the
  order they came (\<^verbatim>\<open>refCount\<close> is their number). The subscriptions to \<^verbatim>\<open>stream$\<close> are
  numbered in the order of the calls of \<^verbatim>\<open>subscribe\<close>, whichever of the three sequences
  the subscriber came through. \<open>emitted\<close> is everything \<^verbatim>\<open>stream$\<close> has emitted, and
  \<open>received\<close> what it has delivered to each subscription.
\<close>

record 'u StreamTextResult =
  stream_options :: "'u StreamTextOptions"
  stream_returned :: "('u TextStreamEvent, 'u) notification list"
  stream_signal :: "'u AbortSignal option"
  connection :: bool
  observers :: "nat list"
  subscriptions :: nat
  emitted :: "('u TextStreamEvent, 'u) notification list"
  received :: "nat \<Rightarrow> ('u TextStreamEvent, 'u) notification list"

type_synonym 'u stream = "'u StreamTextResult \<times> 'u world"

text \<open>
  \<^verbatim>\<open>streamText\<close> calls \<^verbatim>\<open>doStream\<close> when it is called itself; nothing is subscribed to
  yet.
\<close>

definition streamText :: "'u StreamTextOptions \<Rightarrow> 'u world \<Rightarrow> 'u stream" where
  "streamText options w =
     (let request = buildRequest options;
          returned = doStream (options_model options) (length (doStreamCalls w)) request;
          w1 = w\<lparr> doStreamCalls := doStreamCalls w @ [request] \<rparr>
      in (\<lparr> stream_options = options, stream_returned = returned,
            stream_signal = options_signal options,
            connection = False, observers = [], subscriptions = 0,
            emitted = [], received = (\<lambda>k. []) \<rparr>, w1))"

text \<open>
  \<^verbatim>\<open>doStream(request).pipe(applyAbortSignal(options.signal), tap(...))\<close>, the sequence in
  front of \<^verbatim>\<open>share\<close>.
\<close>

definition upstream :: "'u StreamTextResult \<Rightarrow> ('u TextStreamEvent, 'u) observable" where
  "upstream r =
     tap (stream_options r)
       (applyAbortSignal (stream_signal r) (sourceOf (stream_returned r)))"

text \<open>
  The \<^verbatim>\<open>Subject\<close> of \<^verbatim>\<open>share\<close> hands a notification to the subscriptions attached to it, and
  to no other.
\<close>

definition multicast ::
  "('u TextStreamEvent, 'u) notification \<Rightarrow> 'u StreamTextResult \<Rightarrow> 'u StreamTextResult" where
  "multicast x r =
     r\<lparr> emitted := emitted r @ [x],
        received := (\<lambda>k. if k \<in> set (observers r) then received r k @ [x] else received r k) \<rparr>"

text \<open>
  The callbacks of the connection of \<^verbatim>\<open>share\<close>. A value goes to the \<^verbatim>\<open>Subject\<close>. On a
  failure or a completion \<^verbatim>\<open>share\<close> gives up the connection and the \<^verbatim>\<open>Subject\<close>, and the
  subscriptions that were attached receive the failure or the completion, which closes
  them.
\<close>

fun connectionNotify ::
  "('u TextStreamEvent, 'u) notification \<Rightarrow> 'u StreamTextResult \<Rightarrow> 'u StreamTextResult" where
  "connectionNotify (OnNext v) r = multicast (OnNext v) r"
| "connectionNotify (OnError e) r = (multicast (OnError e) r)\<lparr> connection := False, observers := [] \<rparr>"
| "connectionNotify OnComplete r = (multicast OnComplete r)\<lparr> connection := False, observers := [] \<rparr>"

text \<open>
  \<^verbatim>\<open>share()\<close>, that is \<^verbatim>\<open>stream$.subscribe\<close>. The new subscription is attached to the
  \<^verbatim>\<open>Subject\<close>. When a connection is open that is all: the subscriber receives what is
  emitted from now on. Otherwise \<^verbatim>\<open>share\<close> connects: it subscribes once to the sequence
  in front of it, and what that delivers at once goes through the callbacks of the
  connection.
\<close>

fun share :: "'u stream \<Rightarrow> 'u stream" where
  "share (r, w) =
     (let k = subscriptions r;
          r1 = r\<lparr> subscriptions := Suc k, observers := observers r @ [k] \<rparr>
      in if connection r1 then (r1, w)
         else (let (xs, w1) = upstream r1 w
               in (fold connectionNotify xs (r1\<lparr> connection := True \<rparr>), w1)))"

text \<open>
  The three sequences of the result. \<^verbatim>\<open>delta$\<close> and \<^verbatim>\<open>text$\<close> are \<^verbatim>\<open>stream$\<close> followed by
  operators that belong to the one subscriber, so subscribing to any of the three is one
  subscription to \<^verbatim>\<open>stream$\<close>; the answer is what the new subscriber has received when
  \<^verbatim>\<open>subscribe\<close> returns. Over its whole life a subscriber of \<^verbatim>\<open>delta$\<close> receives
  \<open>deltaNotifications\<close> of what \<^verbatim>\<open>stream$\<close> delivers to its subscription, and a subscriber
  of \<^verbatim>\<open>text$\<close> receives \<open>scan []\<close> of that.
\<close>

definition stream_obs ::
  "'u stream \<Rightarrow> ('u TextStreamEvent, 'u) notification list \<times> 'u stream" where
  "stream_obs s = (let s1 = share s in (received (fst s1) (subscriptions (fst s)), s1))"

definition delta_obs :: "'u stream \<Rightarrow> (string, 'u) notification list \<times> 'u stream" where
  "delta_obs s =
     (let s1 = share s
      in (deltaNotifications (received (fst s1) (subscriptions (fst s))), s1))"

definition text_obs :: "'u stream \<Rightarrow> (string, 'u) notification list \<times> 'u stream" where
  "text_obs s =
     (let s1 = share s
      in (scan [] (deltaNotifications (received (fst s1) (subscriptions (fst s)))), s1))"

text \<open>
  Subscription \<open>k\<close> is unsubscribed. A subscription that is closed already has nothing
  to undo. Otherwise it leaves the \<^verbatim>\<open>Subject\<close>, and when it was the last one \<^verbatim>\<open>share\<close>
  unsubscribes its connection, which removes \<^verbatim>\<open>onAbort\<close> from the signal and unsubscribes
  the sequence of the language model.
\<close>

fun unsubscribeStream :: "nat \<Rightarrow> 'u stream \<Rightarrow> 'u stream" where
  "unsubscribeStream k (r, w) =
     (if k \<in> set (observers r)
      then (let r1 = r\<lparr> observers := removeAll k (observers r) \<rparr>
            in if observers r1 = [] then (r1\<lparr> connection := False \<rparr>, w) else (r1, w))
      else (r, w))"

text \<open>
  The sequence of the language model delivers a notification after \<^verbatim>\<open>subscribe\<close> has
  returned. It has a subscriber only while the connection is open; the notification
  then passes \<^verbatim>\<open>tap\<close> and reaches the callbacks of the connection.
\<close>

fun sourceEmits ::
  "('u TextStreamEvent, 'u) notification \<Rightarrow> 'u stream \<Rightarrow> 'u stream" where
  "sourceEmits x (r, w) =
     (if connection r
      then (connectionNotify x r, tapNotification (stream_options r) x w)
      else (r, w))"

text \<open>
  The signal of the options fires, with a reason or without one. A signal fires once.
  \<^verbatim>\<open>onAbort\<close> is registered while the connection is open, and fails it with the reason of
  the signal. The language model has the signal too, in its request; as for the
  controller, the model takes it that the language model calls no callback of its
  subscriber from inside a listener of its own.
\<close>

fun abortSignal :: "'u unknown option \<Rightarrow> 'u stream \<Rightarrow> 'u stream" where
  "abortSignal r0 (r, w) =
     (case stream_signal r of
        None \<Rightarrow> (r, w)
      | Some sg \<Rightarrow>
          if aborted sg then (r, w)
          else (let sg1 = sg\<lparr> aborted := True, reason := r0 \<rparr>;
                    r1 = r\<lparr> stream_signal := Some sg1 \<rparr>
                in if connection r1
                   then (connectionNotify (OnError (abortReason sg1)) r1, w)
                   else (r1, w)))"

text \<open>
  What can happen to the result of \<^verbatim>\<open>streamText\<close>: a subscriber arrives, through any of
  the three sequences; a subscription is unsubscribed; the sequence of the language
  model delivers a notification; the signal fires. A subscriber is taken not to
  subscribe or unsubscribe from inside one of its own callbacks.
\<close>

datatype 'u streamOperation =
    Subscribe
  | Unsubscribe nat
  | SourceEmits "('u TextStreamEvent, 'u) notification"
  | Abort "'u unknown option"

fun streamStep :: "'u streamOperation \<Rightarrow> 'u stream \<Rightarrow> 'u stream" where
  "streamStep Subscribe s = share s"
| "streamStep (Unsubscribe k) s = unsubscribeStream k s"
| "streamStep (SourceEmits x) s = sourceEmits x s"
| "streamStep (Abort r0) s = abortSignal r0 s"

definition streamRun :: "'u streamOperation list \<Rightarrow> 'u stream \<Rightarrow> 'u stream" where
  "streamRun ops s = fold streamStep ops s"

record 'u GenerateTextOptions =
  generate_model :: "'u LanguageModel"
  generate_messages :: "'u Message list"
  generate_system :: "string option"
  generate_temperature :: "real option"
  generate_maxTokens :: "real option"
  generate_topP :: "real option"
  generate_topK :: "real option"
  generate_stopSequences :: "string list option"
  generate_signal :: "'u AbortSignal option"

text \<open>The \<^verbatim>\<open>buildRequest\<close> of \<^verbatim>\<open>generateText.ts\<close>.\<close>

definition buildGenerateRequest :: "'u GenerateTextOptions \<Rightarrow> 'u LanguageModelRequest" where
  "buildGenerateRequest options =
     \<lparr> request_messages = generate_messages options,
       request_system = generate_system options,
       request_temperature = generate_temperature options,
       request_maxTokens = generate_maxTokens options,
       request_topP = generate_topP options,
       request_topK = generate_topK options,
       request_stopSequences = generate_stopSequences options,
       request_signal = generate_signal options \<rparr>"

text \<open>
  \<^verbatim>\<open>generateText\<close> calls \<^verbatim>\<open>doGenerate\<close> when it is called itself and returns the sequence it
  got behind \<^verbatim>\<open>applyAbortSignal\<close>; nothing is shared, each subscriber has a subscription
  of its own. The signal of the options is read as it is when the subscriber arrives;
  what reaches a subscriber after \<^verbatim>\<open>subscribe\<close> has returned is not followed for this
  sequence.
\<close>

definition generateText ::
  "'u GenerateTextOptions \<Rightarrow> 'u world \<Rightarrow> ('u TextResult, 'u) observable \<times> 'u world" where
  "generateText options w =
     (let request = buildGenerateRequest options;
          returned = sourceOf (doGenerate (generate_model options) (length (doGenerateCalls w)) request);
          w1 = w\<lparr> doGenerateCalls := doGenerateCalls w @ [request] \<rparr>
      in (applyAbortSignal (generate_signal options) returned, w1))"

section \<open>The chat controller\<close>

text \<open>
  The model handed to \<^verbatim>\<open>createChatController\<close>. \<^verbatim>\<open>isLanguageModel\<close> tells the two
  shapes apart by their members; here the shape is the constructor.
\<close>

datatype 'u model = Adapter "'u ChatModelAdapter" | LanguageModel "'u LanguageModel"

fun isLanguageModel :: "'u model \<Rightarrow> bool" where
  "isLanguageModel (LanguageModel m) = True"
| "isLanguageModel (Adapter a) = False"

text \<open>
  \<^verbatim>\<open>CreateChatControllerOptions\<close> with the model. \<^verbatim>\<open>now\<close> and \<^verbatim>\<open>idGenerator\<close> are the
  functions the controller ends up calling (the caller's, or \<^verbatim>\<open>Date.now\<close> and the random
  default); each is called once per created message, and \<open>now k\<close> and \<open>idGenerator k\<close>
  are what the call for message number \<open>k\<close> returns.
\<close>

record 'u CreateChatControllerOptions =
  model :: "'u model"
  now :: "nat \<Rightarrow> real"
  idGenerator :: "nat \<Rightarrow> string"
  initialMessages :: "'u ChatMessage list option"
  system :: "string option"
  temperature :: "real option"
  maxTokens :: "real option"

text \<open>
  The private state of one controller. The three \<^verbatim>\<open>BehaviorSubject\<close>s of messages, status
  and error are their current values; \<open>stateSubject\<close> is everything \<^verbatim>\<open>state$\<close> has emitted,
  oldest first, so its last element is what \<^verbatim>\<open>getState\<close> returns. Request number \<open>n\<close>
  owns the \<^verbatim>\<open>AbortController\<close> \<open>n\<close> and the subscription \<open>n\<close>: \<open>signalAborted\<close> and
  \<open>subscriberClosed\<close> are the flags of these objects, \<open>assistantMessageId\<close> is the
  message id the callbacks of subscription \<open>n\<close> have captured, and \<open>requests\<close> counts
  the requests started so far.
\<close>

record 'u controller =
  messagesSubject :: "'u ChatMessage list"
  statusSubject :: ChatStatus
  errorSubject :: "'u unknown option"
  stateSubject :: "'u ChatState list"
  activeAbortController :: "nat option"
  activeSubscription :: "nat option"
  lastRequestMessages :: "'u ChatMessage list option"
  signalAborted :: "nat \<Rightarrow> bool"
  subscriberClosed :: "nat \<Rightarrow> bool"
  assistantMessageId :: "nat \<Rightarrow> string"
  requests :: nat
  created :: nat

fun chunkToText :: "ChatChunk \<Rightarrow> string" where
  "chunkToText (ChunkString s) = s"
| "chunkToText (ChunkObject c d) = c"

text \<open>\<^verbatim>\<open>Boolean(chunk.done)\<close>: an absent flag counts as false.\<close>

fun chunkIsDone :: "ChatChunk \<Rightarrow> bool" where
  "chunkIsDone (ChunkString s) = False"
| "chunkIsDone (ChunkObject c d) = (case d of None \<Rightarrow> False | Some b \<Rightarrow> b)"

definition chatMessagesToMessages :: "'u ChatMessage list \<Rightarrow> 'u Message list" where
  "chatMessagesToMessages chatMessages =
     map (\<lambda>msg. \<lparr> message_role = role msg, message_content = [TextPart (content msg)] \<rparr>)
       chatMessages"

text \<open>
  \<^verbatim>\<open>String.prototype.trim\<close> removes white space and line terminators from both ends.
  Among the code units below 256 these are tab, line feed, vertical tab, form feed,
  carriage return, space and the no-break space.
\<close>

definition isWhiteSpace :: "char \<Rightarrow> bool" where
  "isWhiteSpace c = (of_char c \<in> {9, 10, 11, 12, 13, 32, 160 :: nat})"

definition trim :: "string \<Rightarrow> string" where
  "trim s = rev (dropWhile isWhiteSpace (rev (dropWhile isWhiteSpace s)))"

definition emitState :: "'u controller \<Rightarrow> 'u controller" where
  "emitState s =
     s\<lparr> stateSubject := stateSubject s @
          [\<lparr> messages = messagesSubject s, status = statusSubject s, error = errorSubject s \<rparr>] \<rparr>"

definition setMessages :: "'u ChatMessage list \<Rightarrow> 'u controller \<Rightarrow> 'u controller" where
  "setMessages ms s = emitState (s\<lparr> messagesSubject := ms \<rparr>)"

definition setStatus :: "ChatStatus \<Rightarrow> 'u controller \<Rightarrow> 'u controller" where
  "setStatus st s = emitState (s\<lparr> statusSubject := st \<rparr>)"

definition setError :: "'u unknown option \<Rightarrow> 'u controller \<Rightarrow> 'u controller" where
  "setError e s = emitState (s\<lparr> errorSubject := e \<rparr>)"

definition getState :: "'u controller \<Rightarrow> 'u ChatState" where
  "getState s = last (stateSubject s)"

text \<open>
  \<^verbatim>\<open>createMessage\<close> calls \<^verbatim>\<open>idGenerator()\<close> and \<^verbatim>\<open>now()\<close> once each, and attaches a copy
  of \<^verbatim>\<open>meta\<close> when it is given and has at least one key.
\<close>

definition createMessage ::
  "'u CreateChatControllerOptions \<Rightarrow> ChatRole \<Rightarrow> string \<Rightarrow> (string \<times> 'u) list option \<Rightarrow>
   'u controller \<Rightarrow> 'u ChatMessage \<times> 'u controller" where
  "createMessage options r c mt s =
     (\<lparr> msg_id = idGenerator options (created s),
        role = r,
        content = c,
        createdAt = now options (created s),
        meta = (case mt of
                  None \<Rightarrow> None
                | Some kvs \<Rightarrow> if 0 < length kvs then Some kvs else None) \<rparr>,
      s\<lparr> created := Suc (created s) \<rparr>)"

text \<open>
  \<^verbatim>\<open>AbortController.abort()\<close> fires the listeners of its signal once, in the same call; a
  second call does nothing. \<^verbatim>\<open>Subscription.unsubscribe()\<close> closes the subscriber and calls
  none of its callbacks.
\<close>

definition abort ::
  "(nat \<Rightarrow> 'u controller \<Rightarrow> 'u controller) \<Rightarrow> nat \<Rightarrow> 'u controller \<Rightarrow> 'u controller" where
  "abort listeners c s =
     (if signalAborted s c then s
      else listeners c (s\<lparr> signalAborted := (signalAborted s)(c := True) \<rparr>))"

definition unsubscribe :: "nat \<Rightarrow> 'u controller \<Rightarrow> 'u controller" where
  "unsubscribe n s = s\<lparr> subscriberClosed := (subscriberClosed s)(n := True) \<rparr>"

text \<open>
  \<^verbatim>\<open>releaseActiveRequest\<close>, with the listeners of the abort signal as a parameter: the
  signal is aborted first, the subscription is unsubscribed second.
\<close>

definition releaseWith ::
  "(nat \<Rightarrow> 'u controller \<Rightarrow> 'u controller) \<Rightarrow> 'u controller \<Rightarrow> 'u controller" where
  "releaseWith listeners s =
     (let s1 = (case activeAbortController s of
                  None \<Rightarrow> s
                | Some c \<Rightarrow> (abort listeners c s)\<lparr> activeAbortController := None \<rparr>);
          s2 = (case activeSubscription s1 of
                  None \<Rightarrow> s1
                | Some n \<Rightarrow> (unsubscribe n s1)\<lparr> activeSubscription := None \<rparr>)
      in s2)"

definition finishRequest ::
  "('u controller \<Rightarrow> 'u controller) \<Rightarrow> 'u controller \<Rightarrow> 'u controller" where
  "finishRequest release s = setStatus Idle (release s)"

definition appendDelta :: "string \<Rightarrow> string \<Rightarrow> 'u controller \<Rightarrow> 'u controller" where
  "appendDelta aid textDelta s =
     (if 0 < length textDelta then
        (let s1 = setStatus Streaming s
         in setMessages
              (map (\<lambda>message.
                      if msg_id message = aid
                      then message\<lparr> content := content message @ textDelta \<rparr>
                      else message)
                 (messagesSubject s1)) s1)
      else s)"

text \<open>
  The three callbacks \<^verbatim>\<open>runCompletion\<close> subscribes with. The \<^verbatim>\<open>error\<close> and \<^verbatim>\<open>complete\<close>
  callbacks have the same text on both paths; \<open>release\<close> is \<^verbatim>\<open>releaseActiveRequest\<close>.
\<close>

definition onError ::
  "('u controller \<Rightarrow> 'u controller) \<Rightarrow> 'u unknown \<Rightarrow> 'u controller \<Rightarrow> 'u controller" where
  "onError release e s = release (setStatus Error (setError (Some e) s))"

definition onComplete ::
  "('u controller \<Rightarrow> 'u controller) \<Rightarrow> 'u controller \<Rightarrow> 'u controller" where
  "onComplete release s = finishRequest release s"

definition onNextChunk ::
  "('u controller \<Rightarrow> 'u controller) \<Rightarrow> string \<Rightarrow> ChatChunk \<Rightarrow> 'u controller \<Rightarrow> 'u controller" where
  "onNextChunk release aid chunk s =
     (let s1 = appendDelta aid (chunkToText chunk) s
      in if chunkIsDone chunk then finishRequest release s1 else s1)"

definition onNextDelta :: "string \<Rightarrow> string \<Rightarrow> 'u controller \<Rightarrow> 'u controller" where
  "onNextDelta aid delta s = appendDelta aid delta s"

text \<open>
  The subscriber of subscription \<open>n\<close> receives a notification: nothing happens once it
  is closed, and a failure or a completion closes it before the callback runs. On the
  language-model path the notification first passes the operators of \<^verbatim>\<open>streamText\<close>
  (no \<^verbatim>\<open>onFinish\<close> is given, so \<^verbatim>\<open>tap\<close> does nothing), which keep the delta events only.
\<close>

definition notifyChunk ::
  "('u controller \<Rightarrow> 'u controller) \<Rightarrow> nat \<Rightarrow> (ChatChunk, 'u) notification \<Rightarrow>
   'u controller \<Rightarrow> 'u controller" where
  "notifyChunk release n x s =
     (if subscriberClosed s n then s
      else case x of
             OnNext chunk \<Rightarrow> onNextChunk release (assistantMessageId s n) chunk s
           | OnError e \<Rightarrow> onError release e (unsubscribe n s)
           | OnComplete \<Rightarrow> onComplete release (unsubscribe n s))"

definition notifyEvent ::
  "('u controller \<Rightarrow> 'u controller) \<Rightarrow> nat \<Rightarrow> ('u TextStreamEvent, 'u) notification \<Rightarrow>
   'u controller \<Rightarrow> 'u controller" where
  "notifyEvent release n x s =
     (if subscriberClosed s n then s
      else case x of
             OnNext event \<Rightarrow>
               (case textDeltaOf event of
                  None \<Rightarrow> s
                | Some delta \<Rightarrow> onNextDelta (assistantMessageId s n) delta s)
           | OnError e \<Rightarrow> onError release e (unsubscribe n s)
           | OnComplete \<Rightarrow> onComplete release (unsubscribe n s))"

text \<open>
  The listeners of the signal of request \<open>c\<close>. On the language-model path
  \<^verbatim>\<open>applyAbortSignal\<close> has registered \<^verbatim>\<open>onAbort\<close>, which fails the subscriber with the
  signal's reason; the controller aborts without a reason, so the reason is the
  \<^verbatim>\<open>AbortError\<close> exception. The callback that then runs calls \<^verbatim>\<open>releaseActiveRequest\<close>
  again while the first call is still inside \<^verbatim>\<open>abort()\<close>: the controller it finds is the
  one already aborted, so no listener runs again. The adapter or the language model
  receives the signal too; the model takes it that neither calls a callback of its
  subscriber from inside a listener of its own on the signal.
\<close>

definition abortListeners ::
  "'u CreateChatControllerOptions \<Rightarrow> nat \<Rightarrow> 'u controller \<Rightarrow> 'u controller" where
  "abortListeners options c s =
     (case model options of
        LanguageModel m \<Rightarrow> notifyEvent (releaseWith (\<lambda>c s. s)) c (OnError AbortError) s
      | Adapter a \<Rightarrow> s)"

definition releaseActiveRequest ::
  "'u CreateChatControllerOptions \<Rightarrow> 'u controller \<Rightarrow> 'u controller" where
  "releaseActiveRequest options s = releaseWith (abortListeners options) s"

text \<open>
  \<^verbatim>\<open>runCompletion\<close>. The new \<^verbatim>\<open>AbortController\<close> and the new subscription get the number
  of the request, and the request handed to the model carries the new signal, which has
  not fired. \<open>activeSubscription\<close> is assigned when \<^verbatim>\<open>subscribe\<close> returns, that is after
  the notifications the sequence delivers during \<^verbatim>\<open>subscribe\<close>.
\<close>

definition adapterRequest :: "'u ChatMessage list \<Rightarrow> 'u ChatModelRequest" where
  "adapterRequest baseMessages =
     \<lparr> chat_messages = baseMessages,
       chat_signal = \<lparr> aborted = False, reason = None \<rparr> \<rparr>"

definition modelRequest ::
  "'u CreateChatControllerOptions \<Rightarrow> 'u LanguageModel \<Rightarrow> 'u ChatMessage list \<Rightarrow>
   'u LanguageModelRequest" where
  "modelRequest options m baseMessages =
     buildRequest
       \<lparr> options_model = m,
         options_messages = chatMessagesToMessages baseMessages,
         options_system = system options,
         options_temperature = temperature options,
         options_maxTokens = maxTokens options,
         options_topP = None,
         options_topK = None,
         options_stopSequences = None,
         options_signal = Some \<lparr> aborted = False, reason = None \<rparr>,
         options_onFinish = False \<rparr>"

definition runCompletion ::
  "'u CreateChatControllerOptions \<Rightarrow> 'u ChatMessage list \<Rightarrow> string \<Rightarrow>
   'u controller \<Rightarrow> 'u controller" where
  "runCompletion options baseMessages aid s =
     (let s1 = s\<lparr> lastRequestMessages := Some baseMessages \<rparr>;
          s2 = releaseActiveRequest options s1;
          s3 = setStatus Loading s2;
          s4 = setError None s3;
          n = requests s4;
          s5 = s4\<lparr> requests := Suc n,
                   signalAborted := (signalAborted s4)(n := False),
                   activeAbortController := Some n \<rparr>;
          s6 = s5\<lparr> subscriberClosed := (subscriberClosed s5)(n := False),
                   assistantMessageId := (assistantMessageId s5)(n := aid) \<rparr>;
          s7 = (case model options of
                  LanguageModel m \<Rightarrow>
                    fold (notifyEvent (releaseActiveRequest options) n)
                      (doStream m n (modelRequest options m baseMessages)) s6
                | Adapter a \<Rightarrow>
                    fold (notifyChunk (releaseActiveRequest options) n)
                      (complete a n (adapterRequest baseMessages)) s6)
      in s7\<lparr> activeSubscription := Some n \<rparr>)"

definition send ::
  "'u CreateChatControllerOptions \<Rightarrow> string \<Rightarrow> (string \<times> 'u) list option \<Rightarrow>
   'u controller \<Rightarrow> 'u controller" where
  "send options c mt s =
     (let text = trim c
      in if length text = 0 then s
         else
           (let s1 = releaseActiveRequest options s;
                currentMessages = messagesSubject s1;
                (userMessage, s2) = createMessage options User text mt s1;
                (assistantMessage, s3) = createMessage options Assistant [] None s2;
                s4 = setMessages (currentMessages @ [userMessage, assistantMessage]) s3
            in runCompletion options (currentMessages @ [userMessage])
                 (msg_id assistantMessage) s4))"

definition retryLast ::
  "'u CreateChatControllerOptions \<Rightarrow> 'u controller \<Rightarrow> 'u controller" where
  "retryLast options s =
     (case lastRequestMessages s of
        None \<Rightarrow> s
      | Some lastMessages \<Rightarrow>
          (let s1 = releaseActiveRequest options s;
               (assistantMessage, s2) = createMessage options Assistant [] None s1;
               s3 = setMessages (lastMessages @ [assistantMessage]) s2
           in runCompletion options lastMessages (msg_id assistantMessage) s3))"

definition cancel ::
  "'u CreateChatControllerOptions \<Rightarrow> 'u controller \<Rightarrow> 'u controller" where
  "cancel options s = setStatus Cancelled (releaseActiveRequest options s)"

definition createChatController :: "'u CreateChatControllerOptions \<Rightarrow> 'u controller" where
  "createChatController options =
     (let initial = (case initialMessages options of None \<Rightarrow> [] | Some ms \<Rightarrow> ms)
      in \<lparr> messagesSubject = initial,
           statusSubject = Idle,
           errorSubject = None,
           stateSubject = [\<lparr> messages = initial, status = Idle, error = None \<rparr>],
           activeAbortController = None,
           activeSubscription = None,
           lastRequestMessages = None,
           signalAborted = (\<lambda>n. False),
           subscriberClosed = (\<lambda>n. False),
           assistantMessageId = (\<lambda>n. []),
           requests = 0,
           created = 0 \<rparr>)"

text \<open>
  What can happen to a controller: a call of one of its operations, or the sequence of
  request \<open>n\<close> delivering a notification after \<^verbatim>\<open>subscribe\<close> has returned. A notification
  of the wrong kind for the model, or for a request that was never started, has no
  subscriber. \<^verbatim>\<open>destroy\<close> ends the life of a controller and is not among the operations;
  the subscribers of \<^verbatim>\<open>state$\<close> and of the other projections are taken not to call the
  controller while a value is being delivered to them.
\<close>

datatype 'u operation =
    Send string "(string \<times> 'u) list option"
  | RetryLast
  | Cancel
  | AdapterEmits nat "(ChatChunk, 'u) notification"
  | ModelEmits nat "('u TextStreamEvent, 'u) notification"

fun step :: "'u CreateChatControllerOptions \<Rightarrow> 'u operation \<Rightarrow> 'u controller \<Rightarrow> 'u controller" where
  "step options (Send c mt) s = send options c mt s"
| "step options RetryLast s = retryLast options s"
| "step options Cancel s = cancel options s"
| "step options (AdapterEmits n x) s =
     (if \<not> isLanguageModel (model options) \<and> n < requests s
      then notifyChunk (releaseActiveRequest options) n x s else s)"
| "step options (ModelEmits n x) s =
     (if isLanguageModel (model options) \<and> n < requests s
      then notifyEvent (releaseActiveRequest options) n x s else s)"

definition run :: "'u CreateChatControllerOptions \<Rightarrow> 'u operation list \<Rightarrow> 'u controller \<Rightarrow> 'u controller" where
  "run options ops s = fold (step options) ops s"

section \<open>Definitions used in the statements\<close>

text \<open>A fragment appended to the messages that carry a given id, as \<^verbatim>\<open>appendDelta\<close> does.\<close>

definition appendText :: "string \<Rightarrow> string \<Rightarrow> 'u ChatMessage \<Rightarrow> 'u ChatMessage" where
  "appendText aid d m = (if msg_id m = aid then m\<lparr> content := content m @ d \<rparr> else m)"

text \<open>The results of the finish events among some notifications, in their order.\<close>

fun finishResults ::
  "'u Message list \<Rightarrow> ('u TextStreamEvent, 'u) notification list \<Rightarrow> 'u TextResult list" where
  "finishResults ms [] = []"
| "finishResults ms (OnNext (Finish t u r) # xs) =
     \<lparr> result_text = t, result_usage = u, result_finishReason = r, result_messages = ms \<rparr>
       # finishResults ms xs"
| "finishResults ms (OnNext (TextDelta d) # xs) = finishResults ms xs"
| "finishResults ms (OnNext (ErrorEvent e) # xs) = finishResults ms xs"
| "finishResults ms (OnError e # xs) = finishResults ms xs"
| "finishResults ms (OnComplete # xs) = finishResults ms xs"

fun isFinish :: "('u TextStreamEvent, 'u) notification \<Rightarrow> bool" where
  "isFinish (OnNext (Finish t u r)) = True"
| "isFinish (OnNext (TextDelta d)) = False"
| "isFinish (OnNext (ErrorEvent e)) = False"
| "isFinish (OnError e) = False"
| "isFinish OnComplete = False"

text \<open>
  What holds of the result of \<^verbatim>\<open>streamText\<close> after any steps: the connection is open
  exactly when a subscription is attached; the subscriptions attached have been numbered,
  and a number not given out yet has received nothing; what a subscription has received
  is a stretch of what \<^verbatim>\<open>stream$\<close> has emitted, and for a subscription still attached it
  is the stretch up to now.
\<close>

definition wellFormed :: "'u StreamTextResult \<Rightarrow> bool" where
  "wellFormed r \<longleftrightarrow>
     (connection r \<longleftrightarrow> observers r \<noteq> []) \<and>
     (\<forall>k \<in> set (observers r). k < subscriptions r) \<and>
     (\<forall>k. subscriptions r \<le> k \<longrightarrow> received r k = []) \<and>
     (\<forall>k \<in> set (observers r). suffix (received r k) (emitted r)) \<and>
     (\<forall>k. sublist (received r k) (emitted r))"

text \<open>The result of \<^verbatim>\<open>streamText\<close> under a signal that has fired: nothing is connected.\<close>

definition refused :: "'u AbortSignal \<Rightarrow> 'u StreamTextResult \<Rightarrow> bool" where
  "refused sg r \<longleftrightarrow>
     stream_signal r = Some sg \<and> aborted sg \<and> \<not> connection r \<and> observers r = [] \<and>
     (\<forall>k. subscriptions r \<le> k \<longrightarrow> received r k = [])"

text \<open>
  \<^verbatim>\<open>runCompletion\<close> in two parts: everything up to and including the new
  \<^verbatim>\<open>AbortController\<close> and the fresh subscriber, and the delivery of what the sequence
  emits during \<^verbatim>\<open>subscribe\<close>.
\<close>

definition prepared ::
  "'u CreateChatControllerOptions \<Rightarrow> 'u ChatMessage list \<Rightarrow> string \<Rightarrow>
   'u controller \<Rightarrow> 'u controller" where
  "prepared options baseMessages aid s =
     (let s2 = releaseActiveRequest options (s\<lparr> lastRequestMessages := Some baseMessages \<rparr>);
          s4 = setError None (setStatus Loading s2);
          n = requests s
      in s4\<lparr> requests := Suc n,
              signalAborted := (signalAborted s4)(n := False),
              activeAbortController := Some n,
              subscriberClosed := (subscriberClosed s4)(n := False),
              assistantMessageId := (assistantMessageId s4)(n := aid) \<rparr>)"

definition deliverCompletion ::
  "'u CreateChatControllerOptions \<Rightarrow> 'u ChatMessage list \<Rightarrow> nat \<Rightarrow>
   'u controller \<Rightarrow> 'u controller" where
  "deliverCompletion options baseMessages n s =
     (case model options of
        LanguageModel m \<Rightarrow>
          fold (notifyEvent (releaseActiveRequest options) n)
            (doStream m n (modelRequest options m baseMessages)) s
      | Adapter a \<Rightarrow>
          fold (notifyChunk (releaseActiveRequest options) n)
            (complete a n (adapterRequest baseMessages)) s)"

text \<open>
  What holds of a controller between two steps: a subscriber that is still open belongs
  to the active subscription, an active \<^verbatim>\<open>AbortController\<close> belongs to the active
  subscription, and the message list is one longer than the retained request.
\<close>

definition consistent :: "'u controller \<Rightarrow> bool" where
  "consistent s \<longleftrightarrow>
     (\<forall>k<requests s. subscriberClosed s k \<or> activeSubscription s = Some k) \<and>
     (\<forall>c. activeAbortController s = Some c \<longrightarrow> activeSubscription s = Some c) \<and>
     (case lastRequestMessages s of
        None \<Rightarrow> True
      | Some l \<Rightarrow> length (messagesSubject s) = Suc (length l))"

text \<open>
  What holds while request \<open>n\<close> is being subscribed to: no subscription is assigned yet,
  the active \<^verbatim>\<open>AbortController\<close> is the new one or none, and every earlier subscriber is
  closed.
\<close>

definition subscribing :: "nat \<Rightarrow> 'u controller \<Rightarrow> bool" where
  "subscribing n s \<longleftrightarrow>
     requests s = Suc n \<and> activeSubscription s = None \<and>
     (activeAbortController s = None \<or> activeAbortController s = Some n) \<and>
     (\<forall>k<n. subscriberClosed s k)"

text \<open>The message \<^verbatim>\<open>createMessage\<close> builds when \<open>k\<close> messages have been created before.\<close>

definition newMessage ::
  "'u CreateChatControllerOptions \<Rightarrow> ChatRole \<Rightarrow> string \<Rightarrow> (string \<times> 'u) list option \<Rightarrow> nat \<Rightarrow>
   'u ChatMessage" where
  "newMessage options r c mt k =
     \<lparr> msg_id = idGenerator options k, role = r, content = c, createdAt = now options k,
       meta = (case mt of None \<Rightarrow> None | Some kvs \<Rightarrow> if kvs = [] then None else Some kvs) \<rparr>"

text \<open>The fragment an event contributes to \<^verbatim>\<open>delta$\<close>: its text for a delta, nothing otherwise.\<close>

fun eventText :: "'u TextStreamEvent \<Rightarrow> string" where
  "eventText (TextDelta d) = d"
| "eventText (Finish t u r) = []"
| "eventText (ErrorEvent e) = []"

text \<open>The failures among some notifications, and those of the sequence of one request.\<close>

fun failures :: "('a, 'u) notification list \<Rightarrow> 'u unknown list" where
  "failures [] = []"
| "failures (OnNext v # xs) = failures xs"
| "failures (OnError e # xs) = e # failures xs"
| "failures (OnComplete # xs) = failures xs"

definition completionFailures ::
  "'u CreateChatControllerOptions \<Rightarrow> 'u ChatMessage list \<Rightarrow> nat \<Rightarrow> 'u unknown list" where
  "completionFailures options baseMessages n =
     (case model options of
        LanguageModel m \<Rightarrow> failures (doStream m n (modelRequest options m baseMessages))
      | Adapter a \<Rightarrow> failures (complete a n (adapterRequest baseMessages)))"

text \<open>
  A completion has failed with \<open>e\<close>: the status is error, the error in the state is \<open>e\<close>
  itself, \<^verbatim>\<open>getState()\<close> shows both, subscriber \<open>n\<close> is closed and no \<^verbatim>\<open>AbortController\<close>
  is active.
\<close>

definition failedWith :: "'u unknown \<Rightarrow> nat \<Rightarrow> 'u controller \<Rightarrow> bool" where
  "failedWith e n s \<longleftrightarrow>
     statusSubject s = Error \<and> errorSubject s = Some e \<and>
     getState s = \<lparr> messages = messagesSubject s, status = Error, error = Some e \<rparr> \<and>
     subscriberClosed s n \<and> activeAbortController s = None"

text \<open>\<^verbatim>\<open>getState()\<close> shows the current messages, status and error.\<close>

definition coherent :: "'u controller \<Rightarrow> bool" where
  "coherent s \<longleftrightarrow>
     getState s =
       \<lparr> messages = messagesSubject s, status = statusSubject s, error = errorSubject s \<rparr>"

text \<open>Concrete inputs for the examples: ids \<open>m\<close>, \<open>mm\<close>, \<open>mmm\<close>, ... and a clock.\<close>

definition exampleId :: "nat \<Rightarrow> string" where
  "exampleId k = replicate (Suc k) CHR ''m''"

definition exampleOptions :: "nat model \<Rightarrow> nat CreateChatControllerOptions" where
  "exampleOptions m =
     \<lparr> model = m, now = real, idGenerator = exampleId, initialMessages = None,
       system = None, temperature = None, maxTokens = None \<rparr>"

definition exampleAdapter :: "(ChatChunk, nat) notification list \<Rightarrow> nat model" where
  "exampleAdapter xs = Adapter \<lparr> complete = (\<lambda>n request. xs) \<rparr>"

definition exampleLanguageModel ::
  "(nat TextStreamEvent, nat) notification list \<Rightarrow> nat LanguageModel" where
  "exampleLanguageModel xs =
     \<lparr> modelId = ''mock:test'', doGenerate = (\<lambda>n request. []), doStream = (\<lambda>n request. xs) \<rparr>"

definition exampleUsage :: TokenUsage where
  "exampleUsage = \<lparr> promptTokens = 10, completionTokens = 5, totalTokens = 15 \<rparr>"

definition exampleMessages :: "nat Message list" where
  "exampleMessages = [\<lparr> message_role = User, message_content = [TextPart ''Hi''] \<rparr>]"

definition exampleStreamOptions ::
  "(nat TextStreamEvent, nat) notification list \<Rightarrow> nat AbortSignal option \<Rightarrow>
   nat StreamTextOptions" where
  "exampleStreamOptions xs signal =
     \<lparr> options_model = exampleLanguageModel xs, options_messages = exampleMessages,
       options_system = None, options_temperature = None, options_maxTokens = None,
       options_topP = None, options_topK = None, options_stopSequences = None,
       options_signal = signal, options_onFinish = True \<rparr>"

definition exampleGenerateOptions :: "nat AbortSignal option \<Rightarrow> nat GenerateTextOptions" where
  "exampleGenerateOptions signal =
     \<lparr> generate_model = exampleLanguageModel [], generate_messages = exampleMessages,
       generate_system = None, generate_temperature = None, generate_maxTokens = None,
       generate_topP = None, generate_topK = None, generate_stopSequences = None,
       generate_signal = signal \<rparr>"

definition abortedSignal :: "nat AbortSignal" where
  "abortedSignal = \<lparr> aborted = True, reason = None \<rparr>"

definition emptyWorld :: "nat world" where
  "emptyWorld =
     \<lparr> doStreamCalls = [], doGenerateCalls = [], sourceSubscriptions = 0, onFinishCalls = [] \<rparr>"

definition retryOptions :: "nat CreateChatControllerOptions" where
  "retryOptions = exampleOptions (exampleAdapter [OnNext (ChunkString ''attempt''), OnComplete])"

definition metaOptions :: "nat CreateChatControllerOptions" where
  "metaOptions = exampleOptions (exampleAdapter [OnNext (ChunkString ''response''), OnComplete])"

definition abFinish :: "nat TextStreamEvent" where
  "abFinish = Finish ''AB'' exampleUsage Stop"

definition liveSignal :: "nat AbortSignal" where
  "liveSignal = \<lparr> aborted = False, reason = None \<rparr>"

definition helloFinish :: "(nat TextStreamEvent, nat) notification list" where
  "helloFinish =
     [OnNext (TextDelta ''Hello''), OnNext (Finish ''Hello'' exampleUsage Stop), OnComplete]"

definition helloWorld :: "(ChatChunk, nat) notification list" where
  "helloWorld =
     [OnNext (ChunkObject ''Hello'' (Some False)), OnNext (ChunkObject '' World'' (Some True))]"

section \<open>streamText and generateText: proofs\<close>

lemma fold_tapNotification:
  "onFinishCalls (fold (tapNotification options) xs w) =
     onFinishCalls w @
       (if options_onFinish options then finishResults (options_messages options) xs else [])"
proof (induction xs arbitrary: w)
  case Nil
  then show ?case by simp
next
  case (Cons x xs)
  show ?case
  proof (cases x)
    case (OnNext ev)
    then show ?thesis using Cons by (cases ev) simp_all
  qed (simp_all add: Cons)
qed

lemma fold_tapNotification_frame:
  "doStreamCalls (fold (tapNotification options) xs w) = doStreamCalls w"
  "doGenerateCalls (fold (tapNotification options) xs w) = doGenerateCalls w"
  "sourceSubscriptions (fold (tapNotification options) xs w) = sourceSubscriptions w"
proof (induction xs arbitrary: w)
  case Nil
  { case 1 show ?case by simp }
  { case 2 show ?case by simp }
  { case 3 show ?case by simp }
next
  case (Cons x xs)
  have f: "doStreamCalls (tapNotification options x w) = doStreamCalls w
         \<and> doGenerateCalls (tapNotification options x w) = doGenerateCalls w
         \<and> sourceSubscriptions (tapNotification options x w) = sourceSubscriptions w" for w
  proof (cases x)
    case (OnNext ev)
    then show ?thesis by (cases ev) simp_all
  qed simp_all
  { case 1 show ?case using Cons.IH(1) f by simp }
  { case 2 show ?case using Cons.IH(2) f by simp }
  { case 3 show ?case using Cons.IH(3) f by simp }
qed

lemma length_finishResults: "length (finishResults ms xs) = length (filter isFinish xs)"
  by (induction ms xs rule: finishResults.induct) simp_all

lemma finishResults_append:
  "finishResults ms (xs @ ys) = finishResults ms xs @ finishResults ms ys"
  by (induction ms xs rule: finishResults.induct) simp_all

lemma applyAbortSignal_onFinishCalls:
  "onFinishCalls (snd (applyAbortSignal signal (sourceOf xs) w)) = onFinishCalls w"
  by (simp add: applyAbortSignal_def sourceOf_def split: option.splits)

lemma upstream_onFinishCalls:
  "onFinishCalls (snd (upstream r w)) =
     onFinishCalls w @
       (if options_onFinish (stream_options r)
        then finishResults (options_messages (stream_options r)) (fst (upstream r w))
        else [])"
  by (simp add: upstream_def tap_def split_beta fold_tapNotification
      applyAbortSignal_onFinishCalls)

lemma multicast_fields [simp]:
  "stream_options (multicast x r) = stream_options r"
  "stream_returned (multicast x r) = stream_returned r"
  "stream_signal (multicast x r) = stream_signal r"
  "connection (multicast x r) = connection r"
  "observers (multicast x r) = observers r"
  "subscriptions (multicast x r) = subscriptions r"
  "emitted (multicast x r) = emitted r @ [x]"
  "received (multicast x r) k =
     (if k \<in> set (observers r) then received r k @ [x] else received r k)"
  by (simp_all add: multicast_def)

lemma connectionNotify_fields [simp]:
  "stream_options (connectionNotify x r) = stream_options r"
  "stream_returned (connectionNotify x r) = stream_returned r"
  "stream_signal (connectionNotify x r) = stream_signal r"
  "subscriptions (connectionNotify x r) = subscriptions r"
  "emitted (connectionNotify x r) = emitted r @ [x]"
  "received (connectionNotify x r) k =
     (if k \<in> set (observers r) then received r k @ [x] else received r k)"
  by (cases x; simp)+

lemma connectionNotify_next [simp]:
  "connection (connectionNotify (OnNext v) r) = connection r"
  "observers (connectionNotify (OnNext v) r) = observers r"
  by simp_all

lemma connectionNotify_end [simp]:
  "connection (connectionNotify (OnError e) r) = False"
  "observers (connectionNotify (OnError e) r) = []"
  "connection (connectionNotify OnComplete r) = False"
  "observers (connectionNotify OnComplete r) = []"
  by simp_all

lemma fold_connectionNotify_fields [simp]:
  "stream_options (fold connectionNotify xs r) = stream_options r"
  "stream_returned (fold connectionNotify xs r) = stream_returned r"
  "stream_signal (fold connectionNotify xs r) = stream_signal r"
  "subscriptions (fold connectionNotify xs r) = subscriptions r"
  "emitted (fold connectionNotify xs r) = emitted r @ xs"
  by (induction xs arbitrary: r; simp)+

text \<open>What a step leaves as it is.\<close>

lemma streamStep_frame:
  "stream_options (fst (streamStep op s)) = stream_options (fst s)"
  "stream_returned (fst (streamStep op s)) = stream_returned (fst s)"
  "doStreamCalls (snd (streamStep op s)) = doStreamCalls (snd s)"
  "doGenerateCalls (snd (streamStep op s)) = doGenerateCalls (snd s)"
proof -
  obtain r w where s: "s = (r, w)" by (cases s)
  have t: "doStreamCalls (tapNotification o1 x w) = doStreamCalls w
         \<and> doGenerateCalls (tapNotification o1 x w) = doGenerateCalls w" for o1 x
    using fold_tapNotification_frame(1,2) [of o1 "[x]" w] by simp
  have u: "doStreamCalls (snd (upstream r1 w)) = doStreamCalls w
         \<and> doGenerateCalls (snd (upstream r1 w)) = doGenerateCalls w" for r1
    by (simp add: upstream_def tap_def split_beta fold_tapNotification_frame
        applyAbortSignal_def sourceOf_def split: option.splits)
  show "stream_options (fst (streamStep op s)) = stream_options (fst s)"
    by (cases op) (simp_all add: s Let_def split_beta split: option.splits)
  show "stream_returned (fst (streamStep op s)) = stream_returned (fst s)"
    by (cases op) (simp_all add: s Let_def split_beta split: option.splits)
  show "doStreamCalls (snd (streamStep op s)) = doStreamCalls (snd s)"
    by (cases op) (simp_all add: s Let_def split_beta t u split: option.splits)
  show "doGenerateCalls (snd (streamStep op s)) = doGenerateCalls (snd s)"
    by (cases op) (simp_all add: s Let_def split_beta t u split: option.splits)
qed

text \<open>A step calls \<^verbatim>\<open>onFinish\<close> once for each finish event it adds to what \<^verbatim>\<open>stream$\<close> has emitted.\<close>

lemma streamStep_calls:
  "\<exists>ns. emitted (fst (streamStep op s)) = emitted (fst s) @ ns \<and>
        onFinishCalls (snd (streamStep op s)) =
          onFinishCalls (snd s) @
            (if options_onFinish (stream_options (fst s))
             then finishResults (options_messages (stream_options (fst s))) ns else [])"
proof -
  obtain r w where s: "s = (r, w)" by (cases s)
  show ?thesis
  proof (cases op)
    case Subscribe
    let ?r1 = "r\<lparr> subscriptions := Suc (subscriptions r), observers := observers r @ [subscriptions r] \<rparr>"
    show ?thesis
    proof (cases "connection r")
      case True
      then show ?thesis by (simp add: Subscribe s Let_def)
    next
      case False
      have "emitted (fst (streamStep op s)) = emitted r @ fst (upstream ?r1 w)"
        using False by (simp add: Subscribe s Let_def split_beta)
      moreover have "onFinishCalls (snd (streamStep op s)) =
          onFinishCalls w @
            (if options_onFinish (stream_options r)
             then finishResults (options_messages (stream_options r)) (fst (upstream ?r1 w))
             else [])"
        using False upstream_onFinishCalls [of ?r1 w]
        by (simp add: Subscribe s Let_def split_beta)
      ultimately show ?thesis by (simp add: s)
    qed
  next
    case (Unsubscribe k)
    then show ?thesis by (simp add: s Let_def)
  next
    case (SourceEmits x)
    show ?thesis
    proof (cases "connection r")
      case True
      have "onFinishCalls (tapNotification (stream_options r) x w) =
          onFinishCalls w @
            (if options_onFinish (stream_options r)
             then finishResults (options_messages (stream_options r)) [x] else [])"
        using fold_tapNotification [of "stream_options r" "[x]" w] by simp
      then show ?thesis using True by (simp add: SourceEmits s)
    next
      case False
      then show ?thesis by (simp add: SourceEmits s)
    qed
  next
    case (Abort r0)
    show ?thesis
    proof (cases "stream_signal r")
      case None
      then show ?thesis by (simp add: Abort s)
    next
      case (Some sg)
      then show ?thesis by (cases "connection r") (simp_all add: Abort s Let_def)
    qed
  qed
qed

lemma streamRun_calls:
  "\<exists>ns. emitted (fst (streamRun ops s)) = emitted (fst s) @ ns \<and>
        stream_options (fst (streamRun ops s)) = stream_options (fst s) \<and>
        onFinishCalls (snd (streamRun ops s)) =
          onFinishCalls (snd s) @
            (if options_onFinish (stream_options (fst s))
             then finishResults (options_messages (stream_options (fst s))) ns else [])"
proof (induction ops arbitrary: s)
  case Nil
  then show ?case by (simp add: streamRun_def)
next
  case (Cons op ops)
  obtain ms where ms:
    "emitted (fst (streamStep op s)) = emitted (fst s) @ ms"
    "onFinishCalls (snd (streamStep op s)) =
       onFinishCalls (snd s) @
         (if options_onFinish (stream_options (fst s))
          then finishResults (options_messages (stream_options (fst s))) ms else [])"
    using streamStep_calls [of op s] by blast
  obtain ns where ns:
    "emitted (fst (streamRun ops (streamStep op s))) = emitted (fst (streamStep op s)) @ ns"
    "stream_options (fst (streamRun ops (streamStep op s))) = stream_options (fst (streamStep op s))"
    "onFinishCalls (snd (streamRun ops (streamStep op s))) =
       onFinishCalls (snd (streamStep op s)) @
         (if options_onFinish (stream_options (fst (streamStep op s)))
          then finishResults (options_messages (stream_options (fst (streamStep op s)))) ns else [])"
    using Cons.IH [of "streamStep op s"] by blast
  have r: "streamRun (op # ops) s = streamRun ops (streamStep op s)"
    by (simp add: streamRun_def)
  show ?case
    unfolding r
    by (rule exI [of _ "ms @ ns"])
       (simp add: ms ns streamStep_frame(1) finishResults_append)
qed


lemma wellFormed_connectionNotify:
  assumes "wellFormed r"
  shows "wellFormed (connectionNotify x r)"
proof -
  have m: "wellFormed (multicast y r)" for y
    using assms
    by (auto simp add: wellFormed_def sublist_snoc intro: suffix_imp_sublist)
  have e: "wellFormed (r1\<lparr> connection := False, observers := [] \<rparr>)" if "wellFormed r1" for r1
    using that by (simp add: wellFormed_def)
  show ?thesis
  proof (cases x)
    case (OnNext v)
    then show ?thesis using m by simp
  next
    case (OnError err)
    then show ?thesis using e [OF m] by simp
  next
    case OnComplete
    then show ?thesis using e [OF m] by simp
  qed
qed

lemma wellFormed_fold:
  "wellFormed r \<Longrightarrow> wellFormed (fold connectionNotify xs r)"
  by (induction xs arbitrary: r) (simp_all add: wellFormed_connectionNotify)

lemma wellFormed_streamText: "wellFormed (fst (streamText options w))"
  by (simp add: streamText_def Let_def wellFormed_def)

lemma wellFormed_step:
  assumes "wellFormed (fst s)"
  shows "wellFormed (fst (streamStep op s))"
proof -
  obtain r w where s: "s = (r, w)" by (cases s)
  have r: "wellFormed r" using assms by (simp add: s)
  show ?thesis
  proof (cases op)
    case Subscribe
    let ?r1 = "r\<lparr> subscriptions := Suc (subscriptions r), observers := observers r @ [subscriptions r] \<rparr>"
    have a: "wellFormed (?r1\<lparr> connection := True \<rparr>)"
      using r by (auto simp add: wellFormed_def less_Suc_eq)
    show ?thesis
    proof (cases "connection r")
      case True
      then have "wellFormed ?r1"
        using r by (auto simp add: wellFormed_def less_Suc_eq)
      then show ?thesis using True by (simp add: Subscribe s Let_def)
    next
      case False
      then show ?thesis
        using wellFormed_fold [OF a, of "fst (upstream ?r1 w)"]
        by (simp add: Subscribe s Let_def split_beta)
    qed
  next
    case (Unsubscribe k)
    show ?thesis
      using r by (auto simp add: Unsubscribe s Let_def wellFormed_def)
  next
    case (SourceEmits x)
    then show ?thesis using r by (simp add: s wellFormed_connectionNotify)
  next
    case (Abort r0)
    have g: "wellFormed (r\<lparr> stream_signal := g \<rparr>)" for g
      using r by (simp add: wellFormed_def)
    show ?thesis
      using r g wellFormed_connectionNotify [OF g]
      by (simp add: Abort s Let_def del: connectionNotify.simps split: option.splits)
  qed
qed

lemma wellFormed_run:
  "wellFormed (fst s) \<Longrightarrow> wellFormed (fst (streamRun ops s))"
  by (induction ops arbitrary: s) (simp_all add: streamRun_def wellFormed_step)

text \<open>Under a signal that has fired nothing ever connects.\<close>

lemma refused_share:
  assumes "refused sg r"
  shows "share (r, w) =
           (r\<lparr> subscriptions := Suc (subscriptions r),
               emitted := emitted r @ [OnError (abortReason sg)],
               received := (received r)(subscriptions r := [OnError (abortReason sg)]) \<rparr>, w)"
  using assms
  by (auto simp add: refused_def Let_def upstream_def tap_def applyAbortSignal_def multicast_def
      fun_eq_iff)

lemma refused_step:
  assumes "refused sg (fst s)"
  shows "refused sg (fst (streamStep op s)) \<and> snd (streamStep op s) = snd s"
proof -
  obtain r w where s: "s = (r, w)" by (cases s)
  have r: "refused sg r" using assms by (simp add: s)
  show ?thesis
  proof (cases op)
    case Subscribe
    then show ?thesis using r refused_share [OF r, of w] by (simp add: s refused_def)
  next
    case (Unsubscribe k)
    then show ?thesis using r by (simp add: s refused_def)
  next
    case (SourceEmits x)
    then show ?thesis using r by (simp add: s refused_def)
  next
    case (Abort r0)
    then show ?thesis using r by (simp add: s refused_def)
  qed
qed

lemma refused_run:
  "refused sg (fst s) \<Longrightarrow>
     refused sg (fst (streamRun ops s)) \<and> snd (streamRun ops s) = snd s"
proof (induction ops arbitrary: s)
  case Nil
  then show ?case by (simp add: streamRun_def)
next
  case (Cons op ops)
  have "streamRun (op # ops) s = streamRun ops (streamStep op s)"
    by (simp add: streamRun_def)
  then show ?case using Cons.IH [of "streamStep op s"] refused_step [OF Cons.prems, of op] by simp
qed

lemma refused_streamText:
  "options_signal options = Some sg \<Longrightarrow> aborted sg \<Longrightarrow>
     refused sg (fst (streamText options w))"
  by (simp add: streamText_def Let_def refused_def)

lemma refused_subscribe:
  assumes "refused sg (fst s)"
  shows "fst (stream_obs s) = [OnError (abortReason sg)]"
    and "fst (delta_obs s) = [OnError (abortReason sg)]"
    and "fst (text_obs s) = [OnError (abortReason sg)]"
    and "snd (snd (stream_obs s)) = snd s"
    and "snd (snd (delta_obs s)) = snd s"
    and "snd (snd (text_obs s)) = snd s"
    and "sourceSubscriptions (snd (snd (stream_obs s))) = sourceSubscriptions (snd s)"
proof -
  obtain r w where s: "s = (r, w)" by (cases s)
  have r: "refused sg r" using assms by (simp add: s)
  note sh = refused_share [OF r, of w]
  show "fst (stream_obs s) = [OnError (abortReason sg)]"
    unfolding stream_obs_def s Let_def sh by simp
  show "fst (delta_obs s) = [OnError (abortReason sg)]"
    unfolding delta_obs_def s Let_def sh by simp
  show "fst (text_obs s) = [OnError (abortReason sg)]"
    unfolding text_obs_def s Let_def sh by simp
  show "snd (snd (stream_obs s)) = snd s"
    unfolding stream_obs_def s Let_def sh by simp
  show "snd (snd (delta_obs s)) = snd s"
    unfolding delta_obs_def s Let_def sh by simp
  show "snd (snd (text_obs s)) = snd s"
    unfolding text_obs_def s Let_def sh by simp
  then show "sourceSubscriptions (snd (snd (stream_obs s))) = sourceSubscriptions (snd s)"
    unfolding stream_obs_def s Let_def sh by simp
qed


lemma aborted_step:
  assumes "\<And>sg. stream_signal (fst s) = Some sg \<Longrightarrow> aborted sg \<Longrightarrow> \<not> connection (fst s)"
    and "stream_signal (fst (streamStep op s)) = Some sg" and "aborted sg"
  shows "\<not> connection (fst (streamStep op s))"
proof -
  obtain r w where s: "s = (r, w)" by (cases s)
  have q: "stream_signal r = Some g \<Longrightarrow> aborted g \<Longrightarrow> \<not> connection r" for g
    using assms(1) by (simp add: s)
  show ?thesis
  proof (cases op)
    case Subscribe
    then show ?thesis
      using q assms(2,3)
      by (auto simp add: s Let_def split_beta upstream_def tap_def applyAbortSignal_def)
  next
    case (Unsubscribe k)
    then show ?thesis using q assms(2,3) by (auto simp add: s Let_def split: if_splits)
  next
    case (SourceEmits x)
    then show ?thesis
      using q assms(2,3) by (cases x) (auto simp add: s split: if_splits)
  next
    case (Abort r0)
    then show ?thesis
      using q assms(2,3) by (auto simp add: s Let_def split: option.splits if_splits)
  qed
qed

lemma aborted_run:
  assumes "\<And>sg. stream_signal (fst s) = Some sg \<Longrightarrow> aborted sg \<Longrightarrow> \<not> connection (fst s)"
  shows "stream_signal (fst (streamRun ops s)) = Some sg \<Longrightarrow> aborted sg \<Longrightarrow>
           \<not> connection (fst (streamRun ops s))"
  using assms
proof (induction ops arbitrary: s sg)
  case Nil
  then show ?case by (simp add: streamRun_def)
next
  case (Cons op ops)
  have e: "streamRun (op # ops) s = streamRun ops (streamStep op s)"
    by (simp add: streamRun_def)
  have "\<And>g. stream_signal (fst (streamStep op s)) = Some g \<Longrightarrow> aborted g \<Longrightarrow>
          \<not> connection (fst (streamStep op s))"
    using aborted_step [of s op] Cons.prems(3) by blast
  then show ?case
    using Cons.IH [of "streamStep op s" sg] Cons.prems(1,2) unfolding e by blast
qed

text \<open>After any steps, a signal that has fired means that nothing is connected.\<close>

lemma refused_reachable:
  assumes "stream_signal (fst (streamRun ops (fst (streamText options w), w1))) = Some sg"
    and "aborted sg"
  shows "refused sg (fst (streamRun ops (fst (streamText options w), w1)))"
proof -
  let ?s0 = "(fst (streamText options w), w1)"
  have w0: "wellFormed (fst ?s0)" using wellFormed_streamText by simp
  have wf: "wellFormed (fst (streamRun ops ?s0))" by (rule wellFormed_run [OF w0])
  have "\<not> connection (fst ?s0)" by (simp add: streamText_def Let_def)
  then have "\<not> connection (fst (streamRun ops ?s0))"
    using aborted_run [of ?s0 ops sg] assms by blast
  then show ?thesis using wf assms by (simp add: refused_def wellFormed_def)
qed

text \<open>
  Claim C3, as the code has it. \<^verbatim>\<open>streamText\<close> and \<^verbatim>\<open>generateText\<close> call \<^verbatim>\<open>doStream\<close> and
  \<^verbatim>\<open>doGenerate\<close> once, with the request built from the options, whatever the signal says.
  When the signal has fired before the call, a subscriber arriving through any of the
  three sequences of \<^verbatim>\<open>streamText\<close> receives exactly one failure before \<^verbatim>\<open>subscribe\<close>
  returns, the abort reason of the signal, and the world is left as it is: the sequence
  the capability returned is not subscribed to. The same holds after any steps for a
  signal that has fired by the time the subscriber arrives, before the call or after
  it. The sequence of \<^verbatim>\<open>generateText\<close> fails in the same way.
\<close>

theorem preaborted_signal_fails_without_subscribing:
  "(options_signal options = Some sg \<and> aborted sg \<longrightarrow>
      doStreamCalls (snd (streamText options w)) = doStreamCalls w @ [buildRequest options] \<and>
      fst (stream_obs (fst (streamText options w), w')) = [OnError (abortReason sg)] \<and>
      snd (snd (stream_obs (fst (streamText options w), w'))) = w' \<and>
      fst (delta_obs (fst (streamText options w), w')) = [OnError (abortReason sg)] \<and>
      snd (snd (delta_obs (fst (streamText options w), w'))) = w' \<and>
      fst (text_obs (fst (streamText options w), w')) = [OnError (abortReason sg)] \<and>
      snd (snd (text_obs (fst (streamText options w), w'))) = w') \<and>
   (let s = streamRun ops (fst (streamText options w), w')
    in stream_signal (fst s) = Some sg \<and> aborted sg \<longrightarrow>
         fst (stream_obs s) = [OnError (abortReason sg)] \<and>
         snd (snd (stream_obs s)) = snd s \<and>
         fst (delta_obs s) = [OnError (abortReason sg)] \<and>
         snd (snd (delta_obs s)) = snd s \<and>
         fst (text_obs s) = [OnError (abortReason sg)] \<and>
         snd (snd (text_obs s)) = snd s) \<and>
   (generate_signal goptions = Some sg \<and> aborted sg \<longrightarrow>
      doGenerateCalls (snd (generateText goptions w)) =
        doGenerateCalls w @ [buildGenerateRequest goptions] \<and>
      fst (generateText goptions w) w' = ([OnError (abortReason sg)], w'))"
proof (intro conjI impI)
  assume a: "options_signal options = Some sg \<and> aborted sg"
  show "doStreamCalls (snd (streamText options w)) = doStreamCalls w @ [buildRequest options]"
    by (simp add: streamText_def Let_def)
  have r: "refused sg (fst (fst (streamText options w), w'))"
    using a refused_streamText [of options sg w] by simp
  show "fst (stream_obs (fst (streamText options w), w')) = [OnError (abortReason sg)]"
    using refused_subscribe(1) [OF r] .
  show "fst (delta_obs (fst (streamText options w), w')) = [OnError (abortReason sg)]"
    using refused_subscribe(2) [OF r] .
  show "fst (text_obs (fst (streamText options w), w')) = [OnError (abortReason sg)]"
    using refused_subscribe(3) [OF r] .
  show "snd (snd (stream_obs (fst (streamText options w), w'))) = w'"
    using refused_subscribe(4) [OF r] by simp
  show "snd (snd (delta_obs (fst (streamText options w), w'))) = w'"
    using refused_subscribe(5) [OF r] by simp
  show "snd (snd (text_obs (fst (streamText options w), w'))) = w'"
    using refused_subscribe(6) [OF r] by simp
next
  show "let s = streamRun ops (fst (streamText options w), w')
    in stream_signal (fst s) = Some sg \<and> aborted sg \<longrightarrow>
         fst (stream_obs s) = [OnError (abortReason sg)] \<and>
         snd (snd (stream_obs s)) = snd s \<and>
         fst (delta_obs s) = [OnError (abortReason sg)] \<and>
         snd (snd (delta_obs s)) = snd s \<and>
         fst (text_obs s) = [OnError (abortReason sg)] \<and>
         snd (snd (text_obs s)) = snd s"
    unfolding Let_def
  proof (intro impI)
    let ?s = "streamRun ops (fst (streamText options w), w')"
    assume "stream_signal (fst ?s) = Some sg \<and> aborted sg"
    then have r: "refused sg (fst ?s)" using refused_reachable by blast
    show "fst (stream_obs ?s) = [OnError (abortReason sg)] \<and>
         snd (snd (stream_obs ?s)) = snd ?s \<and>
         fst (delta_obs ?s) = [OnError (abortReason sg)] \<and>
         snd (snd (delta_obs ?s)) = snd ?s \<and>
         fst (text_obs ?s) = [OnError (abortReason sg)] \<and>
         snd (snd (text_obs ?s)) = snd ?s"
      using refused_subscribe(1-6) [OF r] by blast
  qed
next
  assume a: "generate_signal goptions = Some sg \<and> aborted sg"
  show "doGenerateCalls (snd (generateText goptions w)) =
        doGenerateCalls w @ [buildGenerateRequest goptions]"
    by (simp add: generateText_def Let_def)
  show "fst (generateText goptions w) w' = ([OnError (abortReason sg)], w')"
    using a by (simp add: generateText_def Let_def applyAbortSignal_def)
qed

text \<open>
  With a signal that has fired before the call; and with a signal that fires after a
  first subscriber has arrived, where the second subscriber fails at once and the
  sequence of the language model has been subscribed to once, by the first.
\<close>

theorem preaborted_signal_witness:
  "doStreamCalls (snd (streamText (exampleStreamOptions [OnNext (TextDelta ''should not arrive'')] (Some abortedSignal)) emptyWorld))
     = [buildRequest (exampleStreamOptions [OnNext (TextDelta ''should not arrive'')] (Some abortedSignal))] \<and>
   fst (stream_obs (fst (streamText (exampleStreamOptions [OnNext (TextDelta ''should not arrive'')] (Some abortedSignal)) emptyWorld), emptyWorld))
     = [OnError AbortError] \<and>
   snd (snd (stream_obs (fst (streamText (exampleStreamOptions [OnNext (TextDelta ''should not arrive'')] (Some abortedSignal)) emptyWorld), emptyWorld)))
     = emptyWorld \<and>
   fst (delta_obs (fst (streamText (exampleStreamOptions [OnNext (TextDelta ''should not arrive'')] (Some abortedSignal)) emptyWorld), emptyWorld))
     = [OnError AbortError] \<and>
   snd (snd (delta_obs (fst (streamText (exampleStreamOptions [OnNext (TextDelta ''should not arrive'')] (Some abortedSignal)) emptyWorld), emptyWorld)))
     = emptyWorld \<and>
   fst (text_obs (fst (streamText (exampleStreamOptions [OnNext (TextDelta ''should not arrive'')] (Some abortedSignal)) emptyWorld), emptyWorld))
     = [OnError AbortError] \<and>
   snd (snd (text_obs (fst (streamText (exampleStreamOptions [OnNext (TextDelta ''should not arrive'')] (Some abortedSignal)) emptyWorld), emptyWorld)))
     = emptyWorld \<and>
   stream_signal (fst (streamRun [Subscribe, Abort None]
       (fst (streamText (exampleStreamOptions [] (Some liveSignal)) emptyWorld), emptyWorld)))
     = Some abortedSignal \<and>
   sourceSubscriptions (snd (streamRun [Subscribe, Abort None]
       (fst (streamText (exampleStreamOptions [] (Some liveSignal)) emptyWorld), emptyWorld))) = 1 \<and>
   fst (stream_obs (streamRun [Subscribe, Abort None]
       (fst (streamText (exampleStreamOptions [] (Some liveSignal)) emptyWorld), emptyWorld)))
     = [OnError AbortError] \<and>
   sourceSubscriptions (snd (snd (stream_obs (streamRun [Subscribe, Abort None]
       (fst (streamText (exampleStreamOptions [] (Some liveSignal)) emptyWorld), emptyWorld))))) = 1 \<and>
   doGenerateCalls (snd (generateText (exampleGenerateOptions (Some abortedSignal)) emptyWorld))
     = [buildGenerateRequest (exampleGenerateOptions (Some abortedSignal))] \<and>
   fst (generateText (exampleGenerateOptions (Some abortedSignal)) emptyWorld) emptyWorld
     = ([OnError AbortError], emptyWorld)"
proof -
  let ?A = "exampleStreamOptions [OnNext (TextDelta ''should not arrive'')] (Some abortedSignal)"
  let ?B = "exampleStreamOptions [] (Some liveSignal)"
  let ?G = "exampleGenerateOptions (Some abortedSignal)"
  let ?s = "streamRun [Subscribe, Abort None] (fst (streamText ?B emptyWorld), emptyWorld)"
  have h: "options_signal ?A = Some abortedSignal" "aborted abortedSignal"
    "generate_signal ?G = Some abortedSignal" "abortReason abortedSignal = AbortError"
    "doStreamCalls emptyWorld = []" "doGenerateCalls emptyWorld = []"
    by (simp_all add: exampleStreamOptions_def exampleGenerateOptions_def abortedSignal_def
        abortReason_def emptyWorld_def)
  have e: "stream_signal (fst ?s) = Some abortedSignal" "sourceSubscriptions (snd ?s) = 1"
    by (simp_all add: streamRun_def streamText_def exampleStreamOptions_def
        exampleLanguageModel_def liveSignal_def abortedSignal_def emptyWorld_def Let_def
        upstream_def tap_def applyAbortSignal_def sourceOf_def multicast_def)
  from preaborted_signal_fails_without_subscribing
         [where options = ?A and sg = abortedSignal and w = emptyWorld and w' = emptyWorld
            and ops = "[]" and goptions = ?G]
       preaborted_signal_fails_without_subscribing
         [where options = ?B and sg = abortedSignal and w = emptyWorld and w' = emptyWorld
            and ops = "[Subscribe, Abort None]" and goptions = ?G]
       h e
  show ?thesis by (simp add: Let_def prod_eq_iff)
qed

text \<open>
  The claim as it is written says that \<^verbatim>\<open>doStream\<close> and \<^verbatim>\<open>doGenerate\<close> are never invoked.
  With a signal that has fired before the call, each has been called once when
  \<^verbatim>\<open>streamText\<close> and \<^verbatim>\<open>generateText\<close> return.
\<close>

theorem preaborted_signal_counterexample:
  "options_signal (exampleStreamOptions [] (Some abortedSignal)) = Some abortedSignal \<and>
   aborted abortedSignal \<and>
   length (doStreamCalls (snd (streamText (exampleStreamOptions [] (Some abortedSignal)) emptyWorld))) = 1 \<and>
   generate_signal (exampleGenerateOptions (Some abortedSignal)) = Some abortedSignal \<and>
   length (doGenerateCalls (snd (generateText (exampleGenerateOptions (Some abortedSignal)) emptyWorld))) = 1"
  by (simp add: streamText_def generateText_def exampleStreamOptions_def
      exampleGenerateOptions_def abortedSignal_def emptyWorld_def Let_def)

text \<open>
  Claim C7, as the code has it. \<^verbatim>\<open>tap\<close> stands in front of \<^verbatim>\<open>share\<close>, so \<^verbatim>\<open>onFinish\<close>, when it
  is given, is called once for each finish event that \<^verbatim>\<open>stream$\<close> emits, however many
  subscribers there are. After any steps the calls are the results of the finish events
  among what \<^verbatim>\<open>stream$\<close> has emitted, in their order, each with the text, usage and finish
  reason of its event and the messages of the call; there are as many calls as such
  events, so none when there is none and exactly one when there is exactly one; and what
  a subscription has received is a stretch of what \<^verbatim>\<open>stream$\<close> has emitted. When the
  sequence of the language model delivers a finish event while the connection is open,
  there is a subscription attached, each subscription attached receives the event once
  and no other subscription receives anything, \<^verbatim>\<open>onFinish\<close> is called once in the same
  step, and the sequence of the language model is not subscribed to again. Without
  \<^verbatim>\<open>onFinish\<close> nothing is called.
\<close>

theorem onFinish_once_per_finish_event:
  "(let s = streamRun ops (streamText options w)
    in onFinishCalls (snd s) =
         onFinishCalls w @
           (if options_onFinish options
            then finishResults (options_messages options) (emitted (fst s)) else []) \<and>
       length (finishResults (options_messages options) (emitted (fst s))) =
         length (filter isFinish (emitted (fst s))) \<and>
       (\<forall>k. sublist (received (fst s) k) (emitted (fst s))) \<and>
       (connection (fst s) \<longrightarrow>
          observers (fst s) \<noteq> [] \<and>
          emitted (fst (sourceEmits (OnNext (Finish t u fr)) s)) =
            emitted (fst s) @ [OnNext (Finish t u fr)] \<and>
          (\<forall>k. received (fst (sourceEmits (OnNext (Finish t u fr)) s)) k =
                 (if k \<in> set (observers (fst s))
                  then received (fst s) k @ [OnNext (Finish t u fr)]
                  else received (fst s) k)) \<and>
          onFinishCalls (snd (sourceEmits (OnNext (Finish t u fr)) s)) =
            onFinishCalls (snd s) @
              (if options_onFinish options
               then [\<lparr> result_text = t, result_usage = u, result_finishReason = fr,
                       result_messages = options_messages options \<rparr>]
               else []) \<and>
          sourceSubscriptions (snd (sourceEmits (OnNext (Finish t u fr)) s)) =
            sourceSubscriptions (snd s)))"
proof -
  let ?s = "streamRun ops (streamText options w)"
  obtain r v where s: "?s = (r, v)" by (cases ?s)
  have i: "emitted (fst (streamText options w)) = []"
    "stream_options (fst (streamText options w)) = options"
    "onFinishCalls (snd (streamText options w)) = onFinishCalls w"
    by (simp_all add: streamText_def Let_def)
  obtain ns where ns: "emitted (fst ?s) = emitted (fst (streamText options w)) @ ns"
    "stream_options (fst ?s) = stream_options (fst (streamText options w))"
    "onFinishCalls (snd ?s) =
       onFinishCalls (snd (streamText options w)) @
         (if options_onFinish (stream_options (fst (streamText options w)))
          then finishResults (options_messages (stream_options (fst (streamText options w)))) ns
          else [])"
    using streamRun_calls [of ops "streamText options w"] by blast
  have c: "onFinishCalls (snd ?s) =
         onFinishCalls w @
           (if options_onFinish options
            then finishResults (options_messages options) (emitted (fst ?s)) else [])"
    using ns by (simp add: i)
  have o: "stream_options r = options" using ns(2) by (simp add: i s)
  have wf: "wellFormed (fst ?s)"
    by (rule wellFormed_run [OF wellFormed_streamText])
  have b: "\<forall>k. sublist (received (fst ?s) k) (emitted (fst ?s))"
    using wf by (simp add: wellFormed_def)
  have d: "connection (fst ?s) \<longrightarrow> observers (fst ?s) \<noteq> []"
    using wf by (simp add: wellFormed_def)
  have e: "connection (fst ?s) \<longrightarrow>
      emitted (fst (sourceEmits (OnNext (Finish t u fr)) ?s)) =
        emitted (fst ?s) @ [OnNext (Finish t u fr)] \<and>
      (\<forall>k. received (fst (sourceEmits (OnNext (Finish t u fr)) ?s)) k =
             (if k \<in> set (observers (fst ?s))
              then received (fst ?s) k @ [OnNext (Finish t u fr)]
              else received (fst ?s) k)) \<and>
      onFinishCalls (snd (sourceEmits (OnNext (Finish t u fr)) ?s)) =
        onFinishCalls (snd ?s) @
          (if options_onFinish options
           then [\<lparr> result_text = t, result_usage = u, result_finishReason = fr,
                   result_messages = options_messages options \<rparr>]
           else []) \<and>
      sourceSubscriptions (snd (sourceEmits (OnNext (Finish t u fr)) ?s)) =
        sourceSubscriptions (snd ?s)"
    unfolding s by (simp add: o)
  show ?thesis
    unfolding Let_def using c b d e length_finishResults by blast
qed

text \<open>
  Two subscribers at the same time, and a finish event delivered after both have
  arrived: each receives it, the sequence of the language model has been subscribed to
  once, and \<^verbatim>\<open>onFinish\<close> has been called once.
\<close>

theorem onFinish_once_witness:
  "connection (fst (streamRun [Subscribe, Subscribe]
       (streamText (exampleStreamOptions [] None) emptyWorld))) \<and>
   observers (fst (streamRun [Subscribe, Subscribe]
       (streamText (exampleStreamOptions [] None) emptyWorld))) = [0, 1] \<and>
   sourceSubscriptions (snd (streamRun [Subscribe, Subscribe, SourceEmits (OnNext abFinish)]
       (streamText (exampleStreamOptions [] None) emptyWorld))) = 1 \<and>
   received (fst (streamRun [Subscribe, Subscribe, SourceEmits (OnNext abFinish)]
       (streamText (exampleStreamOptions [] None) emptyWorld))) 0 = [OnNext abFinish] \<and>
   received (fst (streamRun [Subscribe, Subscribe, SourceEmits (OnNext abFinish)]
       (streamText (exampleStreamOptions [] None) emptyWorld))) 1 = [OnNext abFinish] \<and>
   onFinishCalls (snd (streamRun [Subscribe, Subscribe, SourceEmits (OnNext abFinish)]
       (streamText (exampleStreamOptions [] None) emptyWorld))) =
     [\<lparr> result_text = ''AB'', result_usage = exampleUsage, result_finishReason = Stop,
        result_messages = exampleMessages \<rparr>]"
proof -
  let ?O = "exampleStreamOptions [] None"
  let ?s = "streamRun [Subscribe, Subscribe] (streamText ?O emptyWorld)"
  have e: "connection (fst ?s)" "observers (fst ?s) = [0, 1]" "received (fst ?s) k = []"
    "emitted (fst ?s) = []" "sourceSubscriptions (snd ?s) = 1" for k
    by (simp_all add: streamRun_def streamText_def exampleStreamOptions_def
        exampleLanguageModel_def emptyWorld_def Let_def
        upstream_def tap_def applyAbortSignal_def sourceOf_def)
  have h: "options_onFinish ?O" "options_messages ?O = exampleMessages"
    "onFinishCalls emptyWorld = []"
    by (simp_all add: exampleStreamOptions_def emptyWorld_def)
  have r: "streamRun [Subscribe, Subscribe, SourceEmits (OnNext abFinish)] (streamText ?O emptyWorld)
         = sourceEmits (OnNext (Finish ''AB'' exampleUsage Stop)) ?s"
    by (simp add: streamRun_def abFinish_def)
  from onFinish_once_per_finish_event
         [where ops = "[Subscribe, Subscribe]" and options = ?O and w = emptyWorld
            and t = "''AB''" and u = exampleUsage and fr = Stop]
  show ?thesis
    unfolding r Let_def using e h by (simp add: abFinish_def)
qed

text \<open>
  The claim as it is written says exactly once whenever a finish event is observed. The
  language model of the repository's own test of \<^verbatim>\<open>onFinish\<close> delivers one finish event
  and completes while it is being subscribed to. A second subscriber that arrives
  afterwards makes \<^verbatim>\<open>share\<close> subscribe to the sequence again, the event is emitted again,
  and \<^verbatim>\<open>onFinish\<close> has been called twice for one call of \<^verbatim>\<open>streamText\<close>. A sequence that
  delivers two finish events has \<^verbatim>\<open>onFinish\<close> called twice for one subscriber.
\<close>

theorem onFinish_twice_counterexample:
  "options_onFinish (exampleStreamOptions helloFinish None) \<and>
   length (doStreamCalls (snd (streamRun [Subscribe, Subscribe]
       (streamText (exampleStreamOptions helloFinish None) emptyWorld)))) = 1 \<and>
   received (fst (streamRun [Subscribe, Subscribe]
       (streamText (exampleStreamOptions helloFinish None) emptyWorld))) 0 = helloFinish \<and>
   received (fst (streamRun [Subscribe, Subscribe]
       (streamText (exampleStreamOptions helloFinish None) emptyWorld))) 1 = helloFinish \<and>
   length (filter isFinish helloFinish) = 1 \<and>
   sourceSubscriptions (snd (streamRun [Subscribe, Subscribe]
       (streamText (exampleStreamOptions helloFinish None) emptyWorld))) = 2 \<and>
   length (onFinishCalls (snd (streamRun [Subscribe, Subscribe]
       (streamText (exampleStreamOptions helloFinish None) emptyWorld)))) = 2 \<and>
   fst (stream_obs (streamText (exampleStreamOptions
       [OnNext (Finish ''a'' exampleUsage Stop), OnNext (Finish ''b'' exampleUsage Stop), OnComplete]
       None) emptyWorld))
     = [OnNext (Finish ''a'' exampleUsage Stop), OnNext (Finish ''b'' exampleUsage Stop), OnComplete] \<and>
   length (onFinishCalls (snd (snd (stream_obs (streamText (exampleStreamOptions
       [OnNext (Finish ''a'' exampleUsage Stop), OnNext (Finish ''b'' exampleUsage Stop), OnComplete]
       None) emptyWorld))))) = 2"
  by (simp add: streamRun_def streamText_def exampleStreamOptions_def
      exampleLanguageModel_def emptyWorld_def helloFinish_def Let_def stream_obs_def
      upstream_def tap_def applyAbortSignal_def sourceOf_def)

section \<open>The chat controller: proofs\<close>

text \<open>
  Claim C8. \<^verbatim>\<open>send\<close> with content that trims to the empty string, and \<^verbatim>\<open>retryLast\<close> when
  no request has been started, return the controller unchanged in every field, so
  messages, status and error are unchanged and nothing is emitted; the model functions
  are total, as these paths of the code throw nothing. \<^verbatim>\<open>retryLast\<close> on a new controller
  without initial messages leaves \<^verbatim>\<open>getState()\<close> with no messages and status idle.
\<close>

theorem validation_noops:
  "(trim c = [] \<longrightarrow> send options c mt s = s) \<and>
   (lastRequestMessages s = None \<longrightarrow> retryLast options s = s) \<and>
   retryLast options (createChatController options) = createChatController options \<and>
   (initialMessages options = None \<longrightarrow>
      getState (retryLast options (createChatController options)) =
        \<lparr> messages = [], status = Idle, error = None \<rparr>)"
  by (simp add: send_def retryLast_def createChatController_def getState_def Let_def)

theorem validation_noops_witness:
  "send (exampleOptions (exampleAdapter [OnNext (ChunkString ''response'')])) ''   '' None
     (createChatController (exampleOptions (exampleAdapter [OnNext (ChunkString ''response'')])))
     = createChatController (exampleOptions (exampleAdapter [OnNext (ChunkString ''response'')])) \<and>
   retryLast (exampleOptions (exampleAdapter [OnNext (ChunkString ''response'')]))
     (createChatController (exampleOptions (exampleAdapter [OnNext (ChunkString ''response'')])))
     = createChatController (exampleOptions (exampleAdapter [OnNext (ChunkString ''response'')])) \<and>
   getState (retryLast (exampleOptions (exampleAdapter [OnNext (ChunkString ''response'')]))
     (createChatController (exampleOptions (exampleAdapter [OnNext (ChunkString ''response'')]))))
     = \<lparr> messages = [], status = Idle, error = None \<rparr>"
proof -
  have blank: "trim ''   '' = []"
    by (simp add: trim_def isWhiteSpace_def)
  have fresh: "lastRequestMessages
      (createChatController (exampleOptions (exampleAdapter [OnNext (ChunkString ''response'')]))) = None"
    by (simp add: createChatController_def Let_def)
  have none: "initialMessages (exampleOptions (exampleAdapter [OnNext (ChunkString ''response'')])) = None"
    by (simp add: exampleOptions_def)
  show ?thesis
    using validation_noops [of "''   ''"
        "exampleOptions (exampleAdapter [OnNext (ChunkString ''response'')])" None
        "createChatController (exampleOptions (exampleAdapter [OnNext (ChunkString ''response'')]))"]
      blank fresh none
    by blast
qed

subsection \<open>Effects of the state updates\<close>

lemma emitState_fields [simp]:
  "messagesSubject (emitState s) = messagesSubject s"
  "statusSubject (emitState s) = statusSubject s"
  "errorSubject (emitState s) = errorSubject s"
  "activeAbortController (emitState s) = activeAbortController s"
  "activeSubscription (emitState s) = activeSubscription s"
  "lastRequestMessages (emitState s) = lastRequestMessages s"
  "signalAborted (emitState s) = signalAborted s"
  "subscriberClosed (emitState s) = subscriberClosed s"
  "assistantMessageId (emitState s) = assistantMessageId s"
  "requests (emitState s) = requests s"
  "created (emitState s) = created s"
  "stateSubject (emitState s) = stateSubject s @
     [\<lparr> messages = messagesSubject s, status = statusSubject s, error = errorSubject s \<rparr>]"
  by (simp_all add: emitState_def)

lemma setMessages_fields [simp]:
  "messagesSubject (setMessages ms s) = ms"
  "statusSubject (setMessages ms s) = statusSubject s"
  "errorSubject (setMessages ms s) = errorSubject s"
  "activeAbortController (setMessages ms s) = activeAbortController s"
  "activeSubscription (setMessages ms s) = activeSubscription s"
  "lastRequestMessages (setMessages ms s) = lastRequestMessages s"
  "signalAborted (setMessages ms s) = signalAborted s"
  "subscriberClosed (setMessages ms s) = subscriberClosed s"
  "assistantMessageId (setMessages ms s) = assistantMessageId s"
  "requests (setMessages ms s) = requests s"
  "created (setMessages ms s) = created s"
  "stateSubject (setMessages ms s) = stateSubject s @
     [\<lparr> messages = ms, status = statusSubject s, error = errorSubject s \<rparr>]"
  by (simp_all add: setMessages_def)

lemma setStatus_fields [simp]:
  "messagesSubject (setStatus st s) = messagesSubject s"
  "statusSubject (setStatus st s) = st"
  "errorSubject (setStatus st s) = errorSubject s"
  "activeAbortController (setStatus st s) = activeAbortController s"
  "activeSubscription (setStatus st s) = activeSubscription s"
  "lastRequestMessages (setStatus st s) = lastRequestMessages s"
  "signalAborted (setStatus st s) = signalAborted s"
  "subscriberClosed (setStatus st s) = subscriberClosed s"
  "assistantMessageId (setStatus st s) = assistantMessageId s"
  "requests (setStatus st s) = requests s"
  "created (setStatus st s) = created s"
  "stateSubject (setStatus st s) = stateSubject s @
     [\<lparr> messages = messagesSubject s, status = st, error = errorSubject s \<rparr>]"
  by (simp_all add: setStatus_def)

lemma setError_fields [simp]:
  "messagesSubject (setError e s) = messagesSubject s"
  "statusSubject (setError e s) = statusSubject s"
  "errorSubject (setError e s) = e"
  "activeAbortController (setError e s) = activeAbortController s"
  "activeSubscription (setError e s) = activeSubscription s"
  "lastRequestMessages (setError e s) = lastRequestMessages s"
  "signalAborted (setError e s) = signalAborted s"
  "subscriberClosed (setError e s) = subscriberClosed s"
  "assistantMessageId (setError e s) = assistantMessageId s"
  "requests (setError e s) = requests s"
  "created (setError e s) = created s"
  "stateSubject (setError e s) = stateSubject s @
     [\<lparr> messages = messagesSubject s, status = statusSubject s, error = e \<rparr>]"
  by (simp_all add: setError_def)

lemma unsubscribe_fields [simp]:
  "messagesSubject (unsubscribe n s) = messagesSubject s"
  "statusSubject (unsubscribe n s) = statusSubject s"
  "errorSubject (unsubscribe n s) = errorSubject s"
  "activeAbortController (unsubscribe n s) = activeAbortController s"
  "activeSubscription (unsubscribe n s) = activeSubscription s"
  "lastRequestMessages (unsubscribe n s) = lastRequestMessages s"
  "signalAborted (unsubscribe n s) = signalAborted s"
  "subscriberClosed (unsubscribe n s) = (subscriberClosed s)(n := True)"
  "assistantMessageId (unsubscribe n s) = assistantMessageId s"
  "requests (unsubscribe n s) = requests s"
  "created (unsubscribe n s) = created s"
  "stateSubject (unsubscribe n s) = stateSubject s"
  by (simp_all add: unsubscribe_def)

lemma appendDelta_fields [simp]:
  "messagesSubject (appendDelta aid d s) = map (appendText aid d) (messagesSubject s)"
  "errorSubject (appendDelta aid d s) = errorSubject s"
  "activeAbortController (appendDelta aid d s) = activeAbortController s"
  "activeSubscription (appendDelta aid d s) = activeSubscription s"
  "lastRequestMessages (appendDelta aid d s) = lastRequestMessages s"
  "signalAborted (appendDelta aid d s) = signalAborted s"
  "subscriberClosed (appendDelta aid d s) = subscriberClosed s"
  "assistantMessageId (appendDelta aid d s) = assistantMessageId s"
  "requests (appendDelta aid d s) = requests s"
  "created (appendDelta aid d s) = created s"
  by (simp_all add: appendDelta_def Let_def appendText_def map_idI)

lemma appendDelta_status:
  "statusSubject (appendDelta aid d s) = (if d = [] then statusSubject s else Streaming)"
  by (simp add: appendDelta_def Let_def)

lemma appendDelta_log: "prefix (stateSubject s) (stateSubject (appendDelta aid d s))"
  by (simp add: appendDelta_def Let_def)

subsection \<open>Releasing the active request\<close>

lemma releaseWith_id_fields [simp]:
  "messagesSubject (releaseWith (\<lambda>c s. s) s) = messagesSubject s"
  "statusSubject (releaseWith (\<lambda>c s. s) s) = statusSubject s"
  "errorSubject (releaseWith (\<lambda>c s. s) s) = errorSubject s"
  "activeAbortController (releaseWith (\<lambda>c s. s) s) = None"
  "activeSubscription (releaseWith (\<lambda>c s. s) s) = None"
  "lastRequestMessages (releaseWith (\<lambda>c s. s) s) = lastRequestMessages s"
  "assistantMessageId (releaseWith (\<lambda>c s. s) s) = assistantMessageId s"
  "requests (releaseWith (\<lambda>c s. s) s) = requests s"
  "created (releaseWith (\<lambda>c s. s) s) = created s"
  "stateSubject (releaseWith (\<lambda>c s. s) s) = stateSubject s"
  "subscriberClosed (releaseWith (\<lambda>c s. s) s) k =
     (subscriberClosed s k \<or> activeSubscription s = Some k)"
  by (auto simp add: releaseWith_def abort_def Let_def split: option.splits)

text \<open>
  Releasing while the active controller is already aborted runs no listener, whatever
  the listeners are: this is the release the error callback performs from inside
  \<^verbatim>\<open>abort()\<close>.
\<close>

lemma releaseWith_aborted:
  assumes "activeAbortController s = Some c" and "signalAborted s c"
  shows "releaseWith listeners s = releaseWith (\<lambda>c s. s) s"
  using assms by (simp add: releaseWith_def abort_def)

lemma release_fields [simp]:
  "messagesSubject (releaseActiveRequest options s) = messagesSubject s"
  "activeAbortController (releaseActiveRequest options s) = None"
  "activeSubscription (releaseActiveRequest options s) = None"
  "lastRequestMessages (releaseActiveRequest options s) = lastRequestMessages s"
  "assistantMessageId (releaseActiveRequest options s) = assistantMessageId s"
  "requests (releaseActiveRequest options s) = requests s"
  "created (releaseActiveRequest options s) = created s"
  by (auto simp add: releaseActiveRequest_def releaseWith_def abort_def abortListeners_def
      notifyEvent_def onError_def Let_def split: option.splits model.splits)

lemma release_closed_mono:
  "subscriberClosed s k \<Longrightarrow> subscriberClosed (releaseActiveRequest options s) k"
  by (auto simp add: releaseActiveRequest_def releaseWith_def abort_def abortListeners_def
      notifyEvent_def onError_def Let_def split: option.splits model.splits)

lemma release_closes_active:
  "activeSubscription s = Some k \<Longrightarrow> subscriberClosed (releaseActiveRequest options s) k"
  by (auto simp add: releaseActiveRequest_def releaseWith_def abort_def abortListeners_def
      notifyEvent_def onError_def Let_def split: option.splits model.splits)

lemma release_log: "prefix (stateSubject s) (stateSubject (releaseActiveRequest options s))"
  by (auto simp add: releaseActiveRequest_def releaseWith_def abort_def abortListeners_def
      notifyEvent_def onError_def Let_def split: option.splits model.splits)

lemma release_idle:
  "activeAbortController s = None \<Longrightarrow> activeSubscription s = None \<Longrightarrow>
   releaseActiveRequest options s = s"
  by (simp add: releaseActiveRequest_def releaseWith_def)

lemma release_adapter:
  "model options = Adapter a \<Longrightarrow>
   statusSubject (releaseActiveRequest options s) = statusSubject s \<and>
   errorSubject (releaseActiveRequest options s) = errorSubject s \<and>
   stateSubject (releaseActiveRequest options s) = stateSubject s \<and>
   (subscriberClosed (releaseActiveRequest options s) k \<longleftrightarrow>
      subscriberClosed s k \<or> activeSubscription s = Some k)"
  by (auto simp add: releaseActiveRequest_def releaseWith_def abort_def abortListeners_def
      Let_def split: option.splits)

lemma release_closed [simp]:
  "subscriberClosed (releaseActiveRequest options s) k \<longleftrightarrow>
     subscriberClosed s k \<or> activeSubscription s = Some k \<or>
     (isLanguageModel (model options) \<and> activeAbortController s = Some k \<and> \<not> signalAborted s k)"
  by (auto simp add: releaseActiveRequest_def releaseWith_def abort_def abortListeners_def
      notifyEvent_def onError_def Let_def split: option.splits model.splits)

lemma release_quiet:
  assumes "\<And>c. activeAbortController s = Some c \<Longrightarrow> subscriberClosed s c \<or> signalAborted s c"
  shows "statusSubject (releaseActiveRequest options s) = statusSubject s"
    and "errorSubject (releaseActiveRequest options s) = errorSubject s"
    and "stateSubject (releaseActiveRequest options s) = stateSubject s"
  using assms
  by (auto simp add: releaseActiveRequest_def releaseWith_def abort_def abortListeners_def
      notifyEvent_def onError_def Let_def split: option.splits model.splits)

lemma release_adapter_quiet [simp]:
  assumes "model options = Adapter a"
  shows "statusSubject (releaseActiveRequest options s) = statusSubject s"
    and "errorSubject (releaseActiveRequest options s) = errorSubject s"
    and "stateSubject (releaseActiveRequest options s) = stateSubject s"
  using assms
  by (auto simp add: releaseActiveRequest_def releaseWith_def abort_def abortListeners_def
      Let_def split: option.splits)

subsection \<open>Notifications: what they leave alone, and the messages\<close>

lemma notifyChunk_frame [simp]:
  "lastRequestMessages (notifyChunk (releaseActiveRequest options) n x s) = lastRequestMessages s"
  "assistantMessageId (notifyChunk (releaseActiveRequest options) n x s) = assistantMessageId s"
  "requests (notifyChunk (releaseActiveRequest options) n x s) = requests s"
  "created (notifyChunk (releaseActiveRequest options) n x s) = created s"
  by (simp_all add: notifyChunk_def onNextChunk_def onError_def onComplete_def finishRequest_def
      Let_def split: notification.splits)

lemma notifyEvent_frame [simp]:
  "lastRequestMessages (notifyEvent (releaseActiveRequest options) n x s) = lastRequestMessages s"
  "assistantMessageId (notifyEvent (releaseActiveRequest options) n x s) = assistantMessageId s"
  "requests (notifyEvent (releaseActiveRequest options) n x s) = requests s"
  "created (notifyEvent (releaseActiveRequest options) n x s) = created s"
  by (simp_all add: notifyEvent_def onNextDelta_def onError_def onComplete_def finishRequest_def
      Let_def split: notification.splits option.splits)

lemma appendText_empty [simp]: "appendText aid [] m = m"
  by (simp add: appendText_def)

lemma appendText_appendText [simp]:
  "appendText aid d2 (appendText aid d1 m) = appendText aid (d1 @ d2) m"
  by (simp add: appendText_def)

lemma map_appendText_empty [simp]: "map (appendText aid []) ms = ms"
  by (simp add: map_idI)

lemma notifyChunk_messages:
  "\<exists>d. messagesSubject (notifyChunk (releaseActiveRequest options) n x s) =
         map (appendText (assistantMessageId s n) d) (messagesSubject s)"
proof (cases "subscriberClosed s n")
  case True
  then have "messagesSubject (notifyChunk (releaseActiveRequest options) n x s) =
      map (appendText (assistantMessageId s n) []) (messagesSubject s)"
    by (simp add: notifyChunk_def)
  then show ?thesis by blast
next
  case False
  show ?thesis
  proof (cases x)
    case (OnNext chunk)
    then have "messagesSubject (notifyChunk (releaseActiveRequest options) n x s) =
        map (appendText (assistantMessageId s n) (chunkToText chunk)) (messagesSubject s)"
      using False by (simp add: notifyChunk_def onNextChunk_def finishRequest_def Let_def)
    then show ?thesis by blast
  next
    case (OnError e)
    then have "messagesSubject (notifyChunk (releaseActiveRequest options) n x s) =
        map (appendText (assistantMessageId s n) []) (messagesSubject s)"
      using False by (simp add: notifyChunk_def onError_def)
    then show ?thesis by blast
  next
    case OnComplete
    then have "messagesSubject (notifyChunk (releaseActiveRequest options) n x s) =
        map (appendText (assistantMessageId s n) []) (messagesSubject s)"
      using False by (simp add: notifyChunk_def onComplete_def finishRequest_def)
    then show ?thesis by blast
  qed
qed

lemma notifyEvent_messages:
  "\<exists>d. messagesSubject (notifyEvent (releaseActiveRequest options) n x s) =
         map (appendText (assistantMessageId s n) d) (messagesSubject s)"
proof (cases "subscriberClosed s n")
  case True
  then have "messagesSubject (notifyEvent (releaseActiveRequest options) n x s) =
      map (appendText (assistantMessageId s n) []) (messagesSubject s)"
    by (simp add: notifyEvent_def)
  then show ?thesis by blast
next
  case False
  show ?thesis
  proof (cases x)
    case (OnNext event)
    show ?thesis
    proof (cases "textDeltaOf event")
      case None
      then have "messagesSubject (notifyEvent (releaseActiveRequest options) n x s) =
          map (appendText (assistantMessageId s n) []) (messagesSubject s)"
        using False OnNext by (simp add: notifyEvent_def)
      then show ?thesis by blast
    next
      case (Some d)
      then have "messagesSubject (notifyEvent (releaseActiveRequest options) n x s) =
          map (appendText (assistantMessageId s n) d) (messagesSubject s)"
        using False OnNext by (simp add: notifyEvent_def onNextDelta_def)
      then show ?thesis by blast
    qed
  next
    case (OnError e)
    then have "messagesSubject (notifyEvent (releaseActiveRequest options) n x s) =
        map (appendText (assistantMessageId s n) []) (messagesSubject s)"
      using False by (simp add: notifyEvent_def onError_def)
    then show ?thesis by blast
  next
    case OnComplete
    then have "messagesSubject (notifyEvent (releaseActiveRequest options) n x s) =
        map (appendText (assistantMessageId s n) []) (messagesSubject s)"
      using False by (simp add: notifyEvent_def onComplete_def finishRequest_def)
    then show ?thesis by blast
  qed
qed

lemma fold_notifyChunk_frame [simp]:
  "lastRequestMessages (fold (notifyChunk (releaseActiveRequest options) n) xs s) = lastRequestMessages s"
  "assistantMessageId (fold (notifyChunk (releaseActiveRequest options) n) xs s) = assistantMessageId s"
  "requests (fold (notifyChunk (releaseActiveRequest options) n) xs s) = requests s"
  "created (fold (notifyChunk (releaseActiveRequest options) n) xs s) = created s"
  by (induction xs arbitrary: s) simp_all

lemma fold_notifyEvent_frame [simp]:
  "lastRequestMessages (fold (notifyEvent (releaseActiveRequest options) n) xs s) = lastRequestMessages s"
  "assistantMessageId (fold (notifyEvent (releaseActiveRequest options) n) xs s) = assistantMessageId s"
  "requests (fold (notifyEvent (releaseActiveRequest options) n) xs s) = requests s"
  "created (fold (notifyEvent (releaseActiveRequest options) n) xs s) = created s"
  by (induction xs arbitrary: s) simp_all

lemma fold_notifyChunk_messages:
  "\<exists>d. messagesSubject (fold (notifyChunk (releaseActiveRequest options) n) xs s) =
         map (appendText (assistantMessageId s n) d) (messagesSubject s)"
proof (induction xs arbitrary: s)
  case Nil
  have "messagesSubject s = map (appendText (assistantMessageId s n) []) (messagesSubject s)"
    by simp
  then show ?case by (simp del: map_appendText_empty) blast
next
  case (Cons x xs)
  obtain d1 where d1: "messagesSubject (notifyChunk (releaseActiveRequest options) n x s) =
      map (appendText (assistantMessageId s n) d1) (messagesSubject s)"
    using notifyChunk_messages by blast
  obtain d2 where d2: "messagesSubject (fold (notifyChunk (releaseActiveRequest options) n) xs
        (notifyChunk (releaseActiveRequest options) n x s)) =
      map (appendText (assistantMessageId s n) d2)
        (messagesSubject (notifyChunk (releaseActiveRequest options) n x s))"
    using Cons [of "notifyChunk (releaseActiveRequest options) n x s"] by auto
  have "messagesSubject (fold (notifyChunk (releaseActiveRequest options) n) (x # xs) s) =
      map (appendText (assistantMessageId s n) (d1 @ d2)) (messagesSubject s)"
    using d1 d2 by (simp add: comp_def)
  then show ?case by blast
qed

lemma fold_notifyEvent_messages:
  "\<exists>d. messagesSubject (fold (notifyEvent (releaseActiveRequest options) n) xs s) =
         map (appendText (assistantMessageId s n) d) (messagesSubject s)"
proof (induction xs arbitrary: s)
  case Nil
  have "messagesSubject s = map (appendText (assistantMessageId s n) []) (messagesSubject s)"
    by simp
  then show ?case by (simp del: map_appendText_empty) blast
next
  case (Cons x xs)
  obtain d1 where d1: "messagesSubject (notifyEvent (releaseActiveRequest options) n x s) =
      map (appendText (assistantMessageId s n) d1) (messagesSubject s)"
    using notifyEvent_messages by blast
  obtain d2 where d2: "messagesSubject (fold (notifyEvent (releaseActiveRequest options) n) xs
        (notifyEvent (releaseActiveRequest options) n x s)) =
      map (appendText (assistantMessageId s n) d2)
        (messagesSubject (notifyEvent (releaseActiveRequest options) n x s))"
    using Cons [of "notifyEvent (releaseActiveRequest options) n x s"] by auto
  have "messagesSubject (fold (notifyEvent (releaseActiveRequest options) n) (x # xs) s) =
      map (appendText (assistantMessageId s n) (d1 @ d2)) (messagesSubject s)"
    using d1 d2 by (simp add: comp_def)
  then show ?case by blast
qed

subsection \<open>runCompletion in two parts\<close>

lemma runCompletion_eq:
  "runCompletion options base aid s =
     (deliverCompletion options base (requests s) (prepared options base aid s))
       \<lparr> activeSubscription := Some (requests s) \<rparr>"
  by (simp add: runCompletion_def prepared_def deliverCompletion_def Let_def split: model.splits)

lemma prepared_fields [simp]:
  "messagesSubject (prepared options base aid s) = messagesSubject s"
  "statusSubject (prepared options base aid s) = Loading"
  "errorSubject (prepared options base aid s) = None"
  "activeAbortController (prepared options base aid s) = Some (requests s)"
  "activeSubscription (prepared options base aid s) = None"
  "lastRequestMessages (prepared options base aid s) = Some base"
  "requests (prepared options base aid s) = Suc (requests s)"
  "created (prepared options base aid s) = created s"
  "assistantMessageId (prepared options base aid s) = (assistantMessageId s)(requests s := aid)"
  "signalAborted (prepared options base aid s) (requests s) = False"
  "subscriberClosed (prepared options base aid s) (requests s) = False"
  by (simp_all add: prepared_def Let_def)

lemma prepared_log:
  "stateSubject (prepared options base aid s) =
     stateSubject (releaseActiveRequest options (s\<lparr> lastRequestMessages := Some base \<rparr>)) @
       [\<lparr> messages = messagesSubject s, status = Loading,
          error = errorSubject (releaseActiveRequest options (s\<lparr> lastRequestMessages := Some base \<rparr>)) \<rparr>,
        \<lparr> messages = messagesSubject s, status = Loading, error = None \<rparr>]"
  by (simp add: prepared_def Let_def)

lemma deliverCompletion_frame [simp]:
  "lastRequestMessages (deliverCompletion options base n s) = lastRequestMessages s"
  "assistantMessageId (deliverCompletion options base n s) = assistantMessageId s"
  "requests (deliverCompletion options base n s) = requests s"
  "created (deliverCompletion options base n s) = created s"
  by (simp_all add: deliverCompletion_def split: model.splits)

lemma deliverCompletion_messages:
  "\<exists>d. messagesSubject (deliverCompletion options base n s) =
         map (appendText (assistantMessageId s n) d) (messagesSubject s)"
  by (simp add: deliverCompletion_def fold_notifyChunk_messages fold_notifyEvent_messages
      split: model.splits)

lemma runCompletion_messages:
  "\<exists>d. messagesSubject (runCompletion options base aid s) =
         map (appendText aid d) (messagesSubject s)"
  using deliverCompletion_messages [of options base "requests s" "prepared options base aid s"]
  by (simp add: runCompletion_eq)

lemma runCompletion_frame [simp]:
  "lastRequestMessages (runCompletion options base aid s) = Some base"
  "requests (runCompletion options base aid s) = Suc (requests s)"
  "created (runCompletion options base aid s) = created s"
  "activeSubscription (runCompletion options base aid s) = Some (requests s)"
  by (simp_all add: runCompletion_eq)

subsection \<open>Emissions are only ever added\<close>

lemma finishRequest_log:
  "prefix (stateSubject s) (stateSubject (finishRequest (releaseActiveRequest options) s))"
  by (simp add: finishRequest_def release_log)

lemma onError_log:
  "prefix (stateSubject s) (stateSubject (onError (releaseActiveRequest options) e s))"
proof -
  have "prefix (stateSubject s) (stateSubject (setStatus Error (setError (Some e) s)))"
    by simp
  then show ?thesis
    unfolding onError_def using release_log prefix_order.trans by blast
qed

lemma notifyChunk_log:
  "prefix (stateSubject s) (stateSubject (notifyChunk (releaseActiveRequest options) n x s))"
proof (cases "subscriberClosed s n")
  case True
  then show ?thesis by (simp add: notifyChunk_def)
next
  case False
  show ?thesis
  proof (cases x)
    case (OnNext chunk)
    have "prefix (stateSubject s) (stateSubject (appendDelta (assistantMessageId s n) (chunkToText chunk) s))"
      by (rule appendDelta_log)
    moreover have "prefix (stateSubject (appendDelta (assistantMessageId s n) (chunkToText chunk) s))
        (stateSubject (finishRequest (releaseActiveRequest options)
           (appendDelta (assistantMessageId s n) (chunkToText chunk) s)))"
      by (rule finishRequest_log)
    ultimately show ?thesis
      using False OnNext prefix_order.trans
      by (auto simp add: notifyChunk_def onNextChunk_def Let_def)
  next
    case (OnError e)
    have "prefix (stateSubject (unsubscribe n s))
        (stateSubject (onError (releaseActiveRequest options) e (unsubscribe n s)))"
      by (rule onError_log)
    then show ?thesis using False OnError by (simp add: notifyChunk_def)
  next
    case OnComplete
    have "prefix (stateSubject (unsubscribe n s))
        (stateSubject (finishRequest (releaseActiveRequest options) (unsubscribe n s)))"
      by (rule finishRequest_log)
    then show ?thesis using False OnComplete by (simp add: notifyChunk_def onComplete_def)
  qed
qed

lemma notifyEvent_log:
  "prefix (stateSubject s) (stateSubject (notifyEvent (releaseActiveRequest options) n x s))"
proof (cases "subscriberClosed s n")
  case True
  then show ?thesis by (simp add: notifyEvent_def)
next
  case False
  show ?thesis
  proof (cases x)
    case (OnNext event)
    then show ?thesis
      using False
      by (simp add: notifyEvent_def onNextDelta_def appendDelta_log split: option.splits)
  next
    case (OnError e)
    have "prefix (stateSubject (unsubscribe n s))
        (stateSubject (onError (releaseActiveRequest options) e (unsubscribe n s)))"
      by (rule onError_log)
    then show ?thesis using False OnError by (simp add: notifyEvent_def)
  next
    case OnComplete
    have "prefix (stateSubject (unsubscribe n s))
        (stateSubject (finishRequest (releaseActiveRequest options) (unsubscribe n s)))"
      by (rule finishRequest_log)
    then show ?thesis using False OnComplete by (simp add: notifyEvent_def onComplete_def)
  qed
qed

lemma fold_notifyChunk_log:
  "prefix (stateSubject s) (stateSubject (fold (notifyChunk (releaseActiveRequest options) n) xs s))"
proof (induction xs arbitrary: s)
  case Nil
  then show ?case by simp
next
  case (Cons x xs)
  show ?case
    using notifyChunk_log [of s options n x]
      Cons [of "notifyChunk (releaseActiveRequest options) n x s"] prefix_order.trans
    by auto
qed

lemma fold_notifyEvent_log:
  "prefix (stateSubject s) (stateSubject (fold (notifyEvent (releaseActiveRequest options) n) xs s))"
proof (induction xs arbitrary: s)
  case Nil
  then show ?case by simp
next
  case (Cons x xs)
  show ?case
    using notifyEvent_log [of s options n x]
      Cons [of "notifyEvent (releaseActiveRequest options) n x s"] prefix_order.trans
    by auto
qed

lemma deliverCompletion_log:
  "prefix (stateSubject s) (stateSubject (deliverCompletion options base n s))"
  by (simp add: deliverCompletion_def fold_notifyChunk_log fold_notifyEvent_log split: model.splits)

lemma runCompletion_log:
  "prefix (stateSubject (prepared options base aid s))
     (stateSubject (runCompletion options base aid s))"
  by (simp add: runCompletion_eq deliverCompletion_log)

subsection \<open>Consistency is kept by every step\<close>

lemma subscribing_notifyChunk:
  "subscribing n s \<Longrightarrow> subscribing n (notifyChunk (releaseActiveRequest options) n x s)"
  by (auto simp add: subscribing_def notifyChunk_def onNextChunk_def onError_def onComplete_def
      finishRequest_def Let_def split: notification.splits)

lemma subscribing_notifyEvent:
  "subscribing n s \<Longrightarrow> subscribing n (notifyEvent (releaseActiveRequest options) n x s)"
  by (auto simp add: subscribing_def notifyEvent_def onNextDelta_def onError_def onComplete_def
      finishRequest_def Let_def split: notification.splits option.splits)

lemma subscribing_fold_notifyChunk:
  "subscribing n s \<Longrightarrow> subscribing n (fold (notifyChunk (releaseActiveRequest options) n) xs s)"
  by (induction xs arbitrary: s) (simp_all add: subscribing_notifyChunk)

lemma subscribing_fold_notifyEvent:
  "subscribing n s \<Longrightarrow> subscribing n (fold (notifyEvent (releaseActiveRequest options) n) xs s)"
  by (induction xs arbitrary: s) (simp_all add: subscribing_notifyEvent)

lemma subscribing_deliverCompletion:
  "subscribing n s \<Longrightarrow> subscribing n (deliverCompletion options base n s)"
  by (simp add: deliverCompletion_def subscribing_fold_notifyChunk subscribing_fold_notifyEvent
      split: model.splits)

lemma subscribing_prepared:
  assumes "\<And>k. k < requests s \<Longrightarrow> subscriberClosed s k \<or> activeSubscription s = Some k"
  shows "subscribing (requests s) (prepared options base aid s)"
  using assms by (auto simp add: subscribing_def prepared_def Let_def)

lemma length_map_appendText_ex:
  "\<exists>d. ms' = map (appendText aid d) ms \<Longrightarrow> length ms' = length ms"
  by auto

lemma runCompletion_length [simp]:
  "length (messagesSubject (runCompletion options base aid s)) = length (messagesSubject s)"
  using runCompletion_messages [of options base aid s] by auto

lemma consistent_runCompletion:
  assumes "\<And>k. k < requests s \<Longrightarrow> subscriberClosed s k \<or> activeSubscription s = Some k"
    and "length (messagesSubject s) = Suc (length base)"
  shows "consistent (runCompletion options base aid s)"
proof -
  have "subscribing (requests s)
      (deliverCompletion options base (requests s) (prepared options base aid s))"
    using assms(1) by (intro subscribing_deliverCompletion subscribing_prepared)
  then have "(\<forall>k<requests (runCompletion options base aid s).
        subscriberClosed (runCompletion options base aid s) k \<or>
        activeSubscription (runCompletion options base aid s) = Some k) \<and>
      (\<forall>c. activeAbortController (runCompletion options base aid s) = Some c \<longrightarrow>
        activeSubscription (runCompletion options base aid s) = Some c)"
    by (auto simp add: subscribing_def runCompletion_eq less_Suc_eq)
  then show ?thesis
    using assms(2) by (simp add: consistent_def)
qed

lemma release_settles:
  assumes "consistent s" and "k < requests s"
  shows "subscriberClosed (releaseActiveRequest options s) k"
  using assms by (auto simp add: consistent_def)

lemma consistent_send: "consistent s \<Longrightarrow> consistent (send options c mt s)"
proof (cases "trim c = []")
  case True
  assume "consistent s"
  then show ?thesis using True by (simp add: send_def)
next
  case False
  assume c: "consistent s"
  show ?thesis
    using False
    apply (simp add: send_def Let_def createMessage_def)
    apply (rule consistent_runCompletion)
     apply (simp add: release_settles [OF c] del: release_closed)
    apply simp
    done
qed

lemma consistent_retryLast: "consistent s \<Longrightarrow> consistent (retryLast options s)"
proof (cases "lastRequestMessages s")
  case None
  assume "consistent s"
  then show ?thesis using None by (simp add: retryLast_def)
next
  case (Some l)
  assume c: "consistent s"
  show ?thesis
    using Some
    apply (simp add: retryLast_def Let_def createMessage_def)
    apply (rule consistent_runCompletion)
     apply (simp add: release_settles [OF c] del: release_closed)
    apply simp
    done
qed

lemma consistent_release:
  "consistent s \<Longrightarrow> consistent (releaseActiveRequest options s)"
  by (auto simp add: consistent_def split: option.splits)

lemma consistent_cancel: "consistent s \<Longrightarrow> consistent (cancel options s)"
  using consistent_release [of s options]
  by (simp add: cancel_def consistent_def split: option.splits)

lemma consistent_notifyChunk:
  "consistent s \<Longrightarrow> consistent (notifyChunk (releaseActiveRequest options) n x s)"
  by (auto simp add: consistent_def notifyChunk_def onNextChunk_def onError_def onComplete_def
      finishRequest_def Let_def split: notification.splits option.splits)

lemma consistent_notifyEvent:
  "consistent s \<Longrightarrow> consistent (notifyEvent (releaseActiveRequest options) n x s)"
  by (auto simp add: consistent_def notifyEvent_def onNextDelta_def onError_def onComplete_def
      finishRequest_def Let_def split: notification.splits option.splits)

lemma consistent_step: "consistent s \<Longrightarrow> consistent (step options op s)"
  by (cases op)
    (simp_all add: consistent_send consistent_retryLast consistent_cancel
      consistent_notifyChunk consistent_notifyEvent)

lemma consistent_run: "consistent s \<Longrightarrow> consistent (run options ops s)"
  unfolding run_def by (induction ops arbitrary: s) (simp_all add: consistent_step)

lemma consistent_create: "consistent (createChatController options)"
  by (simp add: consistent_def createChatController_def Let_def)

subsection \<open>send and retryLast\<close>

lemma createMessage_eq:
  "createMessage options r c mt s =
     (newMessage options r c mt (created s), s\<lparr> created := Suc (created s) \<rparr>)"
  by (simp add: createMessage_def newMessage_def split: option.splits)

lemma send_eq:
  "trim c \<noteq> [] \<Longrightarrow>
   send options c mt s =
     runCompletion options
       (messagesSubject s @ [newMessage options User (trim c) mt (created s)])
       (idGenerator options (Suc (created s)))
       (setMessages
          (messagesSubject s @
             [newMessage options User (trim c) mt (created s),
              newMessage options Assistant [] None (Suc (created s))])
          ((releaseActiveRequest options s)\<lparr> created := Suc (Suc (created s)) \<rparr>))"
  by (simp add: send_def Let_def createMessage_eq newMessage_def)

lemma retryLast_eq:
  "lastRequestMessages s = Some l \<Longrightarrow>
   retryLast options s =
     runCompletion options l (idGenerator options (created s))
       (setMessages (l @ [newMessage options Assistant [] None (created s)])
          ((releaseActiveRequest options s)\<lparr> created := Suc (created s) \<rparr>))"
  by (simp add: retryLast_def Let_def createMessage_eq newMessage_def)

lemma prepared_log_prefix:
  "prefix (stateSubject s) (stateSubject (prepared options base aid s))"
proof -
  have "prefix (stateSubject (s\<lparr> lastRequestMessages := Some base \<rparr>))
      (stateSubject (releaseActiveRequest options (s\<lparr> lastRequestMessages := Some base \<rparr>)))"
    by (rule release_log)
  then show ?thesis by (simp add: prepared_log)
qed

lemma runCompletion_log_prefix:
  "prefix (stateSubject s) (stateSubject (runCompletion options base aid s))"
  using prepared_log_prefix runCompletion_log prefix_order.trans by blast

lemma send_emission:
  assumes "trim c \<noteq> []"
  shows "prefix
     (stateSubject (releaseActiveRequest options s) @
        [\<lparr> messages = messagesSubject s @
             [newMessage options User (trim c) mt (created s),
              newMessage options Assistant [] None (Suc (created s))],
           status = statusSubject (releaseActiveRequest options s),
           error = errorSubject (releaseActiveRequest options s) \<rparr>])
     (stateSubject (send options c mt s))"
  using runCompletion_log_prefix
    [of "setMessages
          (messagesSubject s @
             [newMessage options User (trim c) mt (created s),
              newMessage options Assistant [] None (Suc (created s))])
          ((releaseActiveRequest options s)\<lparr> created := Suc (Suc (created s)) \<rparr>)"]
  by (simp add: send_eq [OF assms])

lemma send_messages:
  assumes "trim c \<noteq> []"
  shows "\<exists>d. messagesSubject (send options c mt s) =
     map (appendText (idGenerator options (Suc (created s))) d)
       (messagesSubject s @
          [newMessage options User (trim c) mt (created s),
           newMessage options Assistant [] None (Suc (created s))])"
  using runCompletion_messages
    [of options "messagesSubject s @ [newMessage options User (trim c) mt (created s)]"
      "idGenerator options (Suc (created s))"
      "setMessages
          (messagesSubject s @
             [newMessage options User (trim c) mt (created s),
              newMessage options Assistant [] None (Suc (created s))])
          ((releaseActiveRequest options s)\<lparr> created := Suc (Suc (created s)) \<rparr>)"]
  by (simp add: send_eq [OF assms])

lemma retryLast_messages:
  assumes "lastRequestMessages s = Some l"
  shows "\<exists>d. messagesSubject (retryLast options s) =
     map (appendText (idGenerator options (created s)) d)
       (l @ [newMessage options Assistant [] None (created s)])"
  using runCompletion_messages
    [of options l "idGenerator options (created s)"
      "setMessages (l @ [newMessage options Assistant [] None (created s)])
          ((releaseActiveRequest options s)\<lparr> created := Suc (created s) \<rparr>)"]
  by (simp add: retryLast_eq [OF assms])

lemma notifyChunk_length [simp]:
  "length (messagesSubject (notifyChunk (releaseActiveRequest options) n x s)) =
     length (messagesSubject s)"
  using notifyChunk_messages [of options n x s] by auto

lemma notifyEvent_length [simp]:
  "length (messagesSubject (notifyEvent (releaseActiveRequest options) n x s)) =
     length (messagesSubject s)"
  using notifyEvent_messages [of options n x s] by auto

lemma step_length:
  assumes "consistent s"
  shows "length (messagesSubject s) \<le> length (messagesSubject (step options op s))"
proof (cases op)
  case (Send c mt)
  show ?thesis
  proof (cases "trim c = []")
    case True
    then show ?thesis using Send by (simp add: send_def)
  next
    case False
    then show ?thesis using Send send_messages [OF False, of options mt s] by auto
  qed
next
  case RetryLast
  show ?thesis
  proof (cases "lastRequestMessages s")
    case None
    then show ?thesis using RetryLast by (simp add: retryLast_def)
  next
    case (Some l)
    then show ?thesis
      using RetryLast assms retryLast_messages [OF Some, of options]
      by (auto simp add: consistent_def)
  qed
next
  case Cancel
  then show ?thesis by (simp add: cancel_def)
next
  case (AdapterEmits n x)
  then show ?thesis by simp
next
  case (ModelEmits n x)
  then show ?thesis by simp
qed

lemma run_length:
  "consistent s \<Longrightarrow> length (messagesSubject s) \<le> length (messagesSubject (run options ops s))"
proof (induction ops arbitrary: s)
  case Nil
  then show ?case by (simp add: run_def)
next
  case (Cons op ops)
  have "length (messagesSubject s) \<le> length (messagesSubject (step options op s))"
    using Cons.prems by (rule step_length)
  also have "\<dots> \<le> length (messagesSubject (run options ops (step options op s)))"
    using Cons.IH [of "step options op s"] Cons.prems consistent_step by blast
  finally show ?case by (simp add: run_def)
qed

lemma run_append: "run options (ops @ later) s = run options later (run options ops s)"
  by (simp add: run_def)

text \<open>
  Claim C1, as the code has it. Along every sequence of operations and adapter
  emissions from a new controller the length of the message list never decreases. A
  \<^verbatim>\<open>send\<close> with non-blank content emits, right after releasing the previous request, one
  state whose list is the old list followed by the new user message and the empty
  assistant placeholder, in that order; when \<^verbatim>\<open>send\<close> returns the list is two longer and
  ends with a user and an assistant message. \<^verbatim>\<open>retryLast\<close> does not append: it replaces
  the list by the retained request followed by a fresh placeholder (with what was
  streamed into it meanwhile), so the previous assistant message is gone.
\<close>

theorem messages_length_never_decreases:
  "length (messagesSubject (run options ops (createChatController options)))
     \<le> length (messagesSubject (run options (ops @ later) (createChatController options))) \<and>
   (trim c \<noteq> [] \<longrightarrow>
      prefix
        (stateSubject (releaseActiveRequest options s) @
           [\<lparr> messages = messagesSubject s @
                [newMessage options User (trim c) mt (created s),
                 newMessage options Assistant [] None (Suc (created s))],
              status = statusSubject (releaseActiveRequest options s),
              error = errorSubject (releaseActiveRequest options s) \<rparr>])
        (stateSubject (send options c mt s)) \<and>
      length (messagesSubject (send options c mt s)) = length (messagesSubject s) + 2 \<and>
      map role (messagesSubject (send options c mt s)) =
        map role (messagesSubject s) @ [User, Assistant]) \<and>
   (lastRequestMessages s = Some l \<longrightarrow>
      (\<exists>d. messagesSubject (retryLast options s) =
         map (appendText (idGenerator options (created s)) d)
           (l @ [newMessage options Assistant [] None (created s)])))"
proof (intro conjI impI)
  show "length (messagesSubject (run options ops (createChatController options)))
     \<le> length (messagesSubject (run options (ops @ later) (createChatController options)))"
    by (simp add: run_append run_length consistent_run consistent_create)
next
  assume t: "trim c \<noteq> []"
  show "prefix
        (stateSubject (releaseActiveRequest options s) @
           [\<lparr> messages = messagesSubject s @
                [newMessage options User (trim c) mt (created s),
                 newMessage options Assistant [] None (Suc (created s))],
              status = statusSubject (releaseActiveRequest options s),
              error = errorSubject (releaseActiveRequest options s) \<rparr>])
        (stateSubject (send options c mt s))"
    using t by (rule send_emission)
  obtain d where d: "messagesSubject (send options c mt s) =
     map (appendText (idGenerator options (Suc (created s))) d)
       (messagesSubject s @
          [newMessage options User (trim c) mt (created s),
           newMessage options Assistant [] None (Suc (created s))])"
    using send_messages [OF t] by blast
  show "length (messagesSubject (send options c mt s)) = length (messagesSubject s) + 2"
    using d by simp
  have "role \<circ> appendText (idGenerator options (Suc (created s))) d = role"
    by (rule ext) (simp add: appendText_def)
  then show "map role (messagesSubject (send options c mt s)) =
        map role (messagesSubject s) @ [User, Assistant]"
    using d by (simp add: newMessage_def appendText_def)
next
  assume "lastRequestMessages s = Some l"
  then show "\<exists>d. messagesSubject (retryLast options s) =
         map (appendText (idGenerator options (created s)) d)
           (l @ [newMessage options Assistant [] None (created s)])"
    by (rule retryLast_messages)
qed

subsection \<open>getState is never stale\<close>

lemma coherent_set [simp]:
  "coherent (setMessages ms s)" "coherent (setStatus st s)" "coherent (setError e s)"
  by (simp_all add: coherent_def getState_def)

lemma coherent_release:
  "coherent s \<Longrightarrow> coherent (releaseActiveRequest options s)"
  by (auto simp add: coherent_def getState_def releaseActiveRequest_def releaseWith_def abort_def
      abortListeners_def notifyEvent_def onError_def Let_def split: option.splits model.splits)

lemma coherent_appendDelta: "coherent s \<Longrightarrow> coherent (appendDelta aid d s)"
  by (simp add: appendDelta_def Let_def)

lemma coherent_unsubscribe: "coherent s \<Longrightarrow> coherent (unsubscribe n s)"
  by (simp add: coherent_def getState_def)

lemma coherent_notifyChunk:
  "coherent s \<Longrightarrow> coherent (notifyChunk (releaseActiveRequest options) n x s)"
  by (auto simp add: notifyChunk_def onNextChunk_def onError_def onComplete_def finishRequest_def
      Let_def coherent_appendDelta coherent_release split: notification.splits)

lemma coherent_notifyEvent:
  "coherent s \<Longrightarrow> coherent (notifyEvent (releaseActiveRequest options) n x s)"
  by (auto simp add: notifyEvent_def onNextDelta_def onError_def onComplete_def finishRequest_def
      coherent_appendDelta coherent_release split: notification.splits option.splits)

lemma coherent_fold_notifyChunk:
  "coherent s \<Longrightarrow> coherent (fold (notifyChunk (releaseActiveRequest options) n) xs s)"
  by (induction xs arbitrary: s) (simp_all add: coherent_notifyChunk)

lemma coherent_fold_notifyEvent:
  "coherent s \<Longrightarrow> coherent (fold (notifyEvent (releaseActiveRequest options) n) xs s)"
  by (induction xs arbitrary: s) (simp_all add: coherent_notifyEvent)

lemma coherent_runCompletion: "coherent (runCompletion options base aid s)"
proof -
  have "coherent (prepared options base aid s)"
    by (simp add: coherent_def getState_def prepared_def Let_def)
  then have "coherent (deliverCompletion options base (requests s) (prepared options base aid s))"
    by (simp add: deliverCompletion_def coherent_fold_notifyChunk coherent_fold_notifyEvent
        split: model.splits)
  then show ?thesis by (simp add: runCompletion_eq coherent_def getState_def)
qed

lemma coherent_step: "coherent s \<Longrightarrow> coherent (step options op s)"
proof (cases op)
  case (Send c mt)
  assume c: "coherent s"
  show ?thesis
  proof (cases "trim c = []")
    case True
    then show ?thesis using c Send by (simp add: send_def)
  next
    case False
    then show ?thesis using Send by (simp add: send_eq coherent_runCompletion)
  qed
next
  case RetryLast
  assume c: "coherent s"
  show ?thesis
  proof (cases "lastRequestMessages s")
    case None
    then show ?thesis using c RetryLast by (simp add: retryLast_def)
  next
    case (Some l)
    then show ?thesis using RetryLast by (simp add: retryLast_eq coherent_runCompletion)
  qed
next
  case Cancel
  then show ?thesis by (simp add: cancel_def)
next
  case (AdapterEmits n x)
  assume "coherent s"
  then show ?thesis using AdapterEmits by (simp add: coherent_notifyChunk)
next
  case (ModelEmits n x)
  assume "coherent s"
  then show ?thesis using ModelEmits by (simp add: coherent_notifyEvent)
qed

lemma coherent_run: "coherent s \<Longrightarrow> coherent (run options ops s)"
  unfolding run_def by (induction ops arbitrary: s) (simp_all add: coherent_step)

lemma getState_current:
  "getState (run options ops (createChatController options)) =
     \<lparr> messages = messagesSubject (run options ops (createChatController options)),
       status = statusSubject (run options ops (createChatController options)),
       error = errorSubject (run options ops (createChatController options)) \<rparr>"
proof -
  have "coherent (createChatController options)"
    by (simp add: coherent_def getState_def createChatController_def Let_def)
  then have "coherent (run options ops (createChatController options))"
    by (rule coherent_run)
  then show ?thesis by (simp add: coherent_def)
qed

subsection \<open>One notification, field by field\<close>

lemma notifyChunk_closed:
  "subscriberClosed s n \<Longrightarrow> notifyChunk release n x s = s"
  by (simp add: notifyChunk_def)

lemma notifyEvent_closed:
  "subscriberClosed s n \<Longrightarrow> notifyEvent release n x s = s"
  by (simp add: notifyEvent_def)

lemma release_signalAborted:
  "signalAborted (releaseActiveRequest options s) k \<longleftrightarrow>
     signalAborted s k \<or> activeAbortController s = Some k"
  by (auto simp add: releaseActiveRequest_def releaseWith_def abort_def abortListeners_def
      notifyEvent_def onError_def Let_def split: option.splits model.splits)

lemma appendDelta_signalAborted [simp]:
  "signalAborted (appendDelta aid d s) = signalAborted s"
  by (simp add: appendDelta_def Let_def)

lemma notifyChunk_next:
  assumes "model options = Adapter a" and "\<not> subscriberClosed s n"
  shows "messagesSubject (notifyChunk (releaseActiveRequest options) n (OnNext chunk) s) =
      map (appendText (assistantMessageId s n) (chunkToText chunk)) (messagesSubject s)"
    and "statusSubject (notifyChunk (releaseActiveRequest options) n (OnNext chunk) s) =
      (if chunkIsDone chunk then Idle
       else if chunkToText chunk = [] then statusSubject s else Streaming)"
    and "errorSubject (notifyChunk (releaseActiveRequest options) n (OnNext chunk) s) =
      errorSubject s"
    and "subscriberClosed (notifyChunk (releaseActiveRequest options) n (OnNext chunk) s) k \<longleftrightarrow>
      subscriberClosed s k \<or> (chunkIsDone chunk \<and> activeSubscription s = Some k)"
    and "activeAbortController (notifyChunk (releaseActiveRequest options) n (OnNext chunk) s) =
      (if chunkIsDone chunk then None else activeAbortController s)"
    and "activeSubscription (notifyChunk (releaseActiveRequest options) n (OnNext chunk) s) =
      (if chunkIsDone chunk then None else activeSubscription s)"
  using assms
  by (simp_all add: notifyChunk_def onNextChunk_def finishRequest_def Let_def appendDelta_status)

lemma notifyChunk_error:
  assumes "model options = Adapter a" and "\<not> subscriberClosed s n"
  shows "messagesSubject (notifyChunk (releaseActiveRequest options) n (OnError e) s) =
      messagesSubject s"
    and "statusSubject (notifyChunk (releaseActiveRequest options) n (OnError e) s) = Error"
    and "errorSubject (notifyChunk (releaseActiveRequest options) n (OnError e) s) = Some e"
    and "subscriberClosed (notifyChunk (releaseActiveRequest options) n (OnError e) s) k \<longleftrightarrow>
      subscriberClosed s k \<or> k = n \<or> activeSubscription s = Some k"
    and "activeAbortController (notifyChunk (releaseActiveRequest options) n (OnError e) s) = None"
    and "activeSubscription (notifyChunk (releaseActiveRequest options) n (OnError e) s) = None"
    and "stateSubject (notifyChunk (releaseActiveRequest options) n (OnError e) s) =
      stateSubject s @
        [\<lparr> messages = messagesSubject s, status = statusSubject s, error = Some e \<rparr>,
         \<lparr> messages = messagesSubject s, status = Error, error = Some e \<rparr>]"
  using assms
  by (auto simp add: notifyChunk_def onError_def)

lemma notifyChunk_complete:
  assumes "model options = Adapter a" and "\<not> subscriberClosed s n"
  shows "messagesSubject (notifyChunk (releaseActiveRequest options) n OnComplete s) =
      messagesSubject s"
    and "statusSubject (notifyChunk (releaseActiveRequest options) n OnComplete s) = Idle"
    and "errorSubject (notifyChunk (releaseActiveRequest options) n OnComplete s) = errorSubject s"
    and "subscriberClosed (notifyChunk (releaseActiveRequest options) n OnComplete s) k \<longleftrightarrow>
      subscriberClosed s k \<or> k = n \<or> activeSubscription s = Some k"
    and "activeAbortController (notifyChunk (releaseActiveRequest options) n OnComplete s) = None"
    and "activeSubscription (notifyChunk (releaseActiveRequest options) n OnComplete s) = None"
  using assms
  by (auto simp add: notifyChunk_def onComplete_def finishRequest_def)

lemma notifyEvent_next:
  assumes "\<not> subscriberClosed s n"
  shows "messagesSubject (notifyEvent release n (OnNext event) s) =
      (case textDeltaOf event of
         None \<Rightarrow> messagesSubject s
       | Some d \<Rightarrow> map (appendText (assistantMessageId s n) d) (messagesSubject s))"
    and "statusSubject (notifyEvent release n (OnNext event) s) =
      (case textDeltaOf event of
         None \<Rightarrow> statusSubject s
       | Some d \<Rightarrow> if d = [] then statusSubject s else Streaming)"
    and "errorSubject (notifyEvent release n (OnNext event) s) = errorSubject s"
    and "subscriberClosed (notifyEvent release n (OnNext event) s) = subscriberClosed s"
    and "signalAborted (notifyEvent release n (OnNext event) s) = signalAborted s"
    and "activeAbortController (notifyEvent release n (OnNext event) s) = activeAbortController s"
    and "activeSubscription (notifyEvent release n (OnNext event) s) = activeSubscription s"
    and "requests (notifyEvent release n (OnNext event) s) = requests s"
    and "assistantMessageId (notifyEvent release n (OnNext event) s) = assistantMessageId s"
  using assms
  by (simp_all add: notifyEvent_def onNextDelta_def appendDelta_status split: option.splits)

lemma release_after_close:
  assumes "activeAbortController s = None \<or> activeAbortController s = Some n"
    and "subscriberClosed s n"
  shows "statusSubject (releaseActiveRequest options s) = statusSubject s"
    and "errorSubject (releaseActiveRequest options s) = errorSubject s"
    and "stateSubject (releaseActiveRequest options s) = stateSubject s"
  using assms by (auto intro: release_quiet)

lemma notifyEvent_error:
  assumes "activeAbortController s = None \<or> activeAbortController s = Some n"
    and "\<not> subscriberClosed s n"
  shows "messagesSubject (notifyEvent (releaseActiveRequest options) n (OnError e) s) =
      messagesSubject s"
    and "statusSubject (notifyEvent (releaseActiveRequest options) n (OnError e) s) = Error"
    and "errorSubject (notifyEvent (releaseActiveRequest options) n (OnError e) s) = Some e"
    and "subscriberClosed (notifyEvent (releaseActiveRequest options) n (OnError e) s) k \<longleftrightarrow>
      subscriberClosed s k \<or> k = n \<or> activeSubscription s = Some k"
    and "activeAbortController (notifyEvent (releaseActiveRequest options) n (OnError e) s) = None"
    and "activeSubscription (notifyEvent (releaseActiveRequest options) n (OnError e) s) = None"
    and "stateSubject (notifyEvent (releaseActiveRequest options) n (OnError e) s) =
      stateSubject s @
        [\<lparr> messages = messagesSubject s, status = statusSubject s, error = Some e \<rparr>,
         \<lparr> messages = messagesSubject s, status = Error, error = Some e \<rparr>]"
proof -
  let ?t = "setStatus Error (setError (Some e) (unsubscribe n s))"
  have a: "activeAbortController ?t = None \<or> activeAbortController ?t = Some n"
    using assms(1) by simp
  have c: "subscriberClosed ?t n" by simp
  note q = release_after_close [OF a c, of options]
  have eq: "notifyEvent (releaseActiveRequest options) n (OnError e) s =
      releaseActiveRequest options ?t"
    using assms(2) by (simp add: notifyEvent_def onError_def)
  show "messagesSubject (notifyEvent (releaseActiveRequest options) n (OnError e) s) =
      messagesSubject s"
    by (simp add: eq)
  show "statusSubject (notifyEvent (releaseActiveRequest options) n (OnError e) s) = Error"
    by (simp add: eq q)
  show "errorSubject (notifyEvent (releaseActiveRequest options) n (OnError e) s) = Some e"
    by (simp add: eq q)
  show "subscriberClosed (notifyEvent (releaseActiveRequest options) n (OnError e) s) k \<longleftrightarrow>
      subscriberClosed s k \<or> k = n \<or> activeSubscription s = Some k"
    using assms(1) by (auto simp add: eq)
  show "activeAbortController (notifyEvent (releaseActiveRequest options) n (OnError e) s) = None"
    by (simp add: eq)
  show "activeSubscription (notifyEvent (releaseActiveRequest options) n (OnError e) s) = None"
    by (simp add: eq)
  show "stateSubject (notifyEvent (releaseActiveRequest options) n (OnError e) s) =
      stateSubject s @
        [\<lparr> messages = messagesSubject s, status = statusSubject s, error = Some e \<rparr>,
         \<lparr> messages = messagesSubject s, status = Error, error = Some e \<rparr>]"
    by (simp add: eq q)
qed

lemma notifyEvent_complete:
  assumes "activeAbortController s = None \<or> activeAbortController s = Some n"
    and "\<not> subscriberClosed s n"
  shows "messagesSubject (notifyEvent (releaseActiveRequest options) n OnComplete s) =
      messagesSubject s"
    and "statusSubject (notifyEvent (releaseActiveRequest options) n OnComplete s) = Idle"
    and "errorSubject (notifyEvent (releaseActiveRequest options) n OnComplete s) = errorSubject s"
    and "subscriberClosed (notifyEvent (releaseActiveRequest options) n OnComplete s) k \<longleftrightarrow>
      subscriberClosed s k \<or> k = n \<or> activeSubscription s = Some k"
    and "activeAbortController (notifyEvent (releaseActiveRequest options) n OnComplete s) = None"
    and "activeSubscription (notifyEvent (releaseActiveRequest options) n OnComplete s) = None"
proof -
  let ?t = "unsubscribe n s"
  have a: "activeAbortController ?t = None \<or> activeAbortController ?t = Some n"
    using assms(1) by simp
  have c: "subscriberClosed ?t n" by simp
  note q = release_after_close [OF a c, of options]
  have eq: "notifyEvent (releaseActiveRequest options) n OnComplete s =
      setStatus Idle (releaseActiveRequest options ?t)"
    using assms(2) by (simp add: notifyEvent_def onComplete_def finishRequest_def)
  show "messagesSubject (notifyEvent (releaseActiveRequest options) n OnComplete s) =
      messagesSubject s"
    by (simp add: eq)
  show "statusSubject (notifyEvent (releaseActiveRequest options) n OnComplete s) = Idle"
    by (simp add: eq)
  show "errorSubject (notifyEvent (releaseActiveRequest options) n OnComplete s) = errorSubject s"
    by (simp add: eq q)
  show "subscriberClosed (notifyEvent (releaseActiveRequest options) n OnComplete s) k \<longleftrightarrow>
      subscriberClosed s k \<or> k = n \<or> activeSubscription s = Some k"
    using assms(1) by (auto simp add: eq)
  show "activeAbortController (notifyEvent (releaseActiveRequest options) n OnComplete s) = None"
    by (simp add: eq)
  show "activeSubscription (notifyEvent (releaseActiveRequest options) n OnComplete s) = None"
    by (simp add: eq)
qed

subsection \<open>One completion cycle\<close>


lemma fold_events:
  assumes "\<not> subscriberClosed s n"
  shows "messagesSubject (fold (notifyEvent release n) (map OnNext evs) s) =
      map (appendText (assistantMessageId s n) (concat (map eventText evs))) (messagesSubject s) \<and>
    subscriberClosed (fold (notifyEvent release n) (map OnNext evs) s) = subscriberClosed s \<and>
    activeAbortController (fold (notifyEvent release n) (map OnNext evs) s) =
      activeAbortController s \<and>
    activeSubscription (fold (notifyEvent release n) (map OnNext evs) s) = activeSubscription s \<and>
    errorSubject (fold (notifyEvent release n) (map OnNext evs) s) = errorSubject s \<and>
    requests (fold (notifyEvent release n) (map OnNext evs) s) = requests s"
  using assms
proof (induction evs arbitrary: s)
  case Nil
  then show ?case by simp
next
  case (Cons ev evs)
  let ?t = "notifyEvent release n (OnNext ev) s"
  note step = notifyEvent_next [OF Cons.prems, of release ev]
  have open': "\<not> subscriberClosed ?t n"
    using step(4) Cons.prems by simp
  show ?case
    using Cons.IH [OF open'] step
    by (cases ev) (simp_all add: comp_def)
qed






subsection \<open>Where an error in the state comes from\<close>

lemma notifyChunk_error_origin:
  assumes "model options = Adapter a"
  shows "errorSubject (notifyChunk (releaseActiveRequest options) n x s) = errorSubject s \<or>
    errorSubject (notifyChunk (releaseActiveRequest options) n x s) \<in> Some ` set (failures [x])"
proof (cases "subscriberClosed s n")
  case True
  then show ?thesis by (simp add: notifyChunk_closed)
next
  case False
  show ?thesis
    using notifyChunk_next(3) [OF assms False] notifyChunk_error(3) [OF assms False]
      notifyChunk_complete(3) [OF assms False]
    by (cases x) simp_all
qed

lemma fold_notifyChunk_error_origin:
  assumes "model options = Adapter a"
  shows "errorSubject (fold (notifyChunk (releaseActiveRequest options) n) xs s) = errorSubject s \<or>
    errorSubject (fold (notifyChunk (releaseActiveRequest options) n) xs s) \<in> Some ` set (failures xs)"
proof (induction xs arbitrary: s)
  case Nil
  then show ?case by simp
next
  case (Cons x xs)
  have f: "set (failures (x # xs)) = set (failures [x]) \<union> set (failures xs)"
    by (cases x) simp_all
  show ?case
    using Cons [of "notifyChunk (releaseActiveRequest options) n x s"]
      notifyChunk_error_origin [OF assms, of n x s]
    unfolding f by auto
qed

lemma notifyEvent_controller:
  "activeAbortController (notifyEvent (releaseActiveRequest options) n x s) = None \<or>
   activeAbortController (notifyEvent (releaseActiveRequest options) n x s) = activeAbortController s"
  by (simp add: notifyEvent_def onNextDelta_def onError_def onComplete_def finishRequest_def
      split: notification.splits option.splits)

lemma notifyEvent_error_origin:
  assumes "activeAbortController s = None \<or> activeAbortController s = Some n"
  shows "errorSubject (notifyEvent (releaseActiveRequest options) n x s) = errorSubject s \<or>
    errorSubject (notifyEvent (releaseActiveRequest options) n x s) \<in> Some ` set (failures [x])"
proof (cases "subscriberClosed s n")
  case True
  then show ?thesis by (simp add: notifyEvent_closed)
next
  case False
  show ?thesis
    using notifyEvent_next(3) [OF False] notifyEvent_error(3) [OF assms False]
      notifyEvent_complete(3) [OF assms False]
    by (cases x) simp_all
qed

lemma fold_notifyEvent_error_origin:
  assumes "activeAbortController s = None \<or> activeAbortController s = Some n"
  shows "errorSubject (fold (notifyEvent (releaseActiveRequest options) n) xs s) = errorSubject s \<or>
    errorSubject (fold (notifyEvent (releaseActiveRequest options) n) xs s) \<in> Some ` set (failures xs)"
  using assms
proof (induction xs arbitrary: s)
  case Nil
  then show ?case by simp
next
  case (Cons x xs)
  let ?t = "notifyEvent (releaseActiveRequest options) n x s"
  have f: "set (failures (x # xs)) = set (failures [x]) \<union> set (failures xs)"
    by (cases x) simp_all
  have a: "activeAbortController ?t = None \<or> activeAbortController ?t = Some n"
    using notifyEvent_controller [of options n x s] Cons.prems by auto
  show ?case
    using Cons.IH [OF a] notifyEvent_error_origin [OF Cons.prems, of options x]
    unfolding f by auto
qed

lemma runCompletion_error_origin:
  "errorSubject (runCompletion options base aid s) = None \<or>
   errorSubject (runCompletion options base aid s) \<in>
     Some ` set (completionFailures options base (requests s))"
proof (cases "model options")
  case (Adapter a)
  show ?thesis
    using fold_notifyChunk_error_origin [OF Adapter, of "requests s"
        "complete a (requests s) (adapterRequest base)" "prepared options base aid s"]
    by (simp add: runCompletion_eq deliverCompletion_def completionFailures_def Adapter)
next
  case (LanguageModel m)
  have a: "activeAbortController (prepared options base aid s) = None \<or>
      activeAbortController (prepared options base aid s) = Some (requests s)"
    by simp
  show ?thesis
    using fold_notifyEvent_error_origin [OF a, of options
        "doStream m (requests s) (modelRequest options m base)"]
    by (simp add: runCompletion_eq deliverCompletion_def completionFailures_def LanguageModel)
qed

text \<open>
  Claim C10. What \<^verbatim>\<open>runCompletion\<close> emits on \<^verbatim>\<open>state$\<close> after releasing the previous
  request starts with a state of status loading and then one of status loading and error
  null; everything the new completion causes comes after these. When \<^verbatim>\<open>runCompletion\<close>
  returns, the error is null or one of the failures the new completion delivered: an
  error of an earlier cycle is never left in the state.
\<close>

theorem runCompletion_resets_before_delivery:
  "(\<exists>post. stateSubject (runCompletion options base aid s) =
      stateSubject (releaseActiveRequest options (s\<lparr> lastRequestMessages := Some base \<rparr>)) @
        [\<lparr> messages = messagesSubject s, status = Loading,
           error = errorSubject
             (releaseActiveRequest options (s\<lparr> lastRequestMessages := Some base \<rparr>)) \<rparr>,
         \<lparr> messages = messagesSubject s, status = Loading, error = None \<rparr>] @ post) \<and>
   (errorSubject (runCompletion options base aid s) = None \<or>
    errorSubject (runCompletion options base aid s) \<in>
      Some ` set (completionFailures options base (requests s)))"
proof
  have "prefix (stateSubject (prepared options base aid s))
      (stateSubject (runCompletion options base aid s))"
    by (rule runCompletion_log)
  then show "\<exists>post. stateSubject (runCompletion options base aid s) =
      stateSubject (releaseActiveRequest options (s\<lparr> lastRequestMessages := Some base \<rparr>)) @
        [\<lparr> messages = messagesSubject s, status = Loading,
           error = errorSubject
             (releaseActiveRequest options (s\<lparr> lastRequestMessages := Some base \<rparr>)) \<rparr>,
         \<lparr> messages = messagesSubject s, status = Loading, error = None \<rparr>] @ post"
    by (simp add: prefix_def prepared_log)
  show "errorSubject (runCompletion options base aid s) = None \<or>
    errorSubject (runCompletion options base aid s) \<in>
      Some ` set (completionFailures options base (requests s))"
    by (rule runCompletion_error_origin)
qed

subsection \<open>Examples of send and retryLast\<close>

lemma trim_example [simp]: "trim ''Retry this'' = ''Retry this''"
  by (simp add: trim_def isWhiteSpace_def)

lemma msg_id_appendText [simp]: "msg_id (appendText aid d m) = msg_id m"
  by (simp add: appendText_def)

lemma create_fields [simp]:
  "messagesSubject (createChatController options) =
     (case initialMessages options of None \<Rightarrow> [] | Some ms \<Rightarrow> ms)"
  "statusSubject (createChatController options) = Idle"
  "errorSubject (createChatController options) = None"
  "activeAbortController (createChatController options) = None"
  "activeSubscription (createChatController options) = None"
  "lastRequestMessages (createChatController options) = None"
  "requests (createChatController options) = 0"
  "created (createChatController options) = 0"
  by (simp_all add: createChatController_def Let_def)

lemma send_frame:
  assumes "trim c \<noteq> []"
  shows "lastRequestMessages (send options c mt s) =
      Some (messagesSubject s @ [newMessage options User (trim c) mt (created s)])"
    and "created (send options c mt s) = Suc (Suc (created s))"
    and "requests (send options c mt s) = Suc (requests s)"
    and "activeSubscription (send options c mt s) = Some (requests s)"
  by (simp_all add: send_eq [OF assms])

text \<open>
  The claim as it is written says that no message is ever deleted. After \<^verbatim>\<open>send\<close> the list
  holds the messages with ids \<open>m\<close> and \<open>mm\<close>; after \<^verbatim>\<open>retryLast\<close> it holds \<open>m\<close> and \<open>mmm\<close>:
  the assistant message \<open>mm\<close> is gone.
\<close>

theorem retryLast_replaces_counterexample:
  "map msg_id (messagesSubject
      (run retryOptions [Send ''Retry this'' None] (createChatController retryOptions)))
     = [''m'', ''mm''] \<and>
   map msg_id (messagesSubject
      (run retryOptions [Send ''Retry this'' None, RetryLast] (createChatController retryOptions)))
     = [''m'', ''mmm'']"
proof -
  let ?s0 = "createChatController retryOptions"
  let ?s1 = "send retryOptions ''Retry this'' None ?s0"
  have t: "trim ''Retry this'' \<noteq> []" by simp
  have ids: "idGenerator retryOptions 0 = ''m''" "idGenerator retryOptions (Suc 0) = ''mm''"
    "idGenerator retryOptions (Suc (Suc 0)) = ''mmm''"
    by (simp_all add: retryOptions_def exampleOptions_def exampleId_def)
  have init: "initialMessages retryOptions = None"
    by (simp add: retryOptions_def exampleOptions_def)
  obtain d1 where d1: "messagesSubject ?s1 =
     map (appendText (idGenerator retryOptions (Suc (created ?s0))) d1)
       (messagesSubject ?s0 @
          [newMessage retryOptions User (trim ''Retry this'') None (created ?s0),
           newMessage retryOptions Assistant [] None (Suc (created ?s0))])"
    using send_messages [OF t] by blast
  have l: "lastRequestMessages ?s1 = Some [newMessage retryOptions User ''Retry this'' None 0]"
    using send_frame(1) [OF t, of retryOptions None ?s0] by (simp add: init)
  obtain d2 where d2: "messagesSubject (retryLast retryOptions ?s1) =
     map (appendText (idGenerator retryOptions (created ?s1)) d2)
       ([newMessage retryOptions User ''Retry this'' None 0] @
        [newMessage retryOptions Assistant [] None (created ?s1)])"
    using retryLast_messages [OF l] by blast
  have c1: "created ?s1 = Suc (Suc 0)"
    using send_frame(2) [OF t, of retryOptions None ?s0] by simp
  have "map msg_id (messagesSubject ?s1) = [''m'', ''mm'']"
    by (simp add: d1 init newMessage_def ids)
  moreover have "map msg_id (messagesSubject (retryLast retryOptions ?s1)) = [''m'', ''mmm'']"
    by (simp add: d2 c1 newMessage_def ids)
  ultimately show ?thesis by (simp add: run_def)
qed

theorem messages_length_witness:
  "length (messagesSubject
      (run retryOptions [Send ''Retry this'' None] (createChatController retryOptions)))
     \<le> length (messagesSubject
      (run retryOptions ([Send ''Retry this'' None] @ [RetryLast]) (createChatController retryOptions))) \<and>
   prefix
     (stateSubject (releaseActiveRequest retryOptions (createChatController retryOptions)) @
        [\<lparr> messages = messagesSubject (createChatController retryOptions) @
             [newMessage retryOptions User (trim ''Retry this'') None
                (created (createChatController retryOptions)),
              newMessage retryOptions Assistant [] None
                (Suc (created (createChatController retryOptions)))],
           status = statusSubject (releaseActiveRequest retryOptions (createChatController retryOptions)),
           error = errorSubject (releaseActiveRequest retryOptions (createChatController retryOptions)) \<rparr>])
     (stateSubject (send retryOptions ''Retry this'' None (createChatController retryOptions))) \<and>
   length (messagesSubject (send retryOptions ''Retry this'' None (createChatController retryOptions)))
     = length (messagesSubject (createChatController retryOptions)) + 2 \<and>
   map role (messagesSubject (send retryOptions ''Retry this'' None (createChatController retryOptions)))
     = map role (messagesSubject (createChatController retryOptions)) @ [User, Assistant] \<and>
   (\<exists>d. messagesSubject
          (retryLast retryOptions
             (send retryOptions ''Retry this'' None (createChatController retryOptions))) =
        map (appendText
               (idGenerator retryOptions
                  (created (send retryOptions ''Retry this'' None (createChatController retryOptions)))) d)
          ([newMessage retryOptions User ''Retry this'' None 0] @
           [newMessage retryOptions Assistant [] None
              (created (send retryOptions ''Retry this'' None (createChatController retryOptions)))]))"
proof -
  let ?s0 = "createChatController retryOptions"
  let ?s1 = "send retryOptions ''Retry this'' None ?s0"
  have t: "trim ''Retry this'' \<noteq> []" by simp
  have init: "initialMessages retryOptions = None"
    by (simp add: retryOptions_def exampleOptions_def)
  have l: "lastRequestMessages ?s1 = Some [newMessage retryOptions User ''Retry this'' None 0]"
    using send_frame(1) [OF t, of retryOptions None ?s0] by (simp add: init)
  show ?thesis
    using messages_length_never_decreases
        [of retryOptions "[Send ''Retry this'' None]" "[RetryLast]" "''Retry this''" ?s0 None]
      messages_length_never_decreases
        [of retryOptions "[]" "[]" "[]" ?s1 None "[newMessage retryOptions User ''Retry this'' None 0]"]
      t l
    by blast
qed

text \<open>
  Claim C4. A \<^verbatim>\<open>send\<close> whose content trims to a non-empty text emits, right after
  releasing the previous request, one state whose list is the old list followed by the
  user message (trimmed content, the meta only when it has a key) and the empty
  assistant placeholder: both are appended in one update. When \<^verbatim>\<open>send\<close> returns the list
  is two longer, the earlier ids are as before, the message before the last has role
  user and, when the two fresh ids differ, is the user message unchanged, and the last
  message is the placeholder with what the completion has streamed into it so far.
\<close>

theorem send_appends_user_and_placeholder:
  assumes "trim c \<noteq> []"
  shows
   "prefix
      (stateSubject (releaseActiveRequest options s) @
         [\<lparr> messages = messagesSubject s @
              [\<lparr> msg_id = idGenerator options (created s), role = User, content = trim c,
                  createdAt = now options (created s),
                  meta = (case mt of None \<Rightarrow> None
                          | Some kvs \<Rightarrow> if kvs = [] then None else Some kvs) \<rparr>,
               \<lparr> msg_id = idGenerator options (Suc (created s)), role = Assistant, content = [],
                  createdAt = now options (Suc (created s)), meta = None \<rparr>],
            status = statusSubject (releaseActiveRequest options s),
            error = errorSubject (releaseActiveRequest options s) \<rparr>])
      (stateSubject (send options c mt s)) \<and>
    length (messagesSubject (send options c mt s)) = length (messagesSubject s) + 2 \<and>
    take (length (messagesSubject s)) (map msg_id (messagesSubject (send options c mt s))) =
      map msg_id (messagesSubject s) \<and>
    role (messagesSubject (send options c mt s) ! length (messagesSubject s)) = User \<and>
    (idGenerator options (created s) \<noteq> idGenerator options (Suc (created s)) \<longrightarrow>
       messagesSubject (send options c mt s) ! length (messagesSubject s) =
         \<lparr> msg_id = idGenerator options (created s), role = User, content = trim c,
           createdAt = now options (created s),
           meta = (case mt of None \<Rightarrow> None
                   | Some kvs \<Rightarrow> if kvs = [] then None else Some kvs) \<rparr>) \<and>
    (\<exists>d. last (messagesSubject (send options c mt s)) =
       \<lparr> msg_id = idGenerator options (Suc (created s)), role = Assistant, content = d,
         createdAt = now options (Suc (created s)), meta = None \<rparr>)"
proof -
  let ?u = "newMessage options User (trim c) mt (created s)"
  let ?a = "newMessage options Assistant [] None (Suc (created s))"
  let ?aid = "idGenerator options (Suc (created s))"
  obtain d where d: "messagesSubject (send options c mt s) =
      map (appendText ?aid d) (messagesSubject s @ [?u, ?a])"
    using send_messages [OF assms] by blast
  have e: "prefix
      (stateSubject (releaseActiveRequest options s) @
         [\<lparr> messages = messagesSubject s @ [?u, ?a],
            status = statusSubject (releaseActiveRequest options s),
            error = errorSubject (releaseActiveRequest options s) \<rparr>])
      (stateSubject (send options c mt s))"
    using assms by (rule send_emission)
  have n: "messagesSubject (send options c mt s) ! length (messagesSubject s) = appendText ?aid d ?u"
    by (simp add: d nth_append)
  have l: "last (messagesSubject (send options c mt s)) = appendText ?aid d ?a"
    by (simp add: d)
  have "last (messagesSubject (send options c mt s)) =
       \<lparr> msg_id = idGenerator options (Suc (created s)), role = Assistant, content = d,
         createdAt = now options (Suc (created s)), meta = None \<rparr>"
    by (simp add: l appendText_def newMessage_def)
  then have ex: "\<exists>d. last (messagesSubject (send options c mt s)) =
       \<lparr> msg_id = idGenerator options (Suc (created s)), role = Assistant, content = d,
         createdAt = now options (Suc (created s)), meta = None \<rparr>"
    by blast
  have ids: "take (length (messagesSubject s)) (map msg_id (messagesSubject (send options c mt s))) =
      map msg_id (messagesSubject s)"
    by (simp add: d comp_def)
  have ln: "length (messagesSubject (send options c mt s)) = length (messagesSubject s) + 2"
    by (simp add: d)
  have rl: "role (messagesSubject (send options c mt s) ! length (messagesSubject s)) = User"
    by (simp add: n appendText_def newMessage_def)
  have un: "idGenerator options (created s) \<noteq> idGenerator options (Suc (created s)) \<longrightarrow>
       messagesSubject (send options c mt s) ! length (messagesSubject s) =
         \<lparr> msg_id = idGenerator options (created s), role = User, content = trim c,
           createdAt = now options (created s),
           meta = (case mt of None \<Rightarrow> None
                   | Some kvs \<Rightarrow> if kvs = [] then None else Some kvs) \<rparr>"
    by (simp add: n appendText_def newMessage_def)
  have e': "prefix
      (stateSubject (releaseActiveRequest options s) @
         [\<lparr> messages = messagesSubject s @
              [\<lparr> msg_id = idGenerator options (created s), role = User, content = trim c,
                  createdAt = now options (created s),
                  meta = (case mt of None \<Rightarrow> None
                          | Some kvs \<Rightarrow> if kvs = [] then None else Some kvs) \<rparr>,
               \<lparr> msg_id = idGenerator options (Suc (created s)), role = Assistant, content = [],
                  createdAt = now options (Suc (created s)), meta = None \<rparr>],
            status = statusSubject (releaseActiveRequest options s),
            error = errorSubject (releaseActiveRequest options s) \<rparr>])
      (stateSubject (send options c mt s))"
    using e by (simp add: newMessage_def)
  show ?thesis
    using e' ln ids rl un ex by blast
qed

theorem send_appends_witness:
  "prefix
      (stateSubject (releaseActiveRequest metaOptions (createChatController metaOptions)) @
         [\<lparr> messages =
              [\<lparr> msg_id = ''m'', role = User, content = ''hello'', createdAt = 0,
                  meta = Some [(''source'', 7)] \<rparr>,
               \<lparr> msg_id = ''mm'', role = Assistant, content = [], createdAt = 1, meta = None \<rparr>],
            status = statusSubject (releaseActiveRequest metaOptions (createChatController metaOptions)),
            error = errorSubject (releaseActiveRequest metaOptions (createChatController metaOptions)) \<rparr>])
      (stateSubject (send metaOptions ''  hello '' (Some [(''source'', 7)]) (createChatController metaOptions))) \<and>
    length (messagesSubject (send metaOptions ''  hello '' (Some [(''source'', 7)]) (createChatController metaOptions))) = 2 \<and>
    messagesSubject (send metaOptions ''  hello '' (Some [(''source'', 7)]) (createChatController metaOptions)) ! 0 =
      \<lparr> msg_id = ''m'', role = User, content = ''hello'', createdAt = 0,
        meta = Some [(''source'', 7)] \<rparr> \<and>
    (\<exists>d. last (messagesSubject (send metaOptions ''  hello '' (Some [(''source'', 7)]) (createChatController metaOptions))) =
       \<lparr> msg_id = ''mm'', role = Assistant, content = d, createdAt = 1, meta = None \<rparr>)"
proof -
  have t: "trim ''  hello '' = ''hello''"
    by (simp add: trim_def isWhiteSpace_def)
  then have t': "trim ''  hello '' \<noteq> []" by simp
  have o: "idGenerator metaOptions 0 = ''m''" "idGenerator metaOptions (Suc 0) = ''mm''"
    "now metaOptions 0 = 0" "now metaOptions (Suc 0) = 1" "initialMessages metaOptions = None"
    by (simp_all add: metaOptions_def exampleOptions_def exampleId_def)
  show ?thesis
    using send_appends_user_and_placeholder
      [OF t', of metaOptions "createChatController metaOptions" "Some [(''source'', 7)]"]
    by (simp add: t o)
qed

subsection \<open>Completion and failure during subscribe\<close>






lemma trim_hi [simp]: "trim ''hi'' = ''hi''"
  by (simp add: trim_def isWhiteSpace_def)

lemma example_fields [simp]:
  "model (exampleOptions m) = m"
  "idGenerator (exampleOptions m) 0 = ''m''"
  "idGenerator (exampleOptions m) (Suc 0) = ''mm''"
  "idGenerator (exampleOptions m) (Suc (Suc 0)) = ''mmm''"
  "now (exampleOptions m) k = real k"
  "initialMessages (exampleOptions m) = None"
  by (simp_all add: exampleOptions_def exampleId_def)

lemma send_example:
  "send (exampleOptions m) ''hi'' None (createChatController (exampleOptions m)) =
     runCompletion (exampleOptions m)
       [\<lparr> msg_id = ''m'', role = User, content = ''hi'', createdAt = 0, meta = None \<rparr>]
       ''mm''
       (setMessages
          [\<lparr> msg_id = ''m'', role = User, content = ''hi'', createdAt = 0, meta = None \<rparr>,
           \<lparr> msg_id = ''mm'', role = Assistant, content = [], createdAt = 1, meta = None \<rparr>]
          ((releaseActiveRequest (exampleOptions m) (createChatController (exampleOptions m)))
             \<lparr> created := Suc (Suc 0) \<rparr>))"
proof -
  have "trim ''hi'' \<noteq> []" by simp
  from send_eq [OF this, of "exampleOptions m" None "createChatController (exampleOptions m)"]
  show ?thesis by (simp add: newMessage_def)
qed

lemma runCompletion_silent:
  assumes "(\<exists>a. model options = Adapter a \<and> complete a (requests s) (adapterRequest base) = []) \<or>
    (\<exists>lm. model options = LanguageModel lm \<and>
       doStream lm (requests s) (modelRequest options lm base) = [])"
  shows "runCompletion options base aid s =
    (prepared options base aid s)\<lparr> activeSubscription := Some (requests s) \<rparr>"
  using assms by (auto simp add: runCompletion_eq deliverCompletion_def)

lemma send_example_silent:
  assumes "m = exampleAdapter [] \<or> m = LanguageModel (exampleLanguageModel [])"
  shows "requests (send (exampleOptions m) ''hi'' None (createChatController (exampleOptions m))) = Suc 0"
    and "\<not> subscriberClosed
      (send (exampleOptions m) ''hi'' None (createChatController (exampleOptions m))) 0"
proof -
  let ?O = "exampleOptions m"
  let ?base = "[\<lparr> msg_id = ''m'', role = User, content = ''hi'', createdAt = 0,
                  meta = (None :: (string \<times> nat) list option) \<rparr>]"
  let ?pre = "setMessages
          [\<lparr> msg_id = ''m'', role = User, content = ''hi'', createdAt = 0, meta = None \<rparr>,
           \<lparr> msg_id = ''mm'', role = Assistant, content = [], createdAt = 1, meta = None \<rparr>]
          ((releaseActiveRequest ?O (createChatController ?O))\<lparr> created := Suc (Suc 0) \<rparr>)"
  have "send ?O ''hi'' None (createChatController ?O) =
      (prepared ?O ?base ''mm'' ?pre)\<lparr> activeSubscription := Some 0 \<rparr>"
    using runCompletion_silent [of ?O ?pre ?base "''mm''"] assms
    by (auto simp add: send_example exampleAdapter_def exampleLanguageModel_def)
  then show "requests (send ?O ''hi'' None (createChatController ?O)) = Suc 0"
    and "\<not> subscriberClosed (send ?O ''hi'' None (createChatController ?O)) 0"
    using prepared_fields(11) [of ?O ?base "''mm''" ?pre] by simp_all
qed


lemma fold_notifyChunk_closed:
  "subscriberClosed s n \<Longrightarrow> fold (notifyChunk release n) xs s = s"
  by (induction xs) (simp_all add: notifyChunk_closed)

lemma fold_notifyEvent_closed:
  "subscriberClosed s n \<Longrightarrow> fold (notifyEvent release n) xs s = s"
  by (induction xs) (simp_all add: notifyEvent_closed)

lemma fold_chunks_open:
  assumes "model options = Adapter a"
  shows "activeSubscription s = None \<Longrightarrow> \<not> subscriberClosed s n \<Longrightarrow>
    \<not> subscriberClosed (fold (notifyChunk (releaseActiveRequest options) n) (map OnNext cs) s) n \<and>
    activeSubscription (fold (notifyChunk (releaseActiveRequest options) n) (map OnNext cs) s) = None"
proof (induction cs arbitrary: s)
  case Nil
  then show ?case by simp
next
  case (Cons c cs)
  let ?t = "notifyChunk (releaseActiveRequest options) n (OnNext c) s"
  note step = notifyChunk_next [OF assms Cons.prems(2), of c]
  have "activeSubscription ?t = None" using step(6) Cons.prems(1) by simp
  moreover have "\<not> subscriberClosed ?t n" using step(4) Cons.prems by simp
  ultimately show ?case using Cons.IH [of ?t] by simp
qed

lemma notifyChunk_failedWith:
  assumes "model options = Adapter a" and "\<not> subscriberClosed s n"
  shows "failedWith e n (notifyChunk (releaseActiveRequest options) n (OnError e) s)"
  using notifyChunk_error [OF assms, of e]
  by (simp add: failedWith_def getState_def)

lemma notifyEvent_failedWith:
  assumes "activeAbortController s = None \<or> activeAbortController s = Some n"
    and "\<not> subscriberClosed s n"
  shows "failedWith e n (notifyEvent (releaseActiveRequest options) n (OnError e) s)"
  using notifyEvent_error [OF assms, of options e]
  by (simp add: failedWith_def getState_def)

lemma failedWith_assign:
  "failedWith e n s \<Longrightarrow> failedWith e n (s\<lparr> activeSubscription := x \<rparr>)"
  by (simp add: failedWith_def getState_def)

lemma adapter_sync_failure:
  assumes m: "model options = Adapter a"
    and sync: "complete a (requests s) (adapterRequest base) = map OnNext cs @ OnError e # rest"
  shows "failedWith e (requests s) (runCompletion options base aid s)"
proof -
  let ?n = "requests s"
  let ?rel = "releaseActiveRequest options"
  let ?p = "prepared options base aid s"
  let ?q = "fold (notifyChunk ?rel ?n) (map OnNext cs) ?p"
  let ?r = "notifyChunk ?rel ?n (OnError e) ?q"
  have qopen: "\<not> subscriberClosed ?q ?n"
    using fold_chunks_open [OF m, of ?p ?n cs] by simp
  have f: "failedWith e ?n ?r"
    using m qopen by (rule notifyChunk_failedWith)
  then have "subscriberClosed ?r ?n" by (simp add: failedWith_def)
  then have "fold (notifyChunk ?rel ?n) rest ?r = ?r" by (rule fold_notifyChunk_closed)
  then have "runCompletion options base aid s = ?r\<lparr> activeSubscription := Some ?n \<rparr>"
    by (simp add: runCompletion_eq deliverCompletion_def m sync)
  then show ?thesis using f by (simp add: failedWith_assign)
qed

lemma model_sync_failure:
  assumes m: "model options = LanguageModel lm"
    and sync: "doStream lm (requests s) (modelRequest options lm base) =
      map OnNext evs @ OnError e # rest"
  shows "failedWith e (requests s) (runCompletion options base aid s)"
proof -
  let ?n = "requests s"
  let ?rel = "releaseActiveRequest options"
  let ?p = "prepared options base aid s"
  let ?q = "fold (notifyEvent ?rel ?n) (map OnNext evs) ?p"
  let ?r = "notifyEvent ?rel ?n (OnError e) ?q"
  have popen: "\<not> subscriberClosed ?p ?n" by simp
  note f1 = fold_events [OF popen, of ?rel evs]
  have qopen: "\<not> subscriberClosed ?q ?n" using f1 by simp
  have qaac: "activeAbortController ?q = None \<or> activeAbortController ?q = Some ?n"
    using f1 by simp
  have f: "failedWith e ?n ?r"
    using qaac qopen by (rule notifyEvent_failedWith)
  then have "subscriberClosed ?r ?n" by (simp add: failedWith_def)
  then have "fold (notifyEvent ?rel ?n) rest ?r = ?r" by (rule fold_notifyEvent_closed)
  then have "runCompletion options base aid s = ?r\<lparr> activeSubscription := Some ?n \<rparr>"
    by (simp add: runCompletion_eq deliverCompletion_def m sync)
  then show ?thesis using f by (simp add: failedWith_assign)
qed

lemma consistent_open_controller:
  assumes "consistent s" and "n < requests s" and "\<not> subscriberClosed s n"
  shows "activeAbortController s = None \<or> activeAbortController s = Some n"
proof (cases "activeAbortController s")
  case None
  then show ?thesis by simp
next
  case (Some c)
  have "activeSubscription s = Some n"
    using assms unfolding consistent_def by blast
  moreover have "activeSubscription s = Some c"
    using assms(1) Some unfolding consistent_def by blast
  ultimately show ?thesis using Some by simp
qed

text \<open>
  Claim C9. When the sequence of a completion fails with \<open>e\<close>, the status becomes error,
  the error in the state is \<open>e\<close> itself, and the subscription is closed and released.
  This holds for a failure that reaches an open subscriber of a controller in any state
  reachable from a new controller, and for a failure delivered during subscribe after
  any number of values; on both paths.
\<close>

theorem failure_sets_error_state:
  "(n < requests (run options ops (createChatController options)) \<and>
    \<not> subscriberClosed (run options ops (createChatController options)) n \<longrightarrow>
      (model options = Adapter a \<longrightarrow>
         failedWith e n
           (step options (AdapterEmits n (OnError e))
              (run options ops (createChatController options))) \<and>
         activeSubscription
           (step options (AdapterEmits n (OnError e))
              (run options ops (createChatController options))) = None \<and>
         messagesSubject
           (step options (AdapterEmits n (OnError e))
              (run options ops (createChatController options))) =
           messagesSubject (run options ops (createChatController options))) \<and>
      (model options = LanguageModel lm \<longrightarrow>
         failedWith e n
           (step options (ModelEmits n (OnError e))
              (run options ops (createChatController options))) \<and>
         activeSubscription
           (step options (ModelEmits n (OnError e))
              (run options ops (createChatController options))) = None \<and>
         messagesSubject
           (step options (ModelEmits n (OnError e))
              (run options ops (createChatController options))) =
           messagesSubject (run options ops (createChatController options)))) \<and>
   (model options = Adapter a \<and>
    complete a (requests s) (adapterRequest base) = map OnNext cs @ OnError e # rest \<longrightarrow>
      failedWith e (requests s) (runCompletion options base aid s)) \<and>
   (model options = LanguageModel lm \<and>
    doStream lm (requests s) (modelRequest options lm base) = map OnNext evs @ OnError e # rest' \<longrightarrow>
      failedWith e (requests s) (runCompletion options base aid s))"
proof (intro conjI impI)
  let ?R = "run options ops (createChatController options)"
  assume h: "n < requests ?R \<and> \<not> subscriberClosed ?R n" and m: "model options = Adapter a"
  have nl: "\<not> isLanguageModel (model options)" using m by simp
  have eq: "step options (AdapterEmits n (OnError e)) ?R =
      notifyChunk (releaseActiveRequest options) n (OnError e) ?R"
    using nl h by simp
  have o: "\<not> subscriberClosed ?R n" using h by simp
  show "failedWith e n (step options (AdapterEmits n (OnError e)) ?R)"
    unfolding eq by (rule notifyChunk_failedWith [OF m o])
  show "activeSubscription (step options (AdapterEmits n (OnError e)) ?R) = None"
    unfolding eq by (rule notifyChunk_error(6) [OF m o])
  show "messagesSubject (step options (AdapterEmits n (OnError e)) ?R) = messagesSubject ?R"
    unfolding eq by (rule notifyChunk_error(1) [OF m o])
next
  let ?R = "run options ops (createChatController options)"
  assume h: "n < requests ?R \<and> \<not> subscriberClosed ?R n" and m: "model options = LanguageModel lm"
  have il: "isLanguageModel (model options)" using m by simp
  have c: "consistent ?R" by (simp add: consistent_run consistent_create)
  have o: "\<not> subscriberClosed ?R n" using h by simp
  have a: "activeAbortController ?R = None \<or> activeAbortController ?R = Some n"
    using consistent_open_controller [OF c] h by blast
  have eq: "step options (ModelEmits n (OnError e)) ?R =
      notifyEvent (releaseActiveRequest options) n (OnError e) ?R"
    using il h by simp
  show "failedWith e n (step options (ModelEmits n (OnError e)) ?R)"
    unfolding eq by (rule notifyEvent_failedWith [OF a o])
  show "activeSubscription (step options (ModelEmits n (OnError e)) ?R) = None"
    unfolding eq by (rule notifyEvent_error(6) [OF a o])
  show "messagesSubject (step options (ModelEmits n (OnError e)) ?R) = messagesSubject ?R"
    unfolding eq by (rule notifyEvent_error(1) [OF a o])
next
  assume "model options = Adapter a \<and>
    complete a (requests s) (adapterRequest base) = map OnNext cs @ OnError e # rest"
  then show "failedWith e (requests s) (runCompletion options base aid s)"
    using adapter_sync_failure by blast
next
  assume "model options = LanguageModel lm \<and>
    doStream lm (requests s) (modelRequest options lm base) = map OnNext evs @ OnError e # rest'"
  then show "failedWith e (requests s) (runCompletion options base aid s)"
    using model_sync_failure by blast
qed

subsection \<open>cancel\<close>

lemma cancel_model_in_flight:
  assumes "model options = LanguageModel lm" and "activeAbortController s = Some n"
    and "\<not> subscriberClosed s n" and "\<not> signalAborted s n"
  shows "errorSubject (cancel options s) = Some AbortError"
    and "statusSubject (cancel options s) = Cancelled"
    and "stateSubject (cancel options s) =
      stateSubject s @
        [\<lparr> messages = messagesSubject s, status = statusSubject s, error = Some AbortError \<rparr>,
         \<lparr> messages = messagesSubject s, status = Error, error = Some AbortError \<rparr>,
         \<lparr> messages = messagesSubject s, status = Cancelled, error = Some AbortError \<rparr>]"
  using assms
  by (simp_all add: cancel_def releaseActiveRequest_def releaseWith_def abort_def
      abortListeners_def notifyEvent_def onError_def Let_def split: option.splits)

lemma create_log [simp]:
  "stateSubject (createChatController options) =
     [\<lparr> messages = (case initialMessages options of None \<Rightarrow> [] | Some ms \<Rightarrow> ms),
        status = Idle, error = None \<rparr>]"
  by (simp add: createChatController_def Let_def)

lemma cancel_adapter:
  assumes "model options = Adapter a"
  shows "errorSubject (cancel options s) = errorSubject s"
    and "statusSubject (cancel options s) = Cancelled"
    and "messagesSubject (cancel options s) = messagesSubject s"
  using assms by (simp_all add: cancel_def)

text \<open>
  With a low-level adapter, \<^verbatim>\<open>cancel\<close> on any reachable controller sets the status to
  cancelled, leaves error and messages as they are, and whatever an adapter emits
  afterwards changes nothing.
\<close>

lemma cancel_adapter_quiescent:
  assumes "model options = Adapter a"
  shows "statusSubject (cancel options (run options ops (createChatController options))) = Cancelled"
    and "errorSubject (cancel options (run options ops (createChatController options))) =
      errorSubject (run options ops (createChatController options))"
    and "messagesSubject (cancel options (run options ops (createChatController options))) =
      messagesSubject (run options ops (createChatController options))"
    and "step options (AdapterEmits n x)
        (cancel options (run options ops (createChatController options))) =
      cancel options (run options ops (createChatController options))"
proof -
  let ?R = "run options ops (createChatController options)"
  show "statusSubject (cancel options ?R) = Cancelled"
    and "errorSubject (cancel options ?R) = errorSubject ?R"
    and "messagesSubject (cancel options ?R) = messagesSubject ?R"
    using cancel_adapter [OF assms] by simp_all
  have c: "consistent (cancel options ?R)"
    by (simp add: consistent_cancel consistent_run consistent_create)
  have "activeSubscription (cancel options ?R) = None"
    by (simp add: cancel_def)
  then have "n < requests (cancel options ?R) \<Longrightarrow> subscriberClosed (cancel options ?R) n"
    using c unfolding consistent_def by auto
  then show "step options (AdapterEmits n x) (cancel options ?R) = cancel options ?R"
    by (auto simp add: notifyChunk_closed)
qed

text \<open>
  Claim C2 at a concrete input, on the language-model path: a model that never emits,
  \<^verbatim>\<open>send\<close>, then \<^verbatim>\<open>cancel\<close>. The error is null before \<^verbatim>\<open>cancel\<close> and the abort error
  after it, and \<^verbatim>\<open>state$\<close> has shown the status error before cancelled: \<^verbatim>\<open>abort()\<close> runs
  before \<^verbatim>\<open>unsubscribe()\<close>, so the failure \<^verbatim>\<open>applyAbortSignal\<close> raises still reaches the
  error callback. With a low-level adapter the error stays null.
\<close>

theorem cancel_language_model_sets_error:
  "errorSubject
     (run (exampleOptions (LanguageModel (exampleLanguageModel []))) [Send ''hi'' None]
        (createChatController (exampleOptions (LanguageModel (exampleLanguageModel [])))))
     = None \<and>
   errorSubject
     (run (exampleOptions (LanguageModel (exampleLanguageModel []))) [Send ''hi'' None, Cancel]
        (createChatController (exampleOptions (LanguageModel (exampleLanguageModel [])))))
     = Some AbortError \<and>
   statusSubject
     (run (exampleOptions (LanguageModel (exampleLanguageModel []))) [Send ''hi'' None, Cancel]
        (createChatController (exampleOptions (LanguageModel (exampleLanguageModel [])))))
     = Cancelled \<and>
   map status (stateSubject
     (run (exampleOptions (LanguageModel (exampleLanguageModel []))) [Send ''hi'' None, Cancel]
        (createChatController (exampleOptions (LanguageModel (exampleLanguageModel []))))))
     = [Idle, Idle, Loading, Loading, Loading, Error, Cancelled] \<and>
   errorSubject
     (run (exampleOptions (exampleAdapter [])) [Send ''hi'' None, Cancel]
        (createChatController (exampleOptions (exampleAdapter []))))
     = None"
proof -
  let ?lm = "exampleLanguageModel [] :: nat LanguageModel"
  let ?O = "exampleOptions (LanguageModel ?lm)"
  let ?A = "exampleOptions (exampleAdapter [])"
  let ?base = "[\<lparr> msg_id = ''m'', role = User, content = ''hi'', createdAt = 0,
                  meta = (None :: (string \<times> nat) list option) \<rparr>]"
  let ?pre = "\<lambda>m. setMessages
          [\<lparr> msg_id = ''m'', role = User, content = ''hi'', createdAt = 0, meta = None \<rparr>,
           \<lparr> msg_id = ''mm'', role = Assistant, content = [], createdAt = 1, meta = None \<rparr>]
          ((releaseActiveRequest (exampleOptions m) (createChatController (exampleOptions m)))
             \<lparr> created := Suc (Suc 0) \<rparr>)"
  let ?s1 = "send ?O ''hi'' None (createChatController ?O)"
  have m: "model ?O = LanguageModel ?lm" by simp
  have idle: "releaseActiveRequest ?O (createChatController ?O) = createChatController ?O"
    by (simp add: release_idle)
  have s1: "?s1 = (prepared ?O ?base ''mm'' (?pre (LanguageModel ?lm)))
      \<lparr> activeSubscription := Some 0 \<rparr>"
    using runCompletion_silent [of ?O "?pre (LanguageModel ?lm)" ?base "''mm''"]
    by (simp add: send_example exampleLanguageModel_def)
  have e1: "errorSubject ?s1 = None" by (simp add: s1)
  have a1: "activeAbortController ?s1 = Some 0" by (simp add: s1)
  have o1: "\<not> subscriberClosed ?s1 0"
    using prepared_fields(11) [of ?O ?base "''mm''" "?pre (LanguageModel ?lm)"] by (simp add: s1)
  have g1: "\<not> signalAborted ?s1 0"
    using prepared_fields(10) [of ?O ?base "''mm''" "?pre (LanguageModel ?lm)"] by (simp add: s1)
  note c = cancel_model_in_flight [OF m a1 o1 g1]
  have log1: "map status (stateSubject ?s1) = [Idle, Idle, Loading, Loading]"
    by (simp add: s1 prepared_log idle release_idle)
  have st1: "statusSubject ?s1 = Loading" by (simp add: s1)
  have log2: "map status (stateSubject (cancel ?O ?s1)) =
      [Idle, Idle, Loading, Loading, Loading, Error, Cancelled]"
    by (simp add: c(3) log1 st1)
  have ad: "errorSubject (cancel ?A (send ?A ''hi'' None (createChatController ?A))) = None"
  proof -
    have ma: "model ?A = Adapter \<lparr> complete = (\<lambda>n request. []) \<rparr>"
      by (simp add: exampleAdapter_def)
    have "send ?A ''hi'' None (createChatController ?A) =
        (prepared ?A ?base ''mm'' (?pre (exampleAdapter [])))\<lparr> activeSubscription := Some 0 \<rparr>"
      using runCompletion_silent [of ?A "?pre (exampleAdapter [])" ?base "''mm''"] ma
      by (simp add: send_example)
    then show ?thesis using cancel_adapter(1) [OF ma] by simp
  qed
  show ?thesis
    using e1 c(1) c(2) log2 ad by (simp add: run_def)
qed

subsection \<open>The done flag\<close>

text \<open>
  A done chunk that reaches the open subscriber of a reachable controller, that is after
  \<^verbatim>\<open>subscribe\<close> has returned, has its text appended, sets the status to idle and closes
  the subscriber.
\<close>

lemma done_after_subscribe_closes:
  assumes "model options = Adapter a"
    and "n < requests (run options ops (createChatController options))"
    and "\<not> subscriberClosed (run options ops (createChatController options)) n"
    and "chunkIsDone chunk"
  shows "statusSubject
      (step options (AdapterEmits n (OnNext chunk))
         (run options ops (createChatController options))) = Idle"
    and "subscriberClosed
      (step options (AdapterEmits n (OnNext chunk))
         (run options ops (createChatController options))) n"
    and "messagesSubject
      (step options (AdapterEmits n (OnNext chunk))
         (run options ops (createChatController options))) =
      map (appendText
             (assistantMessageId (run options ops (createChatController options)) n)
             (chunkToText chunk))
        (messagesSubject (run options ops (createChatController options)))"
proof -
  let ?R = "run options ops (createChatController options)"
  have c: "consistent ?R" by (simp add: consistent_run consistent_create)
  have act: "activeSubscription ?R = Some n"
    using c assms(2,3) unfolding consistent_def by blast
  have eq: "step options (AdapterEmits n (OnNext chunk)) ?R =
      notifyChunk (releaseActiveRequest options) n (OnNext chunk) ?R"
    using assms(1,2) by simp
  note f = notifyChunk_next [OF assms(1,3), of chunk]
  show "statusSubject (step options (AdapterEmits n (OnNext chunk)) ?R) = Idle"
    unfolding eq using f(2) assms(4) by simp
  show "subscriberClosed (step options (AdapterEmits n (OnNext chunk)) ?R) n"
    unfolding eq using f(4) assms(4) act by simp
  show "messagesSubject (step options (AdapterEmits n (OnNext chunk)) ?R) =
      map (appendText (assistantMessageId ?R n) (chunkToText chunk)) (messagesSubject ?R)"
    unfolding eq using f(1) by simp
qed

text \<open>
  Claim C6 at a concrete input. The adapter delivers the chunks \<open>Hello\<close> and \<open> World\<close>, the
  second with the done flag, while the controller subscribes: the content is
  \<open>Hello World\<close> and the status idle, but the subscriber stays open, since
  \<open>activeSubscription\<close> is assigned only after \<^verbatim>\<open>subscribe\<close> returns; a fragment the
  adapter emits later is appended and the status becomes streaming. When the same chunks
  arrive after \<^verbatim>\<open>subscribe\<close> has returned, the done chunk closes the subscriber and the
  later fragment is dropped.
\<close>

theorem done_during_subscribe_keeps_subscription:
  "map content (messagesSubject
      (run (exampleOptions (exampleAdapter helloWorld)) [Send ''hi'' None]
         (createChatController (exampleOptions (exampleAdapter helloWorld)))))
     = [''hi'', ''Hello World''] \<and>
   statusSubject
      (run (exampleOptions (exampleAdapter helloWorld)) [Send ''hi'' None]
         (createChatController (exampleOptions (exampleAdapter helloWorld))))
     = Idle \<and>
   subscriberClosed
      (run (exampleOptions (exampleAdapter helloWorld)) [Send ''hi'' None]
         (createChatController (exampleOptions (exampleAdapter helloWorld)))) 0
     = False \<and>
   map content (messagesSubject
      (run (exampleOptions (exampleAdapter helloWorld))
         [Send ''hi'' None, AdapterEmits 0 (OnNext (ChunkString ''!''))]
         (createChatController (exampleOptions (exampleAdapter helloWorld)))))
     = [''hi'', ''Hello World!''] \<and>
   statusSubject
      (run (exampleOptions (exampleAdapter helloWorld))
         [Send ''hi'' None, AdapterEmits 0 (OnNext (ChunkString ''!''))]
         (createChatController (exampleOptions (exampleAdapter helloWorld))))
     = Streaming \<and>
   map content (messagesSubject
      (run (exampleOptions (exampleAdapter []))
         (Send ''hi'' None # map (AdapterEmits 0) helloWorld @
            [AdapterEmits 0 (OnNext (ChunkString ''!''))])
         (createChatController (exampleOptions (exampleAdapter [])))))
     = [''hi'', ''Hello World''] \<and>
   statusSubject
      (run (exampleOptions (exampleAdapter []))
         (Send ''hi'' None # map (AdapterEmits 0) helloWorld @
            [AdapterEmits 0 (OnNext (ChunkString ''!''))])
         (createChatController (exampleOptions (exampleAdapter []))))
     = Idle"
proof -
  let ?O = "exampleOptions (exampleAdapter helloWorld)"
  let ?A = "exampleOptions (exampleAdapter [])"
  let ?rel = "releaseActiveRequest ?O"
  let ?relA = "releaseActiveRequest ?A"
  let ?base = "[\<lparr> msg_id = ''m'', role = User, content = ''hi'', createdAt = 0,
                  meta = (None :: (string \<times> nat) list option) \<rparr>]"
  let ?pre = "\<lambda>m. setMessages
          [\<lparr> msg_id = ''m'', role = User, content = ''hi'', createdAt = 0, meta = None \<rparr>,
           \<lparr> msg_id = ''mm'', role = Assistant, content = [], createdAt = 1, meta = None \<rparr>]
          ((releaseActiveRequest (exampleOptions m) (createChatController (exampleOptions m)))
             \<lparr> created := Suc (Suc 0) \<rparr>)"
  let ?x1 = "ChunkObject ''Hello'' (Some False)"
  let ?x2 = "ChunkObject '' World'' (Some True)"
  let ?x3 = "ChunkString ''!''"
  txt \<open>The done chunk arrives during subscribe.\<close>
  let ?p = "prepared ?O ?base ''mm'' (?pre (exampleAdapter helloWorld))"
  let ?q1 = "notifyChunk ?rel 0 (OnNext ?x1) ?p"
  let ?q2 = "notifyChunk ?rel 0 (OnNext ?x2) ?q1"
  let ?s1 = "?q2\<lparr> activeSubscription := Some 0 \<rparr>"
  let ?s2 = "notifyChunk ?rel 0 (OnNext ?x3) ?s1"
  have m: "model ?O = Adapter \<lparr> complete = (\<lambda>n request. helloWorld) \<rparr>"
    by (simp add: exampleAdapter_def)
  have nl: "\<not> isLanguageModel (model ?O)" by (simp add: exampleAdapter_def)
  have send: "send ?O ''hi'' None (createChatController ?O) = ?s1"
    by (simp add: send_example runCompletion_eq deliverCompletion_def exampleAdapter_def
        helloWorld_def)
  have p: "\<not> subscriberClosed ?p 0" "activeSubscription ?p = None"
    "assistantMessageId ?p 0 = ''mm''"
    "messagesSubject ?p =
      [\<lparr> msg_id = ''m'', role = User, content = ''hi'', createdAt = 0, meta = None \<rparr>,
       \<lparr> msg_id = ''mm'', role = Assistant, content = [], createdAt = 1, meta = None \<rparr>]"
    using prepared_fields(11) [of ?O ?base "''mm''" "?pre (exampleAdapter helloWorld)"]
    by simp_all
  note n1 = notifyChunk_next [OF m p(1), of ?x1]
  have q1: "\<not> subscriberClosed ?q1 0" "activeSubscription ?q1 = None"
    "assistantMessageId ?q1 0 = ''mm''"
    "messagesSubject ?q1 =
      [\<lparr> msg_id = ''m'', role = User, content = ''hi'', createdAt = 0, meta = None \<rparr>,
       \<lparr> msg_id = ''mm'', role = Assistant, content = ''Hello'', createdAt = 1, meta = None \<rparr>]"
    using n1 p by (simp_all add: appendText_def)
  note n2 = notifyChunk_next [OF m q1(1), of ?x2]
  have q2: "\<not> subscriberClosed ?q2 0" "statusSubject ?q2 = Idle"
    "assistantMessageId ?q2 0 = ''mm''"
    "messagesSubject ?q2 =
      [\<lparr> msg_id = ''m'', role = User, content = ''hi'', createdAt = 0, meta = None \<rparr>,
       \<lparr> msg_id = ''mm'', role = Assistant, content = ''Hello World'', createdAt = 1, meta = None \<rparr>]"
    using n2 q1 by (simp_all add: appendText_def comp_def)
  have s1: "\<not> subscriberClosed ?s1 0" "statusSubject ?s1 = Idle"
    "assistantMessageId ?s1 0 = ''mm''"
    "messagesSubject ?s1 =
      [\<lparr> msg_id = ''m'', role = User, content = ''hi'', createdAt = 0, meta = None \<rparr>,
       \<lparr> msg_id = ''mm'', role = Assistant, content = ''Hello World'', createdAt = 1, meta = None \<rparr>]"
    "requests ?s1 = Suc 0"
    using q2 by simp_all
  note n3 = notifyChunk_next [OF m s1(1), of ?x3]
  have s2: "statusSubject ?s2 = Streaming"
    "messagesSubject ?s2 =
      [\<lparr> msg_id = ''m'', role = User, content = ''hi'', createdAt = 0, meta = None \<rparr>,
       \<lparr> msg_id = ''mm'', role = Assistant, content = ''Hello World!'', createdAt = 1, meta = None \<rparr>]"
    using n3 s1 by (simp_all add: appendText_def comp_def)
  have r1: "run ?O [Send ''hi'' None] (createChatController ?O) = ?s1"
    by (simp add: run_def send)
  have r2: "run ?O [Send ''hi'' None, AdapterEmits 0 (OnNext ?x3)] (createChatController ?O) = ?s2"
    using nl s1(5) by (simp add: run_def send)
  txt \<open>The same chunks arrive after subscribe has returned.\<close>
  let ?pA = "(prepared ?A ?base ''mm'' (?pre (exampleAdapter [])))\<lparr> activeSubscription := Some 0 \<rparr>"
  let ?t1 = "notifyChunk ?relA 0 (OnNext ?x1) ?pA"
  let ?t2 = "notifyChunk ?relA 0 (OnNext ?x2) ?t1"
  have mA: "model ?A = Adapter \<lparr> complete = (\<lambda>n request. []) \<rparr>"
    by (simp add: exampleAdapter_def)
  have nlA: "\<not> isLanguageModel (model ?A)" by (simp add: exampleAdapter_def)
  have sendA: "send ?A ''hi'' None (createChatController ?A) = ?pA"
    using runCompletion_silent [of ?A "?pre (exampleAdapter [])" ?base "''mm''"] mA
    by (simp add: send_example)
  have pA: "\<not> subscriberClosed ?pA 0" "activeSubscription ?pA = Some 0"
    "assistantMessageId ?pA 0 = ''mm''"
    "messagesSubject ?pA =
      [\<lparr> msg_id = ''m'', role = User, content = ''hi'', createdAt = 0, meta = None \<rparr>,
       \<lparr> msg_id = ''mm'', role = Assistant, content = [], createdAt = 1, meta = None \<rparr>]"
    "requests ?pA = Suc 0"
    using prepared_fields(11) [of ?A ?base "''mm''" "?pre (exampleAdapter [])"]
    by simp_all
  note a1 = notifyChunk_next [OF mA pA(1), of ?x1]
  have t1: "\<not> subscriberClosed ?t1 0" "activeSubscription ?t1 = Some 0"
    "assistantMessageId ?t1 0 = ''mm''"
    "messagesSubject ?t1 =
      [\<lparr> msg_id = ''m'', role = User, content = ''hi'', createdAt = 0, meta = None \<rparr>,
       \<lparr> msg_id = ''mm'', role = Assistant, content = ''Hello'', createdAt = 1, meta = None \<rparr>]"
    using a1 pA by (simp_all add: appendText_def)
  note a2 = notifyChunk_next [OF mA t1(1), of ?x2]
  have t2: "subscriberClosed ?t2 0" "statusSubject ?t2 = Idle"
    "messagesSubject ?t2 =
      [\<lparr> msg_id = ''m'', role = User, content = ''hi'', createdAt = 0, meta = None \<rparr>,
       \<lparr> msg_id = ''mm'', role = Assistant, content = ''Hello World'', createdAt = 1, meta = None \<rparr>]"
    using a2 t1 by (simp_all add: appendText_def comp_def)
  have t3: "notifyChunk ?relA 0 (OnNext ?x3) ?t2 = ?t2"
    using t2(1) by (rule notifyChunk_closed)
  have r3: "run ?A
      (Send ''hi'' None # map (AdapterEmits 0) helloWorld @ [AdapterEmits 0 (OnNext ?x3)])
      (createChatController ?A) = ?t2"
    using nlA pA(5) t3 by (simp add: run_def sendA helloWorld_def)
  show ?thesis
    unfolding r1 r2 r3 using s1 s2 t2 by simp
qed

theorem failure_sets_error_witness:
  "statusSubject
     (step (exampleOptions (exampleAdapter [])) (AdapterEmits 0 (OnError (Unknown 7)))
        (run (exampleOptions (exampleAdapter [])) [Send ''hi'' None]
           (createChatController (exampleOptions (exampleAdapter []))))) = Error \<and>
   errorSubject
     (step (exampleOptions (exampleAdapter [])) (AdapterEmits 0 (OnError (Unknown 7)))
        (run (exampleOptions (exampleAdapter [])) [Send ''hi'' None]
           (createChatController (exampleOptions (exampleAdapter []))))) = Some (Unknown 7) \<and>
   subscriberClosed
     (step (exampleOptions (exampleAdapter [])) (AdapterEmits 0 (OnError (Unknown 7)))
        (run (exampleOptions (exampleAdapter [])) [Send ''hi'' None]
           (createChatController (exampleOptions (exampleAdapter []))))) 0 \<and>
   statusSubject
     (step (exampleOptions (LanguageModel (exampleLanguageModel [])))
        (ModelEmits 0 (OnError (Unknown 7)))
        (run (exampleOptions (LanguageModel (exampleLanguageModel []))) [Send ''hi'' None]
           (createChatController (exampleOptions (LanguageModel (exampleLanguageModel []))))))
     = Error \<and>
   errorSubject
     (step (exampleOptions (LanguageModel (exampleLanguageModel [])))
        (ModelEmits 0 (OnError (Unknown 7)))
        (run (exampleOptions (LanguageModel (exampleLanguageModel []))) [Send ''hi'' None]
           (createChatController (exampleOptions (LanguageModel (exampleLanguageModel []))))))
     = Some (Unknown 7) \<and>
   statusSubject
     (send (exampleOptions (exampleAdapter [OnError (Unknown 7)])) ''hi'' None
        (createChatController (exampleOptions (exampleAdapter [OnError (Unknown 7)])))) = Error \<and>
   errorSubject
     (send (exampleOptions (exampleAdapter [OnError (Unknown 7)])) ''hi'' None
        (createChatController (exampleOptions (exampleAdapter [OnError (Unknown 7)]))))
     = Some (Unknown 7) \<and>
   statusSubject
     (send (exampleOptions (LanguageModel (exampleLanguageModel [OnError (Unknown 7)]))) ''hi'' None
        (createChatController
           (exampleOptions (LanguageModel (exampleLanguageModel [OnError (Unknown 7)]))))) = Error \<and>
   errorSubject
     (send (exampleOptions (LanguageModel (exampleLanguageModel [OnError (Unknown 7)]))) ''hi'' None
        (createChatController
           (exampleOptions (LanguageModel (exampleLanguageModel [OnError (Unknown 7)])))))
     = Some (Unknown 7)"
proof -
  let ?A = "exampleOptions (exampleAdapter [])"
  let ?lm = "exampleLanguageModel [] :: nat LanguageModel"
  let ?L = "exampleOptions (LanguageModel ?lm)"
  let ?fa = "exampleAdapter [OnError (Unknown 7)]"
  let ?fl = "exampleLanguageModel [OnError (Unknown 7)] :: nat LanguageModel"
  let ?base = "[\<lparr> msg_id = ''m'', role = User, content = ''hi'', createdAt = 0,
                  meta = (None :: (string \<times> nat) list option) \<rparr>]"
  let ?pre = "\<lambda>m. setMessages
          [\<lparr> msg_id = ''m'', role = User, content = ''hi'', createdAt = 0, meta = None \<rparr>,
           \<lparr> msg_id = ''mm'', role = Assistant, content = [], createdAt = 1, meta = None \<rparr>]
          ((releaseActiveRequest (exampleOptions m) (createChatController (exampleOptions m)))
             \<lparr> created := Suc (Suc 0) \<rparr>)"
  have ra: "run ?A [Send ''hi'' None] (createChatController ?A) =
      send ?A ''hi'' None (createChatController ?A)"
    by (simp add: run_def)
  have rl: "run ?L [Send ''hi'' None] (createChatController ?L) =
      send ?L ''hi'' None (createChatController ?L)"
    by (simp add: run_def)
  have ha: "0 < requests (run ?A [Send ''hi'' None] (createChatController ?A)) \<and>
      \<not> subscriberClosed (run ?A [Send ''hi'' None] (createChatController ?A)) 0"
    unfolding ra using send_example_silent [of "exampleAdapter []"] by simp
  have hl: "0 < requests (run ?L [Send ''hi'' None] (createChatController ?L)) \<and>
      \<not> subscriberClosed (run ?L [Send ''hi'' None] (createChatController ?L)) 0"
    unfolding rl using send_example_silent [of "LanguageModel ?lm"] by simp
  have ma: "model ?A = Adapter \<lparr> complete = (\<lambda>n request. []) \<rparr>"
    by (simp add: exampleAdapter_def)
  have ml: "model ?L = LanguageModel ?lm" by simp
  have w1: "failedWith (Unknown 7) 0
      (step ?A (AdapterEmits 0 (OnError (Unknown 7)))
         (run ?A [Send ''hi'' None] (createChatController ?A)))"
    using failure_sets_error_state
      [where options = ?A and ops = "[Send ''hi'' None]" and n = 0 and e = "Unknown 7"
         and a = "\<lparr> complete = (\<lambda>n request. []) \<rparr>"]
      ha ma by blast
  have w2: "failedWith (Unknown 7) 0
      (step ?L (ModelEmits 0 (OnError (Unknown 7)))
         (run ?L [Send ''hi'' None] (createChatController ?L)))"
    using failure_sets_error_state
      [where options = ?L and ops = "[Send ''hi'' None]" and n = 0 and e = "Unknown 7"
         and lm = ?lm]
      hl ml by blast
  have w3: "failedWith (Unknown 7) 0
      (runCompletion (exampleOptions ?fa) ?base ''mm'' (?pre ?fa))"
    using failure_sets_error_state
      [where options = "exampleOptions ?fa" and e = "Unknown 7"
         and a = "\<lparr> complete = (\<lambda>n request. [OnError (Unknown 7)]) \<rparr>"
         and s = "?pre ?fa" and base = ?base and aid = "''mm''" and cs = "[]" and rest = "[]"]
    by (simp add: exampleAdapter_def)
  have w4: "failedWith (Unknown 7) 0
      (runCompletion (exampleOptions (LanguageModel ?fl)) ?base ''mm'' (?pre (LanguageModel ?fl)))"
    using failure_sets_error_state
      [where options = "exampleOptions (LanguageModel ?fl)" and e = "Unknown 7" and lm = ?fl
         and s = "?pre (LanguageModel ?fl)" and base = ?base and aid = "''mm''"
         and evs = "[]" and rest' = "[]"]
    by (simp add: exampleLanguageModel_def)
  show ?thesis
    using w1 w2 w3 w4 by (simp add: failedWith_def send_example)
qed

end
